(* ===== verification/Timelord_Prelude.thy ===== *)
theory Timelord_Prelude
  imports
    Main
    "HOL-Library.Word"
    "HOL-Library.List_Lexorder"
    "HOL-Library.Char_ord"
    "HOL-Library.Signed_Division"
    "HOL-Library.Multiset"
begin

text \<open>
  Shared vocabulary of the development.

  \<^item> Instants (chrono's \<^verbatim>\<open>DateTime<Utc>\<close>) are integers, nanoseconds since the Unix epoch;
    \<^verbatim>\<open>chrono::Duration\<close>, \<^verbatim>\<open>std::time::Duration\<close> and \<^verbatim>\<open>Instant\<close> differences are
    integers in nanoseconds too, the unsigned ones non-negative by construction.
  \<^item> A \<^verbatim>\<open>Uuid\<close> is its 128-bit value; its \<^verbatim>\<open>Ord\<close> is the order of that value.
  \<^item> Text is \<^typ>\<open>string\<close> (the UTF-8 bytes), compared bytewise, as SQLite compares
    \<^verbatim>\<open>TEXT\<close> columns and Rust compares \<^verbatim>\<open>str\<close>.
  \<^item> A \<^verbatim>\<open>Result\<close> is a sum with the error on the left; a panic is an error value.
  \<^item> The renderings of \<^verbatim>\<open>Uuid\<close> and \<^verbatim>\<open>DateTime\<close> as text come from crates outside the
    repository: they are the fields of the parameter record \<open>text_env\<close>, and
    \<open>text_env_ok\<close> collects what those crates document. \<open>sample_text_env\<close> is a
    concrete instance that satisfies the laws.
\<close>

named_theorems codec_simps \<open>round-trip laws of the text encodings\<close>
named_theorems inv_intros \<open>invariant preservation, one rule per operation\<close>

type_synonym datetime = int
type_synonym nanos = int
type_synonym uuid = "128 word"
type_synonym u32 = "32 word"
type_synonym u16 = "16 word"
type_synonym u8 = "8 word"

definition seconds :: "int \<Rightarrow> nanos" where
  "seconds n = n * 1000000000"

definition millis :: "int \<Rightarrow> nanos" where
  "millis n = n * 1000000"

text \<open>chrono's \<^verbatim>\<open>num_seconds\<close> and Rust's \<^verbatim>\<open>/\<close> truncate towards zero.\<close>

definition num_seconds :: "nanos \<Rightarrow> int" where
  "num_seconds d = d sdiv 1000000000"

lemma seconds_mono [simp]: "seconds a \<le> seconds b \<longleftrightarrow> a \<le> b"
  by (simp add: seconds_def)

lemma seconds_mono_less [simp]: "seconds a < seconds b \<longleftrightarrow> a < b"
  by (simp add: seconds_def)

lemma num_seconds_seconds [simp]: "num_seconds (seconds n) = n"
  by (simp add: num_seconds_def seconds_def signed_divide_int_def sgn_if abs_mult)

lemma num_seconds_nonneg: "0 \<le> d \<Longrightarrow> num_seconds d = d div 1000000000"
  by (cases "d = 0") (simp_all add: num_seconds_def signed_divide_int_def sgn_if)

lemma num_seconds_neg: "d < 0 \<Longrightarrow> num_seconds d = - ((- d) div 1000000000)"
  by (simp add: num_seconds_def signed_divide_int_def sgn_if)

lemma num_seconds_le_iff:
  assumes "0 \<le> n"
  shows "num_seconds d \<le> n \<longleftrightarrow> d < seconds (n + 1)"
proof (cases "0 \<le> d")
  case True
  then show ?thesis by (simp add: num_seconds_nonneg seconds_def) linarith
next
  case False
  then have "0 \<le> (- d) div 1000000000" by (simp add: pos_imp_zdiv_nonneg_iff)
  with False assms show ?thesis by (simp add: num_seconds_neg seconds_def)
qed

lemma num_seconds_mono: "a \<le> b \<Longrightarrow> num_seconds a \<le> num_seconds b"
proof (cases "0 \<le> a")
  case True
  assume "a \<le> b"
  with True show ?thesis by (simp add: num_seconds_nonneg zdiv_mono1)
next
  case False
  assume ab: "a \<le> b"
  from False have "0 \<le> (- a) div 1000000000" by (simp add: pos_imp_zdiv_nonneg_iff)
  moreover have "0 \<le> b \<Longrightarrow> 0 \<le> b div 1000000000" by (simp add: pos_imp_zdiv_nonneg_iff)
  moreover have "b < 0 \<Longrightarrow> (- b) div 1000000000 \<le> (- a) div 1000000000"
    using ab by (simp add: zdiv_mono1)
  ultimately show ?thesis
    using False by (cases "0 \<le> b") (simp_all add: num_seconds_neg num_seconds_nonneg)
qed

section \<open>Results\<close>

text \<open>\<^verbatim>\<open>collect::<Result<Vec<_>, _>>\<close>: the values in order, or the first error.\<close>

fun collect_results :: "('e + 'a) list \<Rightarrow> 'e + 'a list" where
  "collect_results [] = Inr []"
| "collect_results (r # rs) =
     (case r of
        Inl e \<Rightarrow> Inl e
      | Inr a \<Rightarrow> (case collect_results rs of Inl e \<Rightarrow> Inl e | Inr as \<Rightarrow> Inr (a # as)))"

lemma collect_results_all_Inr:
  "(\<And>x. x \<in> set xs \<Longrightarrow> f x = Inr (g x)) \<Longrightarrow> collect_results (map f xs) = Inr (map g xs)"
  by (induction xs) auto

section \<open>Lists and sorting\<close>

text \<open>
  \<^verbatim>\<open>ORDER BY\<close> is a stable sort of the rows in the order the engine visits them. Two keys
  that order the rows alike give the same result.
\<close>

lemma insort_key_cong:
  assumes "\<And>y. y \<in> set xs \<Longrightarrow> f x \<le> f y \<longleftrightarrow> g x \<le> g y"
  shows "insort_key f x xs = insort_key g x xs"
  using assms by (induction xs) auto

lemma sort_key_cong_order:
  assumes "\<And>x y. x \<in> set xs \<Longrightarrow> y \<in> set xs \<Longrightarrow> f x \<le> f y \<longleftrightarrow> g x \<le> g y"
  shows "sort_key f xs = sort_key g xs"
  using assms
proof (induction xs)
  case Nil
  then show ?case by simp
next
  case (Cons x xs)
  then have IH: "sort_key f xs = sort_key g xs" by simp
  have "insort_key f x (sort_key g xs) = insort_key g x (sort_key g xs)"
    by (rule insort_key_cong) (simp add: Cons.prems)
  with IH show ?case by simp
qed

lemma sort_key_map: "sort_key f (map g xs) = map g (sort_key (\<lambda>x. f (g x)) xs)"
proof (induction xs)
  case Nil
  then show ?case by simp
next
  case (Cons x xs)
  have "insort_key f (g x) (map g ys) = map g (insort_key (\<lambda>x. f (g x)) x ys)" for ys
    by (induction ys) auto
  with Cons show ?case by simp
qed

lemma filter_map_eq: "filter P (map f xs) = map f (filter (\<lambda>x. P (f x)) xs)"
  by (induction xs) auto

text \<open>A permutation of an image is the image of a permutation.\<close>

lemma mset_map_perm:
  "mset ys = mset (map f xs) \<Longrightarrow> \<exists>xs'. mset xs' = mset xs \<and> ys = map f xs'"
proof (induction ys arbitrary: xs)
  case Nil
  then show ?case by simp
next
  case (Cons y ys)
  then have "y \<in> f ` set xs" by (metis list.set_intros(1) list.set_map mset_eq_setD)
  then obtain x where x: "x \<in> set xs" "y = f x" by blast
  then have rm: "mset xs = add_mset x (mset (remove1 x xs))" by simp
  then have "mset (map f xs) = mset (f x # map f (remove1 x xs))"
    by (metis image_mset_add_mset list.simps(9) mset.simps(2) mset_map)
  with Cons.prems x have "mset ys = mset (map f (remove1 x xs))" by simp
  from Cons.IH [OF this] obtain xs' where "mset xs' = mset (remove1 x xs)" "ys = map f xs'" by blast
  with x show ?case by (intro exI [of _ "x # xs'"]) simp
qed

text \<open>\<^verbatim>\<open>ORDER BY key LIMIT n\<close> takes rows in order, and what it leaves out is no smaller.\<close>

lemma take_sort_key_le:
  assumes "x \<in> set (take n (sort_key f xs))" "y \<in> set (drop n (sort_key f xs))"
  shows "f x \<le> f y"
proof -
  have "sorted (map f (take n (sort_key f xs) @ drop n (sort_key f xs)))" by simp
  with assms show ?thesis by (simp only: map_append sorted_append) simp
qed

lemma set_scan:
  "mset ys = mset xs \<Longrightarrow> set ys = set xs"
  by (rule mset_eq_setD)

lemma distinct_map_eqD:
  "distinct (map f xs) \<Longrightarrow> x \<in> set xs \<Longrightarrow> y \<in> set xs \<Longrightarrow> f x = f y \<Longrightarrow> x = y"
  by (auto simp: distinct_map dest: inj_onD)

text \<open>\<^verbatim>\<open>Iterator::min\<close>\<close>

fun iter_min :: "'a::linorder list \<Rightarrow> 'a option" where
  "iter_min [] = None"
| "iter_min (x # xs) = (case iter_min xs of None \<Rightarrow> Some x | Some m \<Rightarrow> Some (min x m))"

lemma iter_min_None [simp]: "iter_min xs = None \<longleftrightarrow> xs = []"
  by (cases xs) (auto split: option.splits)

lemma iter_min_Some: "iter_min xs = Some m \<Longrightarrow> m \<in> set xs \<and> (\<forall>x \<in> set xs. m \<le> x)"
  by (induction xs arbitrary: m) (fastforce split: option.splits simp: min_def)+

section \<open>Runs of a state machine\<close>

text \<open>
  Every component is a machine fed with inputs one at a time. The locale says once what an
  invariant of one step gives for a whole run; the components interpret it.
\<close>

locale invariant_machine =
  fixes step :: "'s \<Rightarrow> 'i \<Rightarrow> 's"
    and inv :: "'s \<Rightarrow> bool"
    and ok :: "'i \<Rightarrow> bool"
  assumes step_inv: "inv s \<Longrightarrow> ok i \<Longrightarrow> inv (step s i)"
begin

lemma run_inv: "inv s \<Longrightarrow> list_all ok is \<Longrightarrow> inv (foldl step s is)"
  by (induction "is" arbitrary: s) (auto intro: step_inv)

lemma run_prefix_inv: "inv s \<Longrightarrow> list_all ok is \<Longrightarrow> inv (foldl step s (take n is))"
proof -
  assume s: "inv s" and ok: "list_all ok is"
  from ok have "list_all ok (take n is)"
    by (auto simp: list_all_iff dest: in_set_takeD)
  with s show ?thesis by (rule run_inv)
qed

end

section \<open>Text renderings supplied by other crates\<close>

text \<open>
  \<^verbatim>\<open>Uuid::to_string\<close> / \<^verbatim>\<open>Uuid::parse_str\<close> and \<^verbatim>\<open>DateTime::to_rfc3339\<close> /
  \<^verbatim>\<open>DateTime::parse_from_rfc3339\<close>. The documented behaviour the code relies on: parsing a
  rendering gives the value back, and within the four-digit years RFC 3339 renderings in UTC
  sort as text the way the instants sort in time.
\<close>

record text_env =
  uuid_to_string :: "uuid \<Rightarrow> string"
  uuid_parse_str :: "string \<Rightarrow> uuid option"
  to_rfc3339 :: "datetime \<Rightarrow> string"
  parse_rfc3339 :: "string \<Rightarrow> datetime option"

definition rfc_min :: datetime where
  "rfc_min = seconds (-62167219200)"

definition rfc_end :: datetime where
  "rfc_end = seconds 253402300800"

definition rfc_range :: "datetime \<Rightarrow> bool" where
  "rfc_range t \<longleftrightarrow> rfc_min \<le> t \<and> t < rfc_end"

definition text_env_ok :: "'a text_env_scheme \<Rightarrow> bool" where
  "text_env_ok E \<longleftrightarrow>
     (\<forall>u. uuid_parse_str E (uuid_to_string E u) = Some u) \<and>
     (\<forall>t. rfc_range t \<longrightarrow> parse_rfc3339 E (to_rfc3339 E t) = Some t) \<and>
     (\<forall>s t. rfc_range s \<longrightarrow> rfc_range t \<longrightarrow> s < t \<longrightarrow> to_rfc3339 E s < to_rfc3339 E t)"

lemma uuid_roundtrip [codec_simps]:
  "text_env_ok E \<Longrightarrow> uuid_parse_str E (uuid_to_string E u) = Some u"
  by (simp add: text_env_ok_def)

lemma uuid_to_string_inject [codec_simps]:
  "text_env_ok E \<Longrightarrow> uuid_to_string E u = uuid_to_string E v \<longleftrightarrow> u = v"
  by (metis option.inject uuid_roundtrip)

lemma rfc3339_roundtrip [codec_simps]:
  "text_env_ok E \<Longrightarrow> rfc_range t \<Longrightarrow> parse_rfc3339 E (to_rfc3339 E t) = Some t"
  by (simp add: text_env_ok_def)

lemma rfc3339_less [codec_simps]:
  assumes "text_env_ok E" "rfc_range s" "rfc_range t"
  shows "to_rfc3339 E s < to_rfc3339 E t \<longleftrightarrow> s < t"
  using assms unfolding text_env_ok_def by (metis linorder_neqE order_less_asym)

lemma rfc3339_le [codec_simps]:
  "text_env_ok E \<Longrightarrow> rfc_range s \<Longrightarrow> rfc_range t \<Longrightarrow>
   to_rfc3339 E s \<le> to_rfc3339 E t \<longleftrightarrow> s \<le> t"
  by (simp add: rfc3339_less flip: not_less)

lemma rfc_range_between:
  "rfc_range a \<Longrightarrow> rfc_range b \<Longrightarrow> a \<le> t \<Longrightarrow> t \<le> b \<Longrightarrow> rfc_range t"
  by (auto simp: rfc_range_def)

subsection \<open>A concrete instance\<close>

text \<open>Fixed-width positional renderings satisfy the laws.\<close>

fun enc_digits :: "nat \<Rightarrow> nat \<Rightarrow> string" where
  "enc_digits 0 n = []"
| "enc_digits (Suc k) n = enc_digits k (n div 16) @ [char_of (48 + n mod 16)]"

definition dec_digits :: "string \<Rightarrow> nat" where
  "dec_digits s = foldl (\<lambda>a c. a * 16 + (of_char c - 48)) 0 s"

lemma length_enc_digits [simp]: "length (enc_digits k n) = k"
  by (induction k arbitrary: n) auto

lemma of_char_digit: "d < 16 \<Longrightarrow> (of_char (char_of (48 + d) :: char) :: nat) = 48 + d"
  by (simp add: of_char_of)

lemma dec_enc_digits: "n < 16 ^ k \<Longrightarrow> dec_digits (enc_digits k n) = n"
proof (induction k arbitrary: n)
  case 0
  then show ?case by (simp add: dec_digits_def)
next
  case (Suc k)
  then have "n div 16 < 16 ^ k" by (simp add: less_mult_imp_div_less mult.commute)
  with Suc.IH have "dec_digits (enc_digits k (n div 16)) = n div 16" by blast
  then show ?case by (simp add: dec_digits_def of_char_digit)
qed

lemma less_append_same_length:
  fixes xs ys :: "'a::linorder list"
  shows "length xs = length ys \<Longrightarrow>
    xs @ [a] < ys @ [b] \<longleftrightarrow> xs < ys \<or> (xs = ys \<and> a < b)"
  by (induction xs ys rule: list_induct2) auto

lemma char_digit_less:
  "a < 16 \<Longrightarrow> b < 16 \<Longrightarrow> (char_of (48 + a) :: char) < char_of (48 + b) \<longleftrightarrow> a < (b::nat)"
  by (simp add: less_char_def of_char_digit)

lemma enc_digits_less: "m < n \<Longrightarrow> n < 16 ^ k \<Longrightarrow> enc_digits k m < enc_digits k n"
proof (induction k arbitrary: m n)
  case 0
  then show ?case by simp
next
  case (Suc k)
  have n: "n div 16 < 16 ^ k" using Suc.prems by (simp add: less_mult_imp_div_less mult.commute)
  have "m div 16 < n div 16 \<or> (m div 16 = n div 16 \<and> m mod 16 < n mod 16)"
    using Suc.prems(1) div_mult_mod_eq [of m 16] div_mult_mod_eq [of n 16]
      div_le_mono [of m n 16] by linarith
  then consider "m div 16 < n div 16" | "m div 16 = n div 16" "m mod 16 < n mod 16"
    by blast
  then show ?case
  proof cases
    case 1
    from Suc.IH [OF this n] show ?thesis by (simp add: less_append_same_length)
  next
    case 2
    then show ?thesis by (simp add: less_append_same_length char_digit_less)
  qed
qed

definition sample_text_env :: text_env where
  "sample_text_env =
     \<lparr> uuid_to_string = (\<lambda>u. enc_digits 32 (unat u)),
       uuid_parse_str = (\<lambda>s. if length s = 32 then Some (word_of_nat (dec_digits s)) else None),
       to_rfc3339 = (\<lambda>t. enc_digits 18 (nat (t - rfc_min))),
       parse_rfc3339 = (\<lambda>s. Some (int (dec_digits s) + rfc_min)) \<rparr>"

lemma sample_time_bound: "rfc_range t \<Longrightarrow> nat (t - rfc_min) < 16 ^ 18"
  by (auto simp: rfc_range_def rfc_min_def rfc_end_def seconds_def nat_less_iff)

lemma sample_text_env_ok: "text_env_ok sample_text_env"
  unfolding text_env_ok_def
proof (intro conjI allI impI)
  fix u :: uuid
  have "unat u < 16 ^ 32" using unsigned_less [of u, where 'a = nat] by simp
  then show "uuid_parse_str sample_text_env (uuid_to_string sample_text_env u) = Some u"
    by (simp add: sample_text_env_def dec_enc_digits)
next
  fix t assume "rfc_range t"
  then show "parse_rfc3339 sample_text_env (to_rfc3339 sample_text_env t) = Some t"
    by (simp add: sample_text_env_def dec_enc_digits [OF sample_time_bound])
      (simp add: rfc_range_def)
next
  fix s t assume "rfc_range s" "rfc_range t" "s < t"
  then show "to_rfc3339 sample_text_env s < to_rfc3339 sample_text_env t"
    by (auto simp: sample_text_env_def rfc_range_def intro!: enc_digits_less sample_time_bound)
qed

end
