(* ===== verification/Tracker.thy ===== *)
theory Tracker
  imports Timelord_Prelude "HOL-Library.Finite_Map"
begin

text \<open>
  The usage-session state machine of \<^verbatim>\<open>agent/src/tracker.rs\<close>: session and power
  notifications go in, spans of device use come out. The map of sessions is a finite map,
  each operation a function on the record \<open>usage_tracker\<close>.

  The locale \<open>interval_source\<close> is what the recorder relies on: transitions open and close
  one interval at a time. Its lemmas (alternation, disjointness, accounting) hold for every
  such source and are used here through the interpretation on \<open>apply_event\<close>.
  \<open>in_use\<close> is an independent description of "the device is in use" as a property of the
  history of notifications.
\<close>

section \<open>Data\<close>

type_synonym session_id = u32

datatype session_event =
    Logon session_id
  | Logoff session_id
  | Lock session_id
  | Unlock session_id
  | ConsoleConnect session_id
  | ConsoleDisconnect session_id
  | RemoteConnect session_id
  | RemoteDisconnect session_id
  | Suspend
  | Resume

datatype end_reason =
    EndLock
  | EndLogoff
  | EndSuspend
  | EndConsoleDisconnect
  | EndRemoteDisconnect
  | EndAgentRestart
  | EndAgentShutdown

record usage_session_record =
  rec_start :: datetime
  rec_end :: datetime
  rec_end_reason :: end_reason

datatype transition =
    NoChange
  | Started datetime
  | Ended usage_session_record

fun is_ended :: "transition \<Rightarrow> bool" where
  "is_ended (Ended _) = True"
| "is_ended _ = False"

fun event_session_id :: "session_event \<Rightarrow> session_id option" where
  "event_session_id (Logon sid) = Some sid"
| "event_session_id (Logoff sid) = Some sid"
| "event_session_id (Lock sid) = Some sid"
| "event_session_id (Unlock sid) = Some sid"
| "event_session_id (ConsoleConnect sid) = Some sid"
| "event_session_id (ConsoleDisconnect sid) = Some sid"
| "event_session_id (RemoteConnect sid) = Some sid"
| "event_session_id (RemoteDisconnect sid) = Some sid"
| "event_session_id Suspend = None"
| "event_session_id Resume = None"

record session_presence =
  visible :: bool

record usage_tracker =
  sessions :: "(session_id, session_presence) fmap"
  suspended :: bool
  open_since :: "datetime option"

section \<open>Operations\<close>

definition tracker_new :: usage_tracker where
  "tracker_new = \<lparr> sessions = fmempty, suspended = False, open_since = None \<rparr>"

definition resume_open_session :: "datetime \<Rightarrow> usage_tracker" where
  "resume_open_session started_at =
     \<lparr> sessions = fmempty, suspended = False, open_since = Some started_at \<rparr>"

definition is_active :: "usage_tracker \<Rightarrow> bool" where
  "is_active t \<longleftrightarrow> open_since t \<noteq> None"

definition is_logged_on :: "usage_tracker \<Rightarrow> session_id \<Rightarrow> bool" where
  "is_logged_on t sid \<longleftrightarrow> fmlookup (sessions t) sid \<noteq> None"

text \<open>\<^verbatim>\<open>entry(id).and_modify(..).or_insert(..)\<close>\<close>

definition set_visible :: "session_id \<Rightarrow> bool \<Rightarrow> usage_tracker \<Rightarrow> usage_tracker" where
  "set_visible sid v t =
     t\<lparr>sessions := fmupd sid
        (case fmlookup (sessions t) sid of Some p \<Rightarrow> p\<lparr>visible := v\<rparr> | None \<Rightarrow> \<lparr>visible = v\<rparr>)
        (sessions t)\<rparr>"

definition any_visible :: "usage_tracker \<Rightarrow> bool" where
  "any_visible t \<longleftrightarrow> \<not> suspended t \<and> fBex (fmran (sessions t)) visible"

definition recompute :: "datetime \<Rightarrow> end_reason option \<Rightarrow> usage_tracker \<Rightarrow> usage_tracker \<times> transition" where
  "recompute at end_reason_if_closing t =
     (case (open_since t, any_visible t) of
        (None, True) \<Rightarrow> (t\<lparr>open_since := Some at\<rparr>, Started at)
      | (Some start, False) \<Rightarrow>
          (t\<lparr>open_since := None\<rparr>,
           Ended \<lparr> rec_start = start, rec_end = at,
                   rec_end_reason = (case end_reason_if_closing of Some r \<Rightarrow> r | None \<Rightarrow> EndLogoff) \<rparr>)
      | _ \<Rightarrow> (t, NoChange))"

definition connect_session :: "session_id \<Rightarrow> usage_tracker \<Rightarrow> usage_tracker" where
  "connect_session sid t = t\<lparr>sessions := fmupd sid \<lparr>visible = True\<rparr> (sessions t)\<rparr>"

fun apply_event :: "usage_tracker \<Rightarrow> session_event \<Rightarrow> datetime \<Rightarrow> usage_tracker \<times> transition" where
  "apply_event t (Logon sid) at = recompute at None (connect_session sid t)"
| "apply_event t (Unlock sid) at = recompute at None (connect_session sid t)"
| "apply_event t (ConsoleConnect sid) at = recompute at None (connect_session sid t)"
| "apply_event t (RemoteConnect sid) at = recompute at None (connect_session sid t)"
| "apply_event t (Lock sid) at = recompute at (Some EndLock) (set_visible sid False t)"
| "apply_event t (ConsoleDisconnect sid) at =
     recompute at (Some EndConsoleDisconnect) (set_visible sid False t)"
| "apply_event t (RemoteDisconnect sid) at =
     recompute at (Some EndRemoteDisconnect) (set_visible sid False t)"
| "apply_event t (Logoff sid) at =
     recompute at (Some EndLogoff) (t\<lparr>sessions := fmdrop sid (sessions t)\<rparr>)"
| "apply_event t Suspend at = recompute at (Some EndSuspend) (t\<lparr>suspended := True\<rparr>)"
| "apply_event t Resume at = recompute at None (t\<lparr>suspended := False\<rparr>)"

definition close_session :: "datetime \<Rightarrow> end_reason \<Rightarrow> usage_tracker \<Rightarrow> usage_tracker \<times> usage_session_record option" where
  "close_session at reason t =
     (t\<lparr>open_since := None\<rparr>,
      map_option (\<lambda>start. \<lparr> rec_start = start, rec_end = at, rec_end_reason = reason \<rparr>) (open_since t))"

section \<open>Sources of intervals\<close>

text \<open>Running a machine that reports transitions, and what it reports.\<close>

fun final_state :: "('s \<Rightarrow> 'e \<Rightarrow> datetime \<Rightarrow> 's \<times> transition) \<Rightarrow> 's \<Rightarrow> ('e \<times> datetime) list \<Rightarrow> 's" where
  "final_state step s [] = s"
| "final_state step s ((e, at) # es) = final_state step (fst (step s e at)) es"

fun transitions :: "('s \<Rightarrow> 'e \<Rightarrow> datetime \<Rightarrow> 's \<times> transition) \<Rightarrow> 's \<Rightarrow> ('e \<times> datetime) list \<Rightarrow> transition list" where
  "transitions step s [] = []"
| "transitions step s ((e, at) # es) = snd (step s e at) # transitions step (fst (step s e at)) es"

fun ended_records :: "transition list \<Rightarrow> usage_session_record list" where
  "ended_records [] = []"
| "ended_records (Ended r # trs) = r # ended_records trs"
| "ended_records (_ # trs) = ended_records trs"

definition duration :: "usage_session_record \<Rightarrow> int" where
  "duration r = rec_end r - rec_start r"

definition credit :: "datetime option \<Rightarrow> datetime \<Rightarrow> int" where
  "credit opened now = (case opened of None \<Rightarrow> 0 | Some b \<Rightarrow> now - b)"

fun time_ordered :: "datetime \<Rightarrow> ('e \<times> datetime) list \<Rightarrow> bool" where
  "time_ordered t [] = True"
| "time_ordered t ((e, at) # es) = (t \<le> at \<and> time_ordered at es)"

text \<open>Intervals that follow one another from time \<open>t\<close> on, none ending before it starts.\<close>

fun interval_chain :: "datetime \<Rightarrow> usage_session_record list \<Rightarrow> bool" where
  "interval_chain t [] = True"
| "interval_chain t (r # rs) =
     (t \<le> rec_start r \<and> rec_start r \<le> rec_end r \<and> interval_chain (rec_end r) rs)"

lemma interval_chain_weaken: "interval_chain u rs \<Longrightarrow> t \<le> u \<Longrightarrow> interval_chain t rs"
  by (cases rs) auto

text \<open>
  What a consumer of transitions may rely on: \<open>Started\<close> comes only when nothing is open and
  opens an interval at the time of the event, \<open>Ended\<close> closes the open one at that time,
  \<open>NoChange\<close> leaves it alone.
\<close>

locale interval_source =
  fixes step :: "'s \<Rightarrow> 'e \<Rightarrow> datetime \<Rightarrow> 's \<times> transition"
    and opened :: "'s \<Rightarrow> datetime option"
  assumes started: "step s e at = (s', Started b) \<Longrightarrow> opened s = None \<and> opened s' = Some at \<and> b = at"
    and ended: "step s e at = (s', Ended r) \<Longrightarrow>
      opened s = Some (rec_start r) \<and> opened s' = None \<and> rec_end r = at"
    and no_change: "step s e at = (s', NoChange) \<Longrightarrow> opened s' = opened s"
begin

text \<open>The time an interval is open, measured from event to event.\<close>

fun open_time :: "'s \<Rightarrow> datetime \<Rightarrow> ('e \<times> datetime) list \<Rightarrow> datetime \<Rightarrow> int" where
  "open_time s t [] now = (if opened s = None then 0 else now - t)"
| "open_time s t ((e, at) # es) now =
     (if opened s = None then 0 else at - t) + open_time (fst (step s e at)) at es now"

lemma credit_step:
  assumes "step s e at = (s', tr)"
  shows "credit (opened s) at = sum_list (map duration (ended_records [tr])) + credit (opened s') at"
  using assms started [of s e at s'] ended [of s e at s'] no_change [of s e at s']
  by (cases tr) (auto simp: credit_def duration_def)

lemma credit_later:
  "credit (opened s) u = credit (opened s) t + (if opened s = None then 0 else u - t)"
  by (auto simp: credit_def split: option.splits)

lemma accounting:
  "sum_list (map duration (ended_records (transitions step s es)))
     + credit (opened (final_state step s es)) now
   = credit (opened s) t + open_time s t es now"
proof (induction es arbitrary: s t)
  case Nil
  show ?case by (simp add: credit_later [of s now t])
next
  case (Cons x es)
  obtain e at where x: "x = (e, at)" by (cases x)
  obtain s' tr where st: "step s e at = (s', tr)" by (cases "step s e at")
  have "sum_list (map duration (ended_records (transitions step s (x # es))))
      = sum_list (map duration (ended_records [tr]))
        + sum_list (map duration (ended_records (transitions step s' es)))"
    by (cases tr) (simp_all add: x st)
  with Cons.IH [of s' at] credit_step [OF st] credit_later [of s at t] show ?case
    by (simp add: x st)
qed

lemma records_chain:
  assumes "time_ordered t es" and "case opened s of None \<Rightarrow> True | Some b \<Rightarrow> b \<le> t"
  shows "interval_chain (case opened s of None \<Rightarrow> t | Some b \<Rightarrow> b) (ended_records (transitions step s es))"
  using assms
proof (induction es arbitrary: s t)
  case Nil
  then show ?case by simp
next
  case (Cons x es)
  obtain e at where x: "x = (e, at)" by (cases x)
  obtain s' tr where st: "step s e at = (s', tr)" by (cases "step s e at")
  from Cons.prems x have le: "t \<le> at" and ord: "time_ordered at es" by auto
  show ?case
  proof (cases tr)
    case NoChange
    with no_change [of s e at s'] st have o: "opened s' = opened s" by simp
    from Cons.IH [OF ord, of s'] Cons.prems(2) le o
    have "interval_chain (case opened s of None \<Rightarrow> at | Some b \<Rightarrow> b) (ended_records (transitions step s' es))"
      by (auto split: option.splits)
    then show ?thesis
      using le by (auto simp: x st NoChange split: option.splits intro: interval_chain_weaken)
  next
    case (Started b)
    with started [of s e at s'] st have "opened s = None" "opened s' = Some at" by auto
    with Cons.IH [OF ord, of s'] le show ?thesis
      by (auto simp: x st Started intro: interval_chain_weaken)
  next
    case (Ended r)
    with ended [of s e at s'] st have "opened s = Some (rec_start r)" "opened s' = None" "rec_end r = at"
      by auto
    with Cons.IH [OF ord, of s'] Cons.prems(2) le show ?thesis
      by (simp add: x st Ended)
  qed
qed

end

section \<open>The tracker is a source of intervals\<close>

lemma recompute_cases:
  obtains (start) "open_since t = None" "any_visible t"
      "recompute at why t = (t\<lparr>open_since := Some at\<rparr>, Started at)"
  | (stop) b where "open_since t = Some b" "\<not> any_visible t"
      "recompute at why t = (t\<lparr>open_since := None\<rparr>,
         Ended \<lparr> rec_start = b, rec_end = at,
                 rec_end_reason = (case why of Some r \<Rightarrow> r | None \<Rightarrow> EndLogoff) \<rparr>)"
  | (same) "open_since t \<noteq> None \<longleftrightarrow> any_visible t" "recompute at why t = (t, NoChange)"
  by (cases "open_since t"; cases "any_visible t") (auto simp: recompute_def)

text \<open>Every event is an update that leaves \<open>open_since\<close> alone, followed by \<open>recompute\<close>.\<close>

fun presence_update :: "session_event \<Rightarrow> usage_tracker \<Rightarrow> usage_tracker" where
  "presence_update (Logon sid) t = connect_session sid t"
| "presence_update (Unlock sid) t = connect_session sid t"
| "presence_update (ConsoleConnect sid) t = connect_session sid t"
| "presence_update (RemoteConnect sid) t = connect_session sid t"
| "presence_update (Lock sid) t = set_visible sid False t"
| "presence_update (ConsoleDisconnect sid) t = set_visible sid False t"
| "presence_update (RemoteDisconnect sid) t = set_visible sid False t"
| "presence_update (Logoff sid) t = t\<lparr>sessions := fmdrop sid (sessions t)\<rparr>"
| "presence_update Suspend t = t\<lparr>suspended := True\<rparr>"
| "presence_update Resume t = t\<lparr>suspended := False\<rparr>"

fun closing_reason :: "session_event \<Rightarrow> end_reason option" where
  "closing_reason (Lock sid) = Some EndLock"
| "closing_reason (ConsoleDisconnect sid) = Some EndConsoleDisconnect"
| "closing_reason (RemoteDisconnect sid) = Some EndRemoteDisconnect"
| "closing_reason (Logoff sid) = Some EndLogoff"
| "closing_reason Suspend = Some EndSuspend"
| "closing_reason _ = None"

lemma apply_event_recompute:
  "apply_event t e at = recompute at (closing_reason e) (presence_update e t)"
  by (cases e) simp_all

lemma presence_update_open_since [simp]: "open_since (presence_update e t) = open_since t"
  by (cases e) (simp_all add: connect_session_def set_visible_def)

interpretation usage: interval_source apply_event open_since
proof unfold_locales
  fix s e at s' b assume "apply_event s e at = (s', Started b)"
  then show "open_since s = None \<and> open_since s' = Some at \<and> b = at"
    by (cases rule: recompute_cases [of "presence_update e s" at "closing_reason e"])
      (auto simp: apply_event_recompute)
next
  fix s e at s' r assume "apply_event s e at = (s', Ended r)"
  then show "open_since s = Some (rec_start r) \<and> open_since s' = None \<and> rec_end r = at"
    by (cases rule: recompute_cases [of "presence_update e s" at "closing_reason e"])
      (auto simp: apply_event_recompute)
next
  fix s e at s' assume "apply_event s e at = (s', NoChange)"
  then show "open_since s' = open_since s"
    by (cases rule: recompute_cases [of "presence_update e s" at "closing_reason e"])
      (auto simp: apply_event_recompute)
qed

section \<open>In use, as a property of the history\<close>

text \<open>
  The device is in use when the latest power event is not a suspend and some session's latest
  event made it visible.
\<close>

fun shows_session :: "session_event \<Rightarrow> bool" where
  "shows_session (Logon sid) = True"
| "shows_session (Unlock sid) = True"
| "shows_session (ConsoleConnect sid) = True"
| "shows_session (RemoteConnect sid) = True"
| "shows_session _ = False"

definition session_visible :: "session_id \<Rightarrow> session_event list \<Rightarrow> bool" where
  "session_visible sid hist =
     (case find (\<lambda>e. event_session_id e = Some sid) (rev hist) of
        Some e \<Rightarrow> shows_session e
      | None \<Rightarrow> False)"

definition device_suspended :: "session_event list \<Rightarrow> bool" where
  "device_suspended hist =
     (find (\<lambda>e. event_session_id e = None) (rev hist) = Some Suspend)"

definition in_use :: "session_event list \<Rightarrow> bool" where
  "in_use hist \<longleftrightarrow>
     \<not> device_suspended hist \<and>
     list_ex (\<lambda>e. case event_session_id e of Some sid \<Rightarrow> session_visible sid hist | None \<Rightarrow> False) hist"

text \<open>Time in use, measured between the events.\<close>

fun active_time :: "session_event list \<Rightarrow> datetime \<Rightarrow> (session_event \<times> datetime) list \<Rightarrow> datetime \<Rightarrow> int" where
  "active_time hist t [] now = (if in_use hist then now - t else 0)"
| "active_time hist t ((e, at) # es) now =
     (if in_use hist then at - t else 0) + active_time (hist @ [e]) at es now"

lemma session_visible_snoc:
  "session_visible sid (hist @ [e]) =
     (if event_session_id e = Some sid then shows_session e else session_visible sid hist)"
  by (simp add: session_visible_def)

lemma device_suspended_snoc:
  "device_suspended (hist @ [e]) = (if event_session_id e = None then e = Suspend else device_suspended hist)"
  by (simp add: device_suspended_def)

lemma in_use_iff: "in_use hist \<longleftrightarrow> \<not> device_suspended hist \<and> (\<exists>sid. session_visible sid hist)"
proof -
  have "\<exists>e \<in> set hist. event_session_id e = Some sid" if "session_visible sid hist" for sid
    using that by (auto simp: session_visible_def find_Some_iff split: option.splits)
      (metis nth_mem set_rev length_rev)
  then show ?thesis
    by (fastforce simp: in_use_def list_ex_iff split: option.splits)
qed

definition presence_visible :: "usage_tracker \<Rightarrow> session_id \<Rightarrow> bool" where
  "presence_visible t sid = (case fmlookup (sessions t) sid of Some p \<Rightarrow> visible p | None \<Rightarrow> False)"

lemma any_visible_iff: "any_visible t \<longleftrightarrow> \<not> suspended t \<and> (\<exists>sid. presence_visible t sid)"
  by (fastforce simp: any_visible_def presence_visible_def fmlookup_ran_iff split: option.splits)

text \<open>The tracker's state agrees with the history it has seen.\<close>

definition tracks :: "session_event list \<Rightarrow> usage_tracker \<Rightarrow> bool" where
  "tracks hist t \<longleftrightarrow>
     (\<forall>sid. presence_visible t sid = session_visible sid hist) \<and>
     suspended t = device_suspended hist \<and>
     (open_since t = None \<longleftrightarrow> \<not> any_visible t)"

lemma tracks_new: "tracks [] tracker_new"
  by (simp add: tracks_def tracker_new_def presence_visible_def session_visible_def
      device_suspended_def any_visible_def)

lemma presence_visible_update:
  "presence_visible (presence_update e t) sid =
     (if event_session_id e = Some sid then shows_session e else presence_visible t sid)"
  by (cases e) (auto simp: presence_visible_def connect_session_def set_visible_def split: option.splits)

lemma suspended_update:
  "suspended (presence_update e t) = (if event_session_id e = None then e = Suspend else suspended t)"
  by (cases e) (auto simp: connect_session_def set_visible_def)

lemma recompute_open_since:
  "open_since (fst (recompute at why t)) = None \<longleftrightarrow> \<not> any_visible t"
  by (cases rule: recompute_cases [of t at why]) auto

lemma recompute_frame [simp]:
  "sessions (fst (recompute at why t)) = sessions t"
  "suspended (fst (recompute at why t)) = suspended t"
  by (cases rule: recompute_cases [of t at why]; simp)+

lemma tracks_step [inv_intros]:
  assumes "tracks hist t"
  shows "tracks (hist @ [e]) (fst (apply_event t e at))"
proof -
  let ?u = "presence_update e t"
  have frame: "presence_visible (fst (recompute at (closing_reason e) ?u)) sid = presence_visible ?u sid"
    "any_visible (fst (recompute at (closing_reason e) ?u)) = any_visible ?u" for sid
    by (simp_all add: presence_visible_def any_visible_def)
  from assms show ?thesis
    by (simp add: tracks_def apply_event_recompute frame recompute_open_since
        presence_visible_update suspended_update session_visible_snoc device_suspended_snoc)
qed

lemma tracks_active: "tracks hist t \<Longrightarrow> open_since t = None \<longleftrightarrow> \<not> in_use hist"
  by (auto simp: tracks_def in_use_iff any_visible_iff)

lemma tracks_run: "tracks hist t \<Longrightarrow> tracks (hist @ map fst es) (final_state apply_event t es)"
proof (induction es arbitrary: hist t)
  case Nil
  then show ?case by simp
next
  case (Cons x es)
  obtain e at where x: "x = (e, at)" by (cases x)
  from Cons.IH [OF tracks_step [OF Cons.prems, of e at]] show ?case by (simp add: x)
qed

lemma open_time_active_time:
  "tracks hist s \<Longrightarrow> usage.open_time s t es now = active_time hist t es now"
proof (induction es arbitrary: hist s t)
  case Nil
  then show ?case by (simp add: tracks_active)
next
  case (Cons x es)
  obtain e at where x: "x = (e, at)" by (cases x)
  from Cons.IH [OF tracks_step [OF Cons.prems, of e at], of at] tracks_active [OF Cons.prems]
  show ?case by (simp add: x)
qed

section \<open>Properties\<close>

text \<open>
  Property C13. After any sequence of notifications a fresh tracker reports the device active
  exactly when the history says it is in use: the latest power event is not a suspend and some
  session's latest event made it visible.
\<close>

theorem tracker_active_iff_in_use:
  "is_active (final_state apply_event tracker_new es) \<longleftrightarrow> in_use (map fst es)"
  using tracks_active [OF tracks_run [OF tracks_new, of es]] by (simp add: is_active_def)

text \<open>
  Property C12. Usage accounting is exact: the lengths of the recorded sessions plus the time the
  open one has run so far add up to the time the device was in use according to the history, for
  every sequence of notifications.
\<close>

theorem tracker_usage_accounting:
  "sum_list (map duration (ended_records (transitions apply_event tracker_new es)))
     + credit (open_since (final_state apply_event tracker_new es)) now
   = active_time [] t es now"
  using usage.accounting [of tracker_new es now t] open_time_active_time [OF tracks_new, of t es now]
  by (simp add: credit_def tracker_new_def)

text \<open>
  When notifications arrive in time order, the recorded sessions do not overlap:
  each starts no earlier than the one before it ended and ends no earlier than it started.
\<close>

theorem tracker_records_disjoint:
  assumes "time_ordered t es"
  shows "interval_chain t (ended_records (transitions apply_event tracker_new es))"
  using usage.records_chain [OF assms, of tracker_new] by (simp add: tracker_new_def)

theorem tracker_records_disjoint_witness:
  "time_ordered 0 [(Logon 1, 0), (Lock 1, 100), (Unlock 1, 500), (Logoff 1, 600)] \<and>
   interval_chain 0 (ended_records (transitions apply_event tracker_new
     [(Logon 1, 0), (Lock 1, 100), (Unlock 1, 500), (Logoff 1, 600)]))"
  using tracker_records_disjoint [of 0 "[(Logon 1, 0), (Lock 1, 100), (Unlock 1, 500), (Logoff 1, 600)]"]
  by simp

text \<open>
  A tracker that has seen its sessions from the start never falls back to the default
  end reason: an event that carries no reason of its own (a logon, an unlock, a connect or a resume)
  never ends a session, and every session ends with the reason of the event that ended it.
\<close>

theorem tracker_end_reason:
  assumes "apply_event (final_state apply_event tracker_new es) e at = (t', Ended r)"
  shows "closing_reason e = Some (rec_end_reason r)"
proof -
  let ?t = "final_state apply_event tracker_new es"
  have tr: "tracks (map fst es) ?t" using tracks_run [OF tracks_new, of es] by simp
  from assms have open_t: "open_since ?t \<noteq> None" and hid: "\<not> any_visible (presence_update e ?t)"
    by (cases rule: recompute_cases [of "presence_update e ?t" at "closing_reason e"];
        simp add: apply_event_recompute)+
  from open_t tr have vis: "any_visible ?t" by (auto simp: tracks_def)
  have "closing_reason e \<noteq> None"
  proof
    assume "closing_reason e = None"
    then have "event_session_id e = Some sid \<Longrightarrow> shows_session e" and "e \<noteq> Suspend" for sid
      by (cases e; simp)+
    with vis have "any_visible (presence_update e ?t)"
      by (auto simp: any_visible_iff presence_visible_update suspended_update)
    with hid show False by simp
  qed
  with assms show ?thesis
    by (cases rule: recompute_cases [of "presence_update e ?t" at "closing_reason e"])
      (auto simp: apply_event_recompute)
qed

theorem tracker_end_reason_witness:
  "apply_event (final_state apply_event tracker_new [(Logon 1, 0)]) (Lock 1) 100
     = (\<lparr>sessions = fmupd 1 \<lparr>visible = False\<rparr> (fmupd 1 \<lparr>visible = True\<rparr> fmempty),
         suspended = False, open_since = None\<rparr>,
        Ended \<lparr>rec_start = 0, rec_end = 100, rec_end_reason = EndLock\<rparr>) \<and>
   closing_reason (Lock 1) = Some EndLock"
proof -
  have "apply_event (final_state apply_event tracker_new [(Logon 1, 0)]) (Lock 1) 100
     = (\<lparr>sessions = fmupd 1 \<lparr>visible = False\<rparr> (fmupd 1 \<lparr>visible = True\<rparr> fmempty),
         suspended = False, open_since = None\<rparr>,
        Ended \<lparr>rec_start = 0, rec_end = 100, rec_end_reason = EndLock\<rparr>)"
    by (simp add: tracker_new_def connect_session_def set_visible_def recompute_def any_visible_iff
        presence_visible_def)
  from this tracker_end_reason [OF this] show ?thesis by simp
qed

end
