(* ===== verification/Codecs.thy ===== *)
theory Codecs
  imports Timelord_Prelude
begin

text \<open>
  Serialisation is done by \<^verbatim>\<open>serde_json\<close> and \<^verbatim>\<open>toml\<close>, which are not part of the repository. A
  \<open>codec\<close> is the pair of functions the code calls for one type, a parameter of every
  operation that stores or sends that type; \<open>codec_ok\<close> is the documented law that reading back
  what was written gives the value. The combinators at the end build concrete codecs, used to
  show that the law can hold for each type of the model.
\<close>

record 'v codec =
  to_text :: "'v \<Rightarrow> string"
  from_text :: "string \<Rightarrow> 'v option"

definition codec_ok :: "('v, 'x) codec_scheme \<Rightarrow> bool" where
  "codec_ok c \<longleftrightarrow> (\<forall>v. from_text c (to_text c v) = Some v)"

lemma codec_roundtrip [codec_simps]: "codec_ok c \<Longrightarrow> from_text c (to_text c v) = Some v"
  by (simp add: codec_ok_def)

section \<open>Concrete codecs\<close>

text \<open>A serialiser writes a value in front of any rest and reads it back, leaving the rest.\<close>

record 'a serial =
  put :: "'a \<Rightarrow> string"
  get :: "string \<Rightarrow> ('a \<times> string) option"

definition serial_ok :: "'a serial \<Rightarrow> bool" where
  "serial_ok s \<longleftrightarrow> (\<forall>a r. get s (put s a @ r) = Some (a, r))"

lemma serial_get [simp]: "serial_ok s \<Longrightarrow> get s (put s a @ r) = Some (a, r)"
  by (simp add: serial_ok_def)

fun get_nat :: "string \<Rightarrow> (nat \<times> string) option" where
  "get_nat [] = None"
| "get_nat (c # cs) =
     (if c = CHR ''0'' then Some (0, cs)
      else (case get_nat cs of None \<Rightarrow> None | Some (n, r) \<Rightarrow> Some (Suc n, r)))"

definition serial_nat :: "nat serial" where
  "serial_nat = \<lparr> put = (\<lambda>n. replicate n (CHR ''1'') @ ''0''), get = get_nat \<rparr>"

lemma serial_nat_ok [simp]: "serial_ok serial_nat"
proof -
  have "get_nat (replicate n (CHR ''1'') @ ''0'' @ r) = Some (n, r)" for n r
    by (induction n) auto
  then show ?thesis by (simp add: serial_ok_def serial_nat_def)
qed

definition serial_iso :: "('a \<Rightarrow> 'b) \<Rightarrow> ('b \<Rightarrow> 'a) \<Rightarrow> 'b serial \<Rightarrow> 'a serial" where
  "serial_iso f g s =
     \<lparr> put = (\<lambda>a. put s (f a)), get = (\<lambda>t. map_option (\<lambda>(b, r). (g b, r)) (get s t)) \<rparr>"

lemma serial_iso_ok: "serial_ok s \<Longrightarrow> (\<And>a. g (f a) = a) \<Longrightarrow> serial_ok (serial_iso f g s)"
  by (simp add: serial_ok_def serial_iso_def)

definition serial_prod :: "'a serial \<Rightarrow> 'b serial \<Rightarrow> ('a \<times> 'b) serial" where
  "serial_prod s t =
     \<lparr> put = (\<lambda>(a, b). put s a @ put t b),
       get = (\<lambda>x. case get s x of None \<Rightarrow> None
                | Some (a, r) \<Rightarrow> (case get t r of None \<Rightarrow> None | Some (b, r') \<Rightarrow> Some ((a, b), r'))) \<rparr>"

lemma serial_prod_ok [simp]: "serial_ok s \<Longrightarrow> serial_ok t \<Longrightarrow> serial_ok (serial_prod s t)"
  by (simp add: serial_ok_def serial_prod_def split_def)

fun get_list :: "(string \<Rightarrow> ('a \<times> string) option) \<Rightarrow> nat \<Rightarrow> string \<Rightarrow> ('a list \<times> string) option" where
  "get_list g 0 t = Some ([], t)"
| "get_list g (Suc n) t =
     (case g t of None \<Rightarrow> None
      | Some (a, r) \<Rightarrow> (case get_list g n r of None \<Rightarrow> None | Some (as, r') \<Rightarrow> Some (a # as, r')))"

definition serial_list :: "'a serial \<Rightarrow> 'a list serial" where
  "serial_list s =
     \<lparr> put = (\<lambda>xs. put serial_nat (length xs) @ concat (map (put s) xs)),
       get = (\<lambda>t. case get serial_nat t of None \<Rightarrow> None | Some (n, r) \<Rightarrow> get_list (get s) n r) \<rparr>"

lemma serial_list_ok [simp]:
  assumes "serial_ok s"
  shows "serial_ok (serial_list s)"
proof -
  have "get_list (get s) (length xs) (concat (map (put s) xs) @ r) = Some (xs, r)" for xs r
    by (induction xs) (simp_all add: assms)
  then show ?thesis by (simp add: serial_ok_def [of "serial_list s"]) (simp add: serial_list_def)
qed

definition serial_int :: "int serial" where
  "serial_int = serial_iso (\<lambda>i. (if 0 \<le> i then 0 else 1, nat \<bar>i\<bar>))
     (\<lambda>(s, n). if s = 0 then int n else - int n) (serial_prod serial_nat serial_nat)"

lemma serial_int_ok [simp]: "serial_ok serial_int"
  unfolding serial_int_def by (rule serial_iso_ok) auto

definition serial_string :: "string serial" where
  "serial_string = serial_list (serial_iso of_char char_of serial_nat)"

lemma serial_string_ok [simp]: "serial_ok serial_string"
  unfolding serial_string_def by (simp add: serial_iso_ok)

definition serial_option :: "'a serial \<Rightarrow> 'a option serial" where
  "serial_option s = serial_iso (\<lambda>x. case x of None \<Rightarrow> [] | Some a \<Rightarrow> [a])
     (\<lambda>xs. case xs of [] \<Rightarrow> None | a # _ \<Rightarrow> Some a) (serial_list s)"

lemma serial_option_ok [simp]: "serial_ok s \<Longrightarrow> serial_ok (serial_option s)"
  unfolding serial_option_def by (rule serial_iso_ok) (auto split: option.splits)

definition serial_word :: "'a::len word serial" where
  "serial_word = serial_iso unat word_of_nat serial_nat"

lemma serial_word_ok [simp]: "serial_ok serial_word"
  unfolding serial_word_def by (rule serial_iso_ok) simp_all

definition codec_of :: "'a serial \<Rightarrow> 'a codec" where
  "codec_of s =
     \<lparr> to_text = put s,
       from_text = (\<lambda>t. case get s t of Some (a, []) \<Rightarrow> Some a | _ \<Rightarrow> None) \<rparr>"

lemma codec_of_ok: "serial_ok s \<Longrightarrow> codec_ok (codec_of s)"
  using serial_get [of s _ "[]"] by (auto simp: codec_ok_def codec_of_def)

text \<open>An enumeration, by position in the list of its values.\<close>

fun position :: "'a \<Rightarrow> 'a list \<Rightarrow> nat" where
  "position x [] = 0"
| "position x (y # ys) = (if x = y then 0 else Suc (position x ys))"

lemma nth_position [simp]: "x \<in> set ys \<Longrightarrow> ys ! position x ys = x"
  by (induction ys) auto

definition serial_enum :: "'a list \<Rightarrow> 'a serial" where
  "serial_enum vs = serial_iso (\<lambda>v. position v vs) (\<lambda>n. vs ! n) serial_nat"

lemma serial_enum_ok: "(\<And>v. v \<in> set vs) \<Longrightarrow> serial_ok (serial_enum vs)"
  unfolding serial_enum_def by (rule serial_iso_ok) simp_all

end
