(* ===== verification/Database.thy ===== *)
theory Database
  imports Codecs
begin

text \<open>
  Opening a SQLite file, as \<^verbatim>\<open>agent/src/queue.rs\<close> and \<^verbatim>\<open>agent/src/store.rs\<close> do it: the file is opened, its journal is configured, and the
  table and its index are created unless they exist. A file holds its table, or nothing yet. Any of the statements can fail, and each takes
  effect alone, so a failed opening may still have created the table. The locale \<open>database_open\<close> is what starting the agent relies on.
\<close>

datatype open_stmt = OpenFile | SetJournalMode | SetSynchronous | CreateTable | CreateIndex

type_synonym open_faults = "open_stmt \<Rightarrow> string option"

text \<open>\<^verbatim>\<open>CREATE TABLE IF NOT EXISTS\<close>\<close>

definition create_table :: "'t \<Rightarrow> 't option \<Rightarrow> 't" where
  "create_table fresh stored = (case stored of Some table \<Rightarrow> table | None \<Rightarrow> fresh)"

lemma create_table_simps [simp]: "create_table fresh (Some t) = t" "create_table fresh None = fresh"
  by (simp_all add: create_table_def)

locale database_open =
  fixes fresh :: 't
    and open_db :: "open_faults \<Rightarrow> 't option \<Rightarrow> 't option \<times> ('e + 't)"
  assumes opening_keeps: "fst (open_db f stored) = stored \<or> fst (open_db f stored) = Some (create_table fresh stored)"
    and opening_returns: "open_db f stored = (stored', Inr t) \<Longrightarrow> stored' = Some t \<and> t = create_table fresh stored"
    and opening_works: "(\<And>s. f s = None) \<Longrightarrow> open_db f stored = (Some (create_table fresh stored), Inr (create_table fresh stored))"
begin

lemma contents_kept [simp]: "fst (open_db f (Some t)) = Some t"
  using opening_keeps [of f "Some t"] by simp

text \<open>However often opening fails, the attempt that succeeds finds what the file held at first.\<close>

lemma retried_opening:
  assumes "open_db f (foldl (\<lambda>stored f. fst (open_db f stored)) stored fs) = (stored', Inr t)"
  shows "t = create_table fresh stored"
proof -
  have "create_table fresh (foldl (\<lambda>stored f. fst (open_db f stored)) stored fs) = create_table fresh stored"
  proof (induction fs arbitrary: stored)
    case (Cons g fs)
    with opening_keeps [of g stored] show ?case by auto
  qed simp
  with opening_returns [OF assms] show ?thesis by simp
qed

end

end
