(* ===== verification/Store.thy ===== *)
theory Store
  imports Tracker Database
begin

text \<open>
  The usage-session store of \<^verbatim>\<open>agent/src/store.rs\<close>: a table of rows with text columns, where a
  session is inserted when it starts and updated when it ends. As for the queue, the text
  renderings, the order in which a query visits rows and the failing statements are the environment.

  \<open>store_rep\<close> relates the table to the sessions it stores; the locale \<open>session_store\<close> is the
  contract the recorder relies on.
\<close>

section \<open>Data\<close>

datatype store_error = StoreSqlite string | StorePanic string

record session_row =
  s_id :: string
  s_start_utc :: string
  s_end_utc :: "string option"
  s_end_reason :: "string option"

datatype store_stmt = InsertSession | UpdateSession | SelectDangling

record store_env = text_env +
  s_scan :: "session_row list \<Rightarrow> session_row list"
  s_fault :: "store_stmt \<Rightarrow> string option"

type_synonym store = "session_row list"
type_synonym store_faults = "store_stmt \<Rightarrow> string option"

definition store_env_ok :: "store_env \<Rightarrow> bool" where
  "store_env_ok E \<longleftrightarrow> text_env_ok E \<and> (\<forall>rs. mset (s_scan E rs) = mset rs)"

definition store_lawful :: "store_env \<Rightarrow> bool" where
  "store_lawful E \<longleftrightarrow> store_env_ok E \<and> (\<forall>s. s_fault E s = None)"

section \<open>Operations\<close>

definition store_init :: store where
  "store_init = []"

definition store_open :: "open_faults \<Rightarrow> store option \<Rightarrow> store option \<times> (store_error + store)" where
  "store_open f stored =
     (case f OpenFile of Some e \<Rightarrow> (stored, Inl (StoreSqlite e)) | None \<Rightarrow>
     (case f SetJournalMode of Some e \<Rightarrow> (stored, Inl (StoreSqlite e)) | None \<Rightarrow>
     (case f SetSynchronous of Some e \<Rightarrow> (stored, Inl (StoreSqlite e)) | None \<Rightarrow>
     (case f CreateTable of Some e \<Rightarrow> (stored, Inl (StoreSqlite e)) | None \<Rightarrow>
        (let st = create_table store_init stored in
         case f CreateIndex of Some e \<Rightarrow> (Some st, Inl (StoreSqlite e)) | None \<Rightarrow> (Some st, Inr st))))))"

interpretation store_file: database_open store_init store_open
  by unfold_locales (auto simp: store_open_def Let_def split: option.splits)

fun reason_to_str :: "end_reason \<Rightarrow> string" where
  "reason_to_str EndLock = ''LOCK''"
| "reason_to_str EndLogoff = ''LOGOFF''"
| "reason_to_str EndSuspend = ''SUSPEND''"
| "reason_to_str EndConsoleDisconnect = ''CONSOLE_DISCONNECT''"
| "reason_to_str EndRemoteDisconnect = ''REMOTE_DISCONNECT''"
| "reason_to_str EndAgentRestart = ''AGENT_RESTART''"
| "reason_to_str EndAgentShutdown = ''AGENT_SHUTDOWN''"

text \<open>An \<^verbatim>\<open>INSERT\<close> fails when the primary key is taken.\<close>

definition insert_session :: "store_env \<Rightarrow> store \<Rightarrow> session_row \<Rightarrow> store \<times> (store_error + unit)" where
  "insert_session E st row =
     (case s_fault E InsertSession of
        Some e \<Rightarrow> (st, Inl (StoreSqlite e))
      | None \<Rightarrow>
          if list_ex (\<lambda>r. s_id r = s_id row) st
          then (st, Inl (StoreSqlite ''UNIQUE constraint failed: usage_session.id''))
          else (st @ [row], Inr ()))"

text \<open>\<open>sid\<close> is the fresh \<^verbatim>\<open>Uuid::new_v4()\<close>.\<close>

definition start_session :: "store_env \<Rightarrow> uuid \<Rightarrow> store \<Rightarrow> datetime \<Rightarrow> store \<times> (store_error + uuid)" where
  "start_session E sid st start =
     (case insert_session E st \<lparr> s_id = uuid_to_string E sid, s_start_utc = to_rfc3339 E start,
          s_end_utc = None, s_end_reason = None \<rparr> of
        (st', Inl e) \<Rightarrow> (st', Inl e)
      | (st', Inr _) \<Rightarrow> (st', Inr sid))"

definition end_session ::
  "store_env \<Rightarrow> store \<Rightarrow> uuid \<Rightarrow> datetime \<Rightarrow> end_reason \<Rightarrow> store \<times> (store_error + unit)" where
  "end_session E st sid end_at reason =
     (case s_fault E UpdateSession of
        Some e \<Rightarrow> (st, Inl (StoreSqlite e))
      | None \<Rightarrow>
          (map (\<lambda>r. if s_id r = uuid_to_string E sid
                 then r\<lparr>s_end_utc := Some (to_rfc3339 E end_at), s_end_reason := Some (reason_to_str reason)\<rparr>
                 else r) st, Inr ()))"

text \<open>\<^verbatim>\<open>WHERE end_utc IS NULL ORDER BY start_utc DESC LIMIT 1\<close>\<close>

definition find_dangling_session :: "store_env \<Rightarrow> store \<Rightarrow> store_error + (uuid \<times> datetime) option" where
  "find_dangling_session E st =
     (case s_fault E SelectDangling of
        Some e \<Rightarrow> Inl (StoreSqlite e)
      | None \<Rightarrow>
          (case rev (sort_key s_start_utc (filter (\<lambda>r. s_end_utc r = None) (s_scan E st))) of
             [] \<Rightarrow> Inr None
           | r # _ \<Rightarrow>
               (case uuid_parse_str E (s_id r) of
                  None \<Rightarrow> Inl (StorePanic ''stored session id is a valid UUID'')
                | Some u \<Rightarrow>
                    (case parse_rfc3339 E (s_start_utc r) of
                       None \<Rightarrow> Inl (StorePanic ''stored timestamp is valid RFC3339'')
                     | Some t \<Rightarrow> Inr (Some (u, t))))))"

definition insert_closed_session ::
  "store_env \<Rightarrow> uuid \<Rightarrow> store \<Rightarrow> usage_session_record \<Rightarrow> store \<times> (store_error + uuid)" where
  "insert_closed_session E sid st rec =
     (case insert_session E st \<lparr> s_id = uuid_to_string E sid, s_start_utc = to_rfc3339 E (rec_start rec),
          s_end_utc = Some (to_rfc3339 E (rec_end rec)), s_end_reason = Some (reason_to_str (rec_end_reason rec)) \<rparr> of
        (st', Inl e) \<Rightarrow> (st', Inl e)
      | (st', Inr _) \<Rightarrow> (st', Inr sid))"

section \<open>What the table stores\<close>

record stored_session =
  ss_id :: uuid
  ss_start :: datetime
  ss_end :: "(datetime \<times> end_reason) option"

definition encode_session :: "store_env \<Rightarrow> stored_session \<Rightarrow> session_row" where
  "encode_session E x =
     \<lparr> s_id = uuid_to_string E (ss_id x), s_start_utc = to_rfc3339 E (ss_start x),
       s_end_utc = map_option (\<lambda>(t, _). to_rfc3339 E t) (ss_end x),
       s_end_reason = map_option (\<lambda>(_, r). reason_to_str r) (ss_end x) \<rparr>"

definition session_ok :: "stored_session \<Rightarrow> bool" where
  "session_ok x \<longleftrightarrow> rfc_range (ss_start x) \<and> (case ss_end x of None \<Rightarrow> True | Some (t, _) \<Rightarrow> rfc_range t)"

definition store_rep :: "store_env \<Rightarrow> stored_session list \<Rightarrow> store \<Rightarrow> bool" where
  "store_rep E ss st \<longleftrightarrow>
     st = map (encode_session E) ss \<and> distinct (map ss_id ss) \<and> list_all session_ok ss"

definition open_session :: "uuid \<Rightarrow> datetime \<Rightarrow> stored_session" where
  "open_session sid start = \<lparr> ss_id = sid, ss_start = start, ss_end = None \<rparr>"

definition closed_session :: "uuid \<Rightarrow> usage_session_record \<Rightarrow> stored_session" where
  "closed_session sid rec =
     \<lparr> ss_id = sid, ss_start = rec_start rec, ss_end = Some (rec_end rec, rec_end_reason rec) \<rparr>"

definition ended_at :: "uuid \<Rightarrow> datetime \<Rightarrow> end_reason \<Rightarrow> stored_session list \<Rightarrow> stored_session list" where
  "ended_at sid t reason ss = map (\<lambda>x. if ss_id x = sid then x\<lparr>ss_end := Some (t, reason)\<rparr> else x) ss"

definition open_sessions :: "stored_session list \<Rightarrow> stored_session list" where
  "open_sessions ss = filter (\<lambda>x. ss_end x = None) ss"

lemma encode_session_sel [simp]:
  "s_id (encode_session E x) = uuid_to_string E (ss_id x)"
  "s_start_utc (encode_session E x) = to_rfc3339 E (ss_start x)"
  "s_end_utc (encode_session E x) = None \<longleftrightarrow> ss_end x = None"
  by (simp_all add: encode_session_def)

lemma reason_to_str_inject: "reason_to_str a = reason_to_str b \<longleftrightarrow> a = b"
  by (cases a; cases b) simp_all

lemma store_rep_init: "store_rep E [] store_init"
  by (simp add: store_rep_def store_init_def)

lemma insert_session_rep:
  assumes "store_lawful E" "store_rep E ss st" "ss_id x \<notin> ss_id ` set ss" "session_ok x"
  shows "insert_session E st (encode_session E x) = (st @ [encode_session E x], Inr ())"
    "store_rep E (ss @ [x]) (st @ [encode_session E x])"
proof -
  have t: "text_env_ok E" using assms(1) by (simp add: store_lawful_def store_env_ok_def)
  have "\<not> list_ex (\<lambda>r. s_id r = s_id (encode_session E x)) st"
    using assms(2,3) by (auto simp: store_rep_def list_ex_iff uuid_to_string_inject [OF t] rev_image_eqI)
  then show "insert_session E st (encode_session E x) = (st @ [encode_session E x], Inr ())"
    using assms(1) by (simp add: insert_session_def store_lawful_def)
  show "store_rep E (ss @ [x]) (st @ [encode_session E x])"
    using assms by (auto simp: store_rep_def)
qed

lemma start_session_rep:
  assumes "store_lawful E" "store_rep E ss st" "sid \<notin> ss_id ` set ss" "rfc_range start"
  shows "\<exists>st'. start_session E sid st start = (st', Inr sid) \<and> store_rep E (ss @ [open_session sid start]) st'"
proof -
  have "encode_session E (open_session sid start) =
      \<lparr> s_id = uuid_to_string E sid, s_start_utc = to_rfc3339 E start, s_end_utc = None, s_end_reason = None \<rparr>"
    by (simp add: encode_session_def open_session_def)
  with insert_session_rep [OF assms(1,2), of "open_session sid start"] assms(3,4) show ?thesis
    by (simp add: start_session_def session_ok_def open_session_def)
qed

lemma insert_closed_session_rep:
  assumes "store_lawful E" "store_rep E ss st" "sid \<notin> ss_id ` set ss"
    "rfc_range (rec_start rec)" "rfc_range (rec_end rec)"
  shows "\<exists>st'. insert_closed_session E sid st rec = (st', Inr sid) \<and> store_rep E (ss @ [closed_session sid rec]) st'"
proof -
  have "encode_session E (closed_session sid rec) =
      \<lparr> s_id = uuid_to_string E sid, s_start_utc = to_rfc3339 E (rec_start rec),
        s_end_utc = Some (to_rfc3339 E (rec_end rec)), s_end_reason = Some (reason_to_str (rec_end_reason rec)) \<rparr>"
    by (simp add: encode_session_def closed_session_def)
  with insert_session_rep [OF assms(1,2), of "closed_session sid rec"] assms(3-) show ?thesis
    by (simp add: insert_closed_session_def session_ok_def closed_session_def)
qed

lemma end_session_rep:
  assumes "store_lawful E" "store_rep E ss st" "rfc_range t"
  shows "\<exists>st'. end_session E st sid t reason = (st', Inr ()) \<and> store_rep E (ended_at sid t reason ss) st'"
proof -
  have x: "text_env_ok E" using assms(1) by (simp add: store_lawful_def store_env_ok_def)
  have "map (\<lambda>r. if s_id r = uuid_to_string E sid
        then r\<lparr>s_end_utc := Some (to_rfc3339 E t), s_end_reason := Some (reason_to_str reason)\<rparr> else r) st
      = map (encode_session E) (ended_at sid t reason ss)"
    using assms(2) by (auto simp: store_rep_def ended_at_def uuid_to_string_inject [OF x] encode_session_def)
  moreover have "map ss_id (ended_at sid t reason ss) = map ss_id ss" by (simp add: ended_at_def)
  moreover have "list_all session_ok (ended_at sid t reason ss)"
    using assms(2,3) by (auto simp: store_rep_def list_all_iff session_ok_def ended_at_def)
  ultimately show ?thesis
    using assms(1,2) by (simp add: end_session_def store_lawful_def store_rep_def)
qed

lemma find_dangling_session_rep:
  assumes "store_lawful E" "store_rep E ss st"
  shows "if open_sessions ss = [] then find_dangling_session E st = Inr None
    else \<exists>x \<in> set (open_sessions ss). find_dangling_session E st = Inr (Some (ss_id x, ss_start x)) \<and>
      (\<forall>y \<in> set (open_sessions ss). ss_start y \<le> ss_start x)"
proof -
  have t: "text_env_ok E" and sc: "mset (s_scan E (map (encode_session E) ss)) = mset (map (encode_session E) ss)"
    and f: "s_fault E SelectDangling = None"
    using assms(1) by (simp_all add: store_lawful_def store_env_ok_def)
  from mset_map_perm [OF sc] obtain ss' where perm: "mset ss' = mset ss"
    and scan: "s_scan E (map (encode_session E) ss) = map (encode_session E) ss'" by blast
  have ok: "session_ok x" if "x \<in> set ss'" for x
    using that assms(2) set_scan [OF perm] by (auto simp: store_rep_def list_all_iff)
  define os where "os = sort_key ss_start (open_sessions ss')"
  have os: "set os = set (open_sessions ss)"
    using set_scan [OF perm] by (simp add: os_def open_sessions_def)
  have "sort_key (\<lambda>x. to_rfc3339 E (ss_start x)) (open_sessions ss') = os"
    unfolding os_def
    by (rule sort_key_cong_order) (auto simp: open_sessions_def rfc3339_le [OF t] dest!: ok simp: session_ok_def)
  then have rows: "sort_key s_start_utc (filter (\<lambda>r. s_end_utc r = None) (s_scan E st)) = map (encode_session E) os"
    using assms(2) by (simp add: store_rep_def scan filter_map_eq sort_key_map open_sessions_def)
  show ?thesis
  proof (cases os rule: rev_cases)
    case Nil
    then have "open_sessions ss = []" using os by simp
    then show ?thesis using f rows Nil by (simp add: find_dangling_session_def)
  next
    case (snoc ys x)
    have x: "x \<in> set (open_sessions ss)" using os snoc by auto
    then have "rfc_range (ss_start x)"
      using assms(2) by (auto simp: open_sessions_def store_rep_def list_all_iff session_ok_def)
    then have "find_dangling_session E st = Inr (Some (ss_id x, ss_start x))"
      using f rows snoc by (simp add: find_dangling_session_def uuid_roundtrip [OF t] rfc3339_roundtrip [OF t])
    moreover have "sorted (map ss_start (ys @ [x]))"
      using sorted_sort_key [of ss_start "open_sessions ss'"] snoc unfolding os_def by metis
    then have "\<forall>y \<in> set os. ss_start y \<le> ss_start x" using snoc by (auto simp: sorted_append)
    ultimately show ?thesis using x os by auto
  qed
qed

section \<open>The contract of the store\<close>

locale session_store =
  fixes lawful :: "'env \<Rightarrow> bool"
    and good_time :: "datetime \<Rightarrow> bool"
    and holds :: "'env \<Rightarrow> stored_session list \<Rightarrow> 'st \<Rightarrow> bool"
    and start :: "'env \<Rightarrow> uuid \<Rightarrow> 'st \<Rightarrow> datetime \<Rightarrow> 'st \<times> ('e + uuid)"
    and finish :: "'env \<Rightarrow> 'st \<Rightarrow> uuid \<Rightarrow> datetime \<Rightarrow> end_reason \<Rightarrow> 'st \<times> ('e + unit)"
    and dangling :: "'env \<Rightarrow> 'st \<Rightarrow> 'e + (uuid \<times> datetime) option"
    and insert_closed :: "'env \<Rightarrow> uuid \<Rightarrow> 'st \<Rightarrow> usage_session_record \<Rightarrow> 'st \<times> ('e + uuid)"
  assumes start_holds: "lawful E \<Longrightarrow> holds E ss st \<Longrightarrow> sid \<notin> ss_id ` set ss \<Longrightarrow> good_time t \<Longrightarrow>
      \<exists>st'. start E sid st t = (st', Inr sid) \<and> holds E (ss @ [open_session sid t]) st'"
    and finish_holds: "lawful E \<Longrightarrow> holds E ss st \<Longrightarrow> good_time t \<Longrightarrow>
      \<exists>st'. finish E st sid t reason = (st', Inr ()) \<and> holds E (ended_at sid t reason ss) st'"
    and insert_closed_holds: "lawful E \<Longrightarrow> holds E ss st \<Longrightarrow> sid \<notin> ss_id ` set ss \<Longrightarrow>
      good_time (rec_start rec) \<Longrightarrow> good_time (rec_end rec) \<Longrightarrow>
      \<exists>st'. insert_closed E sid st rec = (st', Inr sid) \<and> holds E (ss @ [closed_session sid rec]) st'"
    and dangling_holds: "lawful E \<Longrightarrow> holds E ss st \<Longrightarrow>
      if open_sessions ss = [] then dangling E st = Inr None
      else \<exists>x \<in> set (open_sessions ss). dangling E st = Inr (Some (ss_id x, ss_start x)) \<and>
        (\<forall>y \<in> set (open_sessions ss). ss_start y \<le> ss_start x)"
    and holds_distinct: "holds E ss st \<Longrightarrow> distinct (map ss_id ss)"
begin

text \<open>A table whose last row is its only open one.\<close>

lemma dangling_last:
  assumes "lawful E" "holds E (ss @ [open_session sid t]) st" "open_sessions ss = []"
  shows "dangling E st = Inr (Some (sid, t))"
proof -
  have "open_sessions (ss @ [open_session sid t]) = [open_session sid t]"
    using assms(3) by (simp add: open_sessions_def open_session_def)
  with dangling_holds [OF assms(1,2)] show ?thesis by (simp add: open_session_def)
qed

lemma dangling_none:
  assumes "lawful E" "holds E ss st" "open_sessions ss = []"
  shows "dangling E st = Inr None"
  using dangling_holds [OF assms(1,2)] assms(3) by simp

lemma finish_last:
  assumes "lawful E" "holds E (ss @ [open_session sid t]) st" "good_time u"
  shows "\<exists>st'. finish E st sid u reason = (st', Inr ()) \<and>
     holds E (ss @ [closed_session sid \<lparr> rec_start = t, rec_end = u, rec_end_reason = reason \<rparr>]) st'"
proof -
  have "sid \<notin> ss_id ` set ss" using holds_distinct [OF assms(2)] by (simp add: open_session_def)
  then have "ended_at sid u reason (ss @ [open_session sid t])
      = ss @ [closed_session sid \<lparr> rec_start = t, rec_end = u, rec_end_reason = reason \<rparr>]"
    by (auto simp: ended_at_def open_session_def closed_session_def intro!: map_idI)
  with finish_holds [OF assms] show ?thesis by metis
qed

end

interpretation sqlite_store: session_store store_lawful rfc_range store_rep start_session end_session
  find_dangling_session insert_closed_session
proof unfold_locales
  fix E ss st
  assume "store_rep E ss st"
  then show "distinct (map ss_id ss)" by (simp add: store_rep_def)
qed (fact start_session_rep end_session_rep insert_closed_session_rep find_dangling_session_rep)+

section \<open>A concrete environment\<close>

definition sample_store_env :: store_env where
  "sample_store_env =
     \<lparr> uuid_to_string = uuid_to_string sample_text_env, uuid_parse_str = uuid_parse_str sample_text_env,
       to_rfc3339 = to_rfc3339 sample_text_env, parse_rfc3339 = parse_rfc3339 sample_text_env,
       s_scan = (\<lambda>rs. rs), s_fault = (\<lambda>_. None) \<rparr>"

lemma sample_store_lawful: "store_lawful sample_store_env"
  using sample_text_env_ok
  by (simp add: store_lawful_def store_env_ok_def text_env_ok_def sample_store_env_def)

end
