(* ===== verification/Filesystem.thy ===== *)
theory Filesystem
  imports Codecs
begin

text \<open>
  The part of \<^verbatim>\<open>std::fs\<close> and \<^verbatim>\<open>std::path\<close> the agent and the notifier use. A path is its
  list of components; a file system maps paths to contents and says, as an environment the code
  does not control, which operations fail. \<open>write_via_temp\<close> is the "temp file + rename" idiom
  of \<^verbatim>\<open>schedule.rs\<close>, \<^verbatim>\<open>messages.rs\<close> and \<^verbatim>\<open>state.rs\<close>, and
  \<open>write_via_temp_states\<close> lists every state a crash in the middle of it can leave behind.
  The locale \<open>cached_file\<close> states what those modules promise about their cache file.
\<close>

section \<open>Paths\<close>

type_synonym path = "string list"

definition with_file_name :: "path \<Rightarrow> string \<Rightarrow> path" where
  "with_file_name p name = butlast p @ [name]"

text \<open>The file name up to its last dot, unless that dot is its first character.\<close>

definition file_stem :: "string \<Rightarrow> string" where
  "file_stem name =
     (let r = dropWhile (\<lambda>c. c \<noteq> CHR ''.'') (rev name)
      in if r = [] \<or> tl r = [] then name else rev (tl r))"

definition with_extension :: "path \<Rightarrow> string \<Rightarrow> path" where
  "with_extension p ext =
     (if p = [] then [] else butlast p @ [file_stem (last p) @ ''.'' @ ext])"

section \<open>Files\<close>

datatype io_error = NotFound | IoOther string

datatype write_outcome =
    WriteOk
  | WriteFailed string "nat option"  \<comment> \<open>\<open>Some n\<close>: the file was opened and \<open>n\<close> bytes reached it\<close>

record filesystem =
  files :: "path \<Rightarrow> string option"
  read_fault :: "path \<Rightarrow> string option"
  write_result :: "path \<Rightarrow> write_outcome"
  rename_fault :: "path \<Rightarrow> string option"
  remove_fault :: "path \<Rightarrow> string option"
  mkdir_fault :: "path \<Rightarrow> string option"

definition read_to_string :: "filesystem \<Rightarrow> path \<Rightarrow> io_error + string" where
  "read_to_string fs p =
     (case read_fault fs p of
        Some e \<Rightarrow> Inl (IoOther e)
      | None \<Rightarrow> (case files fs p of None \<Rightarrow> Inl NotFound | Some t \<Rightarrow> Inr t))"

definition fs_write :: "filesystem \<Rightarrow> path \<Rightarrow> string \<Rightarrow> filesystem \<times> (io_error + unit)" where
  "fs_write fs p bytes =
     (case write_result fs p of
        WriteOk \<Rightarrow> (fs\<lparr>files := (files fs)(p := Some bytes)\<rparr>, Inr ())
      | WriteFailed e None \<Rightarrow> (fs, Inl (IoOther e))
      | WriteFailed e (Some n) \<Rightarrow> (fs\<lparr>files := (files fs)(p := Some (take n bytes))\<rparr>, Inl (IoOther e)))"

definition fs_rename :: "filesystem \<Rightarrow> path \<Rightarrow> path \<Rightarrow> filesystem \<times> (io_error + unit)" where
  "fs_rename fs p q =
     (case rename_fault fs p of
        Some e \<Rightarrow> (fs, Inl (IoOther e))
      | None \<Rightarrow> (case files fs p of
           None \<Rightarrow> (fs, Inl NotFound)
         | Some t \<Rightarrow> (fs\<lparr>files := (files fs)(q := Some t, p := None)\<rparr>, Inr ())))"

definition fs_remove_file :: "filesystem \<Rightarrow> path \<Rightarrow> filesystem \<times> (io_error + unit)" where
  "fs_remove_file fs p =
     (case remove_fault fs p of
        Some e \<Rightarrow> (fs, Inl (IoOther e))
      | None \<Rightarrow> (case files fs p of
           None \<Rightarrow> (fs, Inl NotFound)
         | Some t \<Rightarrow> (fs\<lparr>files := (files fs)(p := None)\<rparr>, Inr ())))"

section \<open>Replacing a file through a temporary one\<close>

definition write_via_temp :: "filesystem \<Rightarrow> path \<Rightarrow> string \<Rightarrow> filesystem \<times> (io_error + unit)" where
  "write_via_temp fs p bytes =
     (let tmp = with_extension p ''json.tmp'' in
      case fs_write fs tmp bytes of
        (fs', Inl e) \<Rightarrow> (fs', Inl e)
      | (fs', Inr _) \<Rightarrow> fs_rename fs' tmp p)"

text \<open>
  Where a crash can leave the disk: before the call, with any prefix of the bytes in the
  temporary file, or after the rename. The rename itself is atomic.
\<close>

definition write_via_temp_states :: "filesystem \<Rightarrow> path \<Rightarrow> string \<Rightarrow> filesystem list" where
  "write_via_temp_states fs p bytes =
     (let tmp = with_extension p ''json.tmp''
      in fs # map (\<lambda>n. fs\<lparr>files := (files fs)(tmp := Some (take n bytes))\<rparr>) [0..<Suc (length bytes)]
           @ [fst (write_via_temp fs p bytes)])"

definition json_file :: "path \<Rightarrow> bool" where
  "json_file p \<longleftrightarrow> p \<noteq> [] \<and> (\<exists>stem. stem \<noteq> [] \<and> last p = stem @ ''.json'')"

lemma file_stem_json: "stem \<noteq> [] \<Longrightarrow> file_stem (stem @ ''.json'') = stem"
  by (simp add: file_stem_def)

lemma temp_path_json:
  assumes "json_file p"
  shows "with_extension p ''json.tmp'' = butlast p @ [last p @ ''.tmp'']"
  using assms by (auto simp: json_file_def with_extension_def file_stem_json)

lemma temp_path_differs: "json_file p \<Longrightarrow> with_extension p ''json.tmp'' \<noteq> p"
  by (metis append_butlast_last_id append_self_conv json_file_def last_snoc
      list.distinct(1) temp_path_json)

lemma read_other_file:
  "q \<noteq> p \<Longrightarrow> read_to_string (fs\<lparr>files := (files fs)(q := c)\<rparr>) p = read_to_string fs p"
  by (simp add: read_to_string_def split: option.split)

lemma write_via_temp_read:
  assumes "json_file p"
  shows "case write_via_temp fs p bytes of
      (fs', Inl e) \<Rightarrow> read_to_string fs' p = read_to_string fs p
    | (fs', Inr _) \<Rightarrow> read_fault fs p = None \<longrightarrow> read_to_string fs' p = Inr bytes"
  using temp_path_differs [OF assms]
  by (auto simp: write_via_temp_def Let_def fs_write_def fs_rename_def read_to_string_def
      split: write_outcome.splits option.splits)

lemma write_via_temp_state_read:
  assumes "json_file p" "fs' \<in> set (write_via_temp_states fs p bytes)"
  shows "read_to_string fs' p = read_to_string fs p \<or> read_to_string fs' p = Inr bytes"
proof -
  consider "fs' = fs" | n where "fs' = fs\<lparr>files := (files fs)(with_extension p ''json.tmp'' := Some (take n bytes))\<rparr>"
    | "fs' = fst (write_via_temp fs p bytes)"
    using assms(2) by (auto simp: write_via_temp_states_def Let_def simp del: upt_Suc)
  then show ?thesis
  proof cases
    case 1
    then show ?thesis by simp
  next
    case 2
    then show ?thesis by (simp add: read_other_file [OF temp_path_differs [OF assms(1)]])
  next
    case 3
    obtain fs2 r where w: "write_via_temp fs p bytes = (fs2, r)" by fastforce
    have "read_fault fs2 p = read_fault fs p"
      using w by (auto simp: write_via_temp_def Let_def fs_write_def fs_rename_def
          split: write_outcome.splits option.splits prod.splits sum.splits)
    then show ?thesis
      using write_via_temp_read [OF assms(1), of fs bytes] w 3
      by (cases r; cases "read_fault fs p") (auto simp: read_to_string_def)
  qed
qed

section \<open>Cache files\<close>

text \<open>
  A module that caches a value in a file: it writes an encoding through a temporary file, and
  what it loads depends only on what reading the file gives. Then a successful save is loaded back,
  a failed save changes nothing, and no crash during a save loses both the old and the new value.
\<close>

locale cached_file =
  fixes lawful :: "'env \<Rightarrow> bool"
    and encode :: "'env \<Rightarrow> 'v \<Rightarrow> string"
    and decoded :: "'v \<Rightarrow> 'r"
    and save :: "'env \<Rightarrow> filesystem \<Rightarrow> path \<Rightarrow> 'v \<Rightarrow> filesystem \<times> (io_error + unit)"
    and load :: "'env \<Rightarrow> filesystem \<Rightarrow> path \<Rightarrow> 'r"
  assumes save_via_temp: "save E fs p v = write_via_temp fs p (encode E v)"
    and load_read: "read_to_string fs p = read_to_string fs' p \<Longrightarrow> load E fs p = load E fs' p"
    and load_encoded: "lawful E \<Longrightarrow> read_to_string fs p = Inr (encode E v) \<Longrightarrow> load E fs p = decoded v"
begin

lemma save_then_load:
  assumes "lawful E" "json_file p" "save E fs p v = (fs', Inr u)" "read_fault fs p = None"
  shows "load E fs' p = decoded v"
  using write_via_temp_read [OF assms(2), of fs "encode E v"] assms
  by (auto simp: save_via_temp intro: load_encoded)

lemma failed_save_keeps:
  assumes "json_file p" "save E fs p v = (fs', Inl e)"
  shows "load E fs' p = load E fs p"
  using write_via_temp_read [OF assms(1), of fs "encode E v"] assms
  by (auto simp: save_via_temp intro: load_read)

lemma crash_keeps_old_or_new:
  assumes "lawful E" "json_file p" "fs' \<in> set (write_via_temp_states fs p (encode E v))"
  shows "load E fs' p = load E fs p \<or> load E fs' p = decoded v"
  using write_via_temp_state_read [OF assms(2,3)] assms(1) load_read load_encoded by metis

end

section \<open>An empty file system\<close>

definition empty_fs :: filesystem where
  "empty_fs = \<lparr> files = (\<lambda>_. None), read_fault = (\<lambda>_. None), write_result = (\<lambda>_. WriteOk),
     rename_fault = (\<lambda>_. None), remove_fault = (\<lambda>_. None), mkdir_fault = (\<lambda>_. None) \<rparr>"

lemma write_via_temp_empty_fs:
  "snd (write_via_temp empty_fs p bytes) = Inr ()"
  by (simp add: write_via_temp_def fs_write_def fs_rename_def empty_fs_def Let_def)

end
