(* ===== verification/Schedule.thy ===== *)
theory Schedule
  imports Filesystem
begin

text \<open>
  \<^verbatim>\<open>agent/src/schedule.rs\<close>: the off windows the controller resolves, the questions the
  enforcement loop asks of them, the gate that decides whether the cached schedule may be
  enforced, and the cache file. The schedule's JSON encoding is a parameter (a \<open>codec\<close>).
\<close>

section \<open>Data\<close>

datatype power_action = Sleep | Shutdown

definition event_name :: "power_action \<Rightarrow> string" where
  "event_name a = (case a of Sleep \<Rightarrow> ''SUSPEND'' | Shutdown \<Rightarrow> ''SHUTDOWN'')"

record off_window =
  off_at :: datetime
  on_at :: datetime

record schedule =
  revision :: string
  action :: power_action
  timezone :: string
  windows :: "off_window list"

section \<open>Operations\<close>

definition in_window :: "datetime \<Rightarrow> off_window \<Rightarrow> bool" where
  "in_window now w \<longleftrightarrow> off_at w \<le> now \<and> now < on_at w"

definition active_window :: "schedule \<Rightarrow> datetime \<Rightarrow> off_window option" where
  "active_window s now = find (in_window now) (windows s)"

definition next_off_at :: "schedule \<Rightarrow> datetime \<Rightarrow> datetime option" where
  "next_off_at s now = iter_min (filter (\<lambda>t. t > now) (map off_at (windows s)))"

definition enforcement_ready :: "bool \<Rightarrow> nanos \<Rightarrow> nanos \<Rightarrow> bool" where
  "enforcement_ready synced unsynced_for grace \<longleftrightarrow> synced \<or> unsynced_for \<ge> grace"

definition load_schedule :: "schedule codec \<Rightarrow> filesystem \<Rightarrow> path \<Rightarrow> schedule option" where
  "load_schedule C fs p =
     (case read_to_string fs p of
        Inl _ \<Rightarrow> None
      | Inr text \<Rightarrow> from_text C text)"

definition save_schedule ::
  "schedule codec \<Rightarrow> filesystem \<Rightarrow> path \<Rightarrow> schedule option \<Rightarrow> filesystem \<times> (io_error + unit)" where
  "save_schedule C fs p sched =
     (case sched of
        None \<Rightarrow>
          (case fs_remove_file fs p of
             (fs', Inl e) \<Rightarrow> (fs', if e \<noteq> NotFound then Inl e else Inr ())
           | (fs', Inr _) \<Rightarrow> (fs', Inr ()))
      | Some s \<Rightarrow> write_via_temp fs p (to_text C s))"

section \<open>Lemmas\<close>

lemma active_window_None:
  "active_window s now = None \<longleftrightarrow> (\<forall>w \<in> set (windows s). \<not> in_window now w)"
  by (auto simp: active_window_def find_None_iff)

lemma active_window_Some:
  "active_window s now = Some w \<Longrightarrow> w \<in> set (windows s) \<and> in_window now w"
  by (auto simp: active_window_def find_Some_iff)

lemma next_off_at_Some:
  "next_off_at s now = Some t \<Longrightarrow> now < t \<and> t \<in> off_at ` set (windows s)"
  unfolding next_off_at_def by (drule iter_min_Some) auto

lemma next_off_at_least:
  "w \<in> set (windows s) \<Longrightarrow> now < off_at w \<Longrightarrow> \<exists>t. next_off_at s now = Some t \<and> t \<le> off_at w"
proof -
  assume w: "w \<in> set (windows s)" "now < off_at w"
  let ?ts = "filter (\<lambda>t. t > now) (map off_at (windows s))"
  from w have mem: "off_at w \<in> set ?ts" by auto
  then have "?ts \<noteq> []" by (metis empty_iff list.set(1))
  then obtain t where t: "iter_min ?ts = Some t"
    using iter_min_None [of ?ts] by blast
  from iter_min_Some [OF t] mem t show ?thesis by (auto simp: next_off_at_def)
qed

interpretation schedule_cache: cached_file codec_ok to_text Some
  "\<lambda>C fs p s. save_schedule C fs p (Some s)" load_schedule
  by unfold_locales (auto simp: save_schedule_def load_schedule_def codec_simps)

subsection \<open>A concrete codec\<close>

definition serial_window :: "off_window serial" where
  "serial_window = serial_iso (\<lambda>w. (off_at w, on_at w)) (\<lambda>(a, b). \<lparr>off_at = a, on_at = b\<rparr>)
     (serial_prod serial_int serial_int)"

definition serial_schedule :: "schedule serial" where
  "serial_schedule = serial_iso
     (\<lambda>s. (revision s, action s, timezone s, windows s))
     (\<lambda>(r, a, z, ws). \<lparr>revision = r, action = a, timezone = z, windows = ws\<rparr>)
     (serial_prod serial_string (serial_prod (serial_enum [Sleep, Shutdown])
       (serial_prod serial_string (serial_list serial_window))))"

definition sample_schedule_codec :: "schedule codec" where
  "sample_schedule_codec = codec_of serial_schedule"

lemma serial_power_action_ok [simp]: "serial_ok (serial_enum [Sleep, Shutdown])"
  by (rule serial_enum_ok) (metis list.set_intros power_action.exhaust)

lemma serial_schedule_ok [simp]: "serial_ok serial_schedule"
  unfolding serial_schedule_def
  by (rule serial_iso_ok) (auto simp: serial_window_def intro!: serial_prod_ok serial_list_ok serial_iso_ok)

lemma sample_schedule_codec_ok: "codec_ok sample_schedule_codec"
  by (simp add: sample_schedule_codec_def codec_of_ok)

section \<open>Properties\<close>

text \<open>
  Property C23. Between a moment outside every off window and the next window start that
  \<open>next_off_at\<close> reports, the device is never inside an off window; and at that reported start it is,
  provided the window that starts there is not empty. So sleeping until \<open>next_off_at\<close> neither
  misses a window nor wakes for nothing.
\<close>

theorem next_off_at_is_next_change:
  assumes "active_window s now = None"
  shows "case next_off_at s now of
      None \<Rightarrow> \<forall>t \<ge> now. active_window s t = None
    | Some u \<Rightarrow> now < u \<and> (\<forall>t. now \<le> t \<and> t < u \<longrightarrow> active_window s t = None) \<and>
        ((\<forall>w \<in> set (windows s). off_at w < on_at w) \<longrightarrow> active_window s u \<noteq> None)"
proof -
  have later: "\<exists>u. next_off_at s now = Some u \<and> u \<le> t"
    if "now \<le> t" "active_window s t \<noteq> None" for t
  proof -
    from that obtain w where w: "w \<in> set (windows s)" "in_window t w"
      by (auto simp: active_window_None)
    with assms that have "now < off_at w"
      by (fastforce simp: active_window_None in_window_def)
    from next_off_at_least [OF w(1) this] w(2) show ?thesis
      by (auto simp: in_window_def)
  qed
  show ?thesis
  proof (cases "next_off_at s now")
    case None
    with later show ?thesis by fastforce
  next
    case (Some u)
    then have "now < u" and "\<exists>w \<in> set (windows s). u = off_at w"
      using next_off_at_Some [OF Some] by auto
    moreover have "active_window s t = None" if "now \<le> t" "t < u" for t
      using later [OF that(1)] Some that(2) by (cases "active_window s t") auto
    ultimately show ?thesis
      by (auto simp: Some active_window_None in_window_def)
  qed
qed

theorem next_off_at_is_next_change_witness:
  "let s = \<lparr>revision = ''r1'', action = Sleep, timezone = ''UTC'', windows = [\<lparr>off_at = 10, on_at = 20\<rparr>]\<rparr>
   in active_window s 5 = None \<and> next_off_at s 5 = Some 10 \<and>
      (\<forall>t. 5 \<le> t \<and> t < 10 \<longrightarrow> active_window s t = None) \<and> active_window s 10 \<noteq> None"
  using next_off_at_is_next_change [of
      "\<lparr>revision = ''r1'', action = Sleep, timezone = ''UTC'', windows = [\<lparr>off_at = 10, on_at = 20\<rparr>]\<rparr>" 5]
  by (simp add: active_window_def in_window_def next_off_at_def)

text \<open>
  Saving the cached schedule and loading it again gives back what was saved, whether
  a schedule or the absence of one, as long as the save reported success and the file can be read.
\<close>

theorem schedule_save_load:
  assumes "codec_ok C" "json_file p" "read_fault fs p = None" "snd (save_schedule C fs p sched) = Inr ()"
  shows "load_schedule C (fst (save_schedule C fs p sched)) p = sched"
proof (cases sched)
  case None
  with assms(3,4) show ?thesis
    by (auto simp: save_schedule_def load_schedule_def fs_remove_file_def read_to_string_def
        split: option.splits if_splits)
next
  case (Some s)
  obtain fs' u where "save_schedule C fs p (Some s) = (fs', Inr u)"
    using assms(4) Some by (cases "save_schedule C fs p (Some s)") auto
  with schedule_cache.save_then_load [OF assms(1,2) this assms(3)] Some show ?thesis by simp
qed

theorem schedule_save_load_witness:
  "let s = \<lparr>revision = ''r1'', action = Sleep, timezone = ''UTC'', windows = []\<rparr>;
       p = [''schedule.json'']
   in load_schedule sample_schedule_codec
        (fst (save_schedule sample_schedule_codec empty_fs p (Some s))) p = Some s"
proof -
  let ?s = "\<lparr>revision = ''r1'', action = Sleep, timezone = ''UTC'', windows = []\<rparr>"
  have "json_file [''schedule.json'']" by (auto simp: json_file_def intro: exI [of _ "''schedule''"])
  moreover have "snd (save_schedule sample_schedule_codec empty_fs [''schedule.json''] (Some ?s)) = Inr ()"
    by (simp add: save_schedule_def write_via_temp_empty_fs)
  ultimately show ?thesis
    using schedule_save_load [OF sample_schedule_codec_ok, of "[''schedule.json'']" empty_fs "Some ?s"]
    by (simp add: empty_fs_def)
qed

text \<open>
  A crash at any point while a schedule is being saved leaves a cache that loads as
  the schedule cached before or as the new one (the states listed end with the one a completed save leaves); a truncated file is never what the next start reads.
\<close>

theorem schedule_crash_safe:
  assumes "codec_ok C" "json_file p" "fs' \<in> set (write_via_temp_states fs p (to_text C s))"
  shows "(load_schedule C fs' p = load_schedule C fs p \<or> load_schedule C fs' p = Some s) \<and>
     last (write_via_temp_states fs p (to_text C s)) = fst (save_schedule C fs p (Some s))"
  using schedule_cache.crash_keeps_old_or_new [OF assms]
  by (simp add: write_via_temp_states_def Let_def save_schedule_def)

theorem schedule_crash_safe_witness:
  "let s = \<lparr>revision = ''r1'', action = Sleep, timezone = ''UTC'', windows = []\<rparr>;
       p = [''schedule.json''];
       torn = empty_fs\<lparr>files := (files empty_fs)([''schedule.json.tmp''] := Some [])\<rparr>
   in torn \<in> set (write_via_temp_states empty_fs p (to_text sample_schedule_codec s)) \<and>
      (load_schedule sample_schedule_codec torn p = load_schedule sample_schedule_codec empty_fs p \<or>
       load_schedule sample_schedule_codec torn p = Some s)"
proof -
  let ?s = "\<lparr>revision = ''r1'', action = Sleep, timezone = ''UTC'', windows = []\<rparr>"
  let ?torn = "empty_fs\<lparr>files := (files empty_fs)([''schedule.json.tmp''] := Some [])\<rparr>"
  have j: "json_file [''schedule.json'']" by (auto simp: json_file_def intro: exI [of _ "''schedule''"])
  have "?torn \<in> set (write_via_temp_states empty_fs [''schedule.json''] (to_text sample_schedule_codec ?s))"
    by (auto simp: write_via_temp_states_def temp_path_json [OF j] image_iff simp del: upt_Suc
        intro!: bexI [of _ 0])
  with schedule_crash_safe [OF sample_schedule_codec_ok j this] show ?thesis by simp
qed

end
