(* ===== verification/Protocol.thy ===== *)
theory Protocol
  imports Schedule "HOL-Library.Finite_Map"
begin

text \<open>
  The wire types of \<^verbatim>\<open>agent/src/protocol.rs\<close> and the event constructors of
  \<^verbatim>\<open>agent/src/events.rs\<close>. An event's payload is a finite map from names to JSON values, of
  which the agent builds numbers and strings only. A constructor that calls \<^verbatim>\<open>Uuid::new_v4()\<close> or
  \<^verbatim>\<open>Utc::now()\<close> takes the new identifier and the clock reading as arguments.
\<close>

section \<open>Wire types\<close>

datatype event_type =
    AgentStarted
  | AgentStopping
  | AgentError
  | ControllerDiscoveryStarted
  | ControllerDiscovered
  | ControllerDiscoveryFailed
  | ControllerConnected
  | ControllerDisconnected
  | RegistrationSucceeded
  | RegistrationFailed
  | HeartbeatSent
  | UserLogon
  | UserLogoff
  | UserLock
  | UserUnlock
  | Active
  | Inactive
  | SessionConnected
  | SessionDisconnected
  | SystemBoot
  | SystemShutdown
  | SystemSuspend
  | SystemResume
  | SystemTimeChanged
  | TimeZoneChanged
  | IdleStarted
  | IdleEnded
  | SupervisoryWarning
  | PolicyViolation
  | PowerActionRequested
  | PowerActionCompleted
  | PowerActionFailed

datatype event_severity = Info | Warning | Error | Critical

datatype event_source = SourceAgent | SourceController

datatype json_value = JNumber int | JString string

type_synonym payload = "(string, json_value) fmap"

record network_interface_info =
  ni_name :: string
  ni_mac_address :: "string option"
  ni_addresses :: "string list"

record register_request =
  rq_device_id :: uuid
  rq_device_name :: string
  rq_hostname :: string
  rq_agent_version :: string
  rq_operating_system :: string
  rq_operating_system_version :: string
  rq_architecture :: string
  rq_local_ip_addresses :: "string list"
  rq_network_interfaces :: "network_interface_info list"

record register_response =
  rr_device_id :: uuid
  rr_controller_id :: uuid
  rr_registered_at :: datetime
  rr_heartbeat_interval_seconds :: u32
  rr_accepted :: bool
  rr_schedule :: "schedule option"

record heartbeat_request =
  hq_event_id :: uuid
  hq_occurred_at :: datetime
  hq_agent_version :: string
  hq_uptime_seconds :: nat
  hq_service_state :: string
  hq_current_user :: "string option"
  hq_session_state :: string
  hq_idle_seconds :: "nat option"
  hq_controller_url :: "string option"

record heartbeat_response =
  hr_accepted :: bool
  hr_server_time :: datetime
  hr_heartbeat_interval_seconds :: u32
  hr_schedule :: "schedule option"

record agent_message =
  am_seq :: int
  am_id :: uuid
  am_title :: "string option"
  am_body :: string
  am_created_at :: datetime
  am_expires_at :: datetime

record event_item =
  ei_event_id :: uuid
  ei_event_type :: event_type
  ei_occurred_at :: datetime
  ei_severity :: event_severity
  ei_source :: event_source
  ei_session_id :: "uuid option"
  ei_username :: "string option"
  ei_data :: payload

record event_submission_request =
  sr_events :: "event_item list"

datatype event_result_status = Accepted | Duplicate | Rejected

record event_result =
  er_event_id :: uuid
  er_status :: event_result_status
  er_reason :: "string option"

record event_submission_response =
  es_accepted :: u32
  es_duplicates :: u32
  es_rejected :: u32
  es_results :: "event_result list"

record system_info_response =
  si_controller_id :: uuid
  si_controller_name :: string
  si_protocol_version :: u32
  si_controller_version :: string
  si_server_time :: datetime

text \<open>\<^verbatim>\<open>queue.rs\<close>: an event as it is queued.\<close>

record queued_event =
  ev_id :: uuid
  ev_type :: event_type
  ev_occurred_at :: datetime
  ev_severity :: event_severity
  ev_source :: event_source
  ev_session_id :: "uuid option"
  ev_username :: "string option"
  ev_data :: payload

definition to_event_item :: "queued_event \<Rightarrow> event_item" where
  "to_event_item e =
     \<lparr> ei_event_id = ev_id e, ei_event_type = ev_type e, ei_occurred_at = ev_occurred_at e,
       ei_severity = ev_severity e, ei_source = ev_source e, ei_session_id = ev_session_id e,
       ei_username = ev_username e, ei_data = ev_data e \<rparr>"

end
