(* ===== verification/Events.thy ===== *)
theory Events
  imports Protocol Tracker
begin

text \<open>
  \<^verbatim>\<open>agent/src/events.rs\<close>: one constructor per reported moment. \<open>eid\<close> is the value
  \<^verbatim>\<open>Uuid::new_v4()\<close> returns and \<open>clk\<close> the value \<^verbatim>\<open>Utc::now()\<close> returns inside the
  constructor; \<open>uuid_text\<close> is \<^verbatim>\<open>json!\<close> of a \<^verbatim>\<open>Uuid\<close>.
\<close>

definition new_event :: "uuid \<Rightarrow> datetime \<Rightarrow> event_type \<Rightarrow> event_severity \<Rightarrow> payload \<Rightarrow> queued_event" where
  "new_event eid clk ty sev d =
     \<lparr> ev_id = eid, ev_type = ty, ev_occurred_at = clk, ev_severity = sev, ev_source = SourceAgent,
       ev_session_id = None, ev_username = None, ev_data = d \<rparr>"

definition new_session_event ::
  "uuid \<Rightarrow> datetime \<Rightarrow> event_type \<Rightarrow> event_severity \<Rightarrow> string option \<Rightarrow> payload \<Rightarrow> queued_event" where
  "new_session_event eid clk ty sev username d = (new_event eid clk ty sev d)\<lparr>ev_username := username\<rparr>"

definition event_data :: "(string \<times> json_value) list \<Rightarrow> payload" where
  "event_data pairs = fmap_of_list pairs"

fun session_event_type :: "session_event \<Rightarrow> event_type" where
  "session_event_type (Logon sid) = UserLogon"
| "session_event_type (Logoff sid) = UserLogoff"
| "session_event_type (Lock sid) = UserLock"
| "session_event_type (Unlock sid) = UserUnlock"
| "session_event_type (ConsoleConnect sid) = SessionConnected"
| "session_event_type (ConsoleDisconnect sid) = SessionDisconnected"
| "session_event_type (RemoteConnect sid) = SessionConnected"
| "session_event_type (RemoteDisconnect sid) = SessionDisconnected"
| "session_event_type Suspend = SystemSuspend"
| "session_event_type Resume = SystemResume"

definition from_session_event :: "uuid \<Rightarrow> datetime \<Rightarrow> session_event \<Rightarrow> string option \<Rightarrow> queued_event" where
  "from_session_event eid clk event username =
     new_session_event eid clk (session_event_type event) Info username
       (case event_session_id event of
          Some sid \<Rightarrow> event_data [(''windowsSessionId'', JNumber (uint sid))]
        | None \<Rightarrow> fmempty)"

definition activity_event :: "uuid \<Rightarrow> datetime \<Rightarrow> bool \<Rightarrow> datetime \<Rightarrow> string option \<Rightarrow> queued_event" where
  "activity_event eid clk active occurred_at username =
     (new_session_event eid clk (if active then Active else Inactive) Info username fmempty)
       \<lparr>ev_occurred_at := occurred_at\<rparr>"

definition agent_started :: "uuid \<Rightarrow> datetime \<Rightarrow> string \<Rightarrow> string \<Rightarrow> queued_event" where
  "agent_started eid clk agent_version start_reason =
     new_event eid clk AgentStarted Info
       (event_data [(''agentVersion'', JString agent_version), (''startReason'', JString start_reason)])"

definition system_boot :: "uuid \<Rightarrow> datetime \<Rightarrow> queued_event" where
  "system_boot eid clk = new_event eid clk SystemBoot Info fmempty"

definition agent_stopping :: "uuid \<Rightarrow> datetime \<Rightarrow> string \<Rightarrow> queued_event" where
  "agent_stopping eid clk agent_version =
     new_event eid clk AgentStopping Info (event_data [(''agentVersion'', JString agent_version)])"

definition system_shutdown :: "uuid \<Rightarrow> datetime \<Rightarrow> queued_event" where
  "system_shutdown eid clk = new_event eid clk SystemShutdown Info fmempty"

definition agent_error :: "uuid \<Rightarrow> datetime \<Rightarrow> string \<Rightarrow> queued_event" where
  "agent_error eid clk message =
     new_event eid clk AgentError Error (event_data [(''message'', JString message)])"

definition controller_discovery_started :: "uuid \<Rightarrow> datetime \<Rightarrow> queued_event" where
  "controller_discovery_started eid clk = new_event eid clk ControllerDiscoveryStarted Info fmempty"

definition controller_discovered ::
  "(uuid \<Rightarrow> string) \<Rightarrow> uuid \<Rightarrow> datetime \<Rightarrow> uuid \<Rightarrow> string \<Rightarrow> string \<Rightarrow> queued_event" where
  "controller_discovered uuid_text eid clk controller_id controller_name controller_url =
     new_event eid clk ControllerDiscovered Info
       (event_data [(''controllerId'', JString (uuid_text controller_id)),
                    (''controllerName'', JString controller_name),
                    (''controllerUrl'', JString controller_url)])"

definition controller_discovery_failed :: "uuid \<Rightarrow> datetime \<Rightarrow> string \<Rightarrow> queued_event" where
  "controller_discovery_failed eid clk reason =
     new_event eid clk ControllerDiscoveryFailed Warning (event_data [(''reason'', JString reason)])"

definition controller_connected :: "uuid \<Rightarrow> datetime \<Rightarrow> string \<Rightarrow> queued_event" where
  "controller_connected eid clk controller_url =
     new_event eid clk ControllerConnected Info (event_data [(''controllerUrl'', JString controller_url)])"

definition controller_disconnected :: "uuid \<Rightarrow> datetime \<Rightarrow> string \<Rightarrow> queued_event" where
  "controller_disconnected eid clk reason =
     new_event eid clk ControllerDisconnected Warning (event_data [(''reason'', JString reason)])"

definition registration_succeeded :: "(uuid \<Rightarrow> string) \<Rightarrow> uuid \<Rightarrow> datetime \<Rightarrow> uuid \<Rightarrow> queued_event" where
  "registration_succeeded uuid_text eid clk device_id =
     new_event eid clk RegistrationSucceeded Info (event_data [(''deviceId'', JString (uuid_text device_id))])"

definition registration_failed :: "uuid \<Rightarrow> datetime \<Rightarrow> string \<Rightarrow> queued_event" where
  "registration_failed eid clk reason =
     new_event eid clk RegistrationFailed Error (event_data [(''reason'', JString reason)])"

definition heartbeat_sent :: "uuid \<Rightarrow> datetime \<Rightarrow> queued_event" where
  "heartbeat_sent eid clk = new_event eid clk HeartbeatSent Info fmempty"

definition power_action_requested :: "uuid \<Rightarrow> datetime \<Rightarrow> string \<Rightarrow> string \<Rightarrow> queued_event" where
  "power_action_requested eid clk act reason =
     new_event eid clk PowerActionRequested Warning
       (event_data [(''action'', JString act), (''reason'', JString reason)])"

definition power_action_completed :: "uuid \<Rightarrow> datetime \<Rightarrow> string \<Rightarrow> queued_event" where
  "power_action_completed eid clk act =
     new_event eid clk PowerActionCompleted Info (event_data [(''action'', JString act)])"

definition power_action_failed :: "uuid \<Rightarrow> datetime \<Rightarrow> string \<Rightarrow> string \<Rightarrow> queued_event" where
  "power_action_failed eid clk act reason =
     new_event eid clk PowerActionFailed Error
       (event_data [(''action'', JString act), (''reason'', JString reason)])"

lemmas event_defs =
  new_event_def new_session_event_def from_session_event_def activity_event_def agent_started_def
  system_boot_def agent_stopping_def system_shutdown_def agent_error_def
  controller_discovery_started_def controller_discovered_def controller_discovery_failed_def
  controller_connected_def controller_disconnected_def registration_succeeded_def
  registration_failed_def heartbeat_sent_def power_action_requested_def
  power_action_completed_def power_action_failed_def

lemma from_session_event_fields [simp]:
  "ev_id (from_session_event eid clk e u) = eid"
  "ev_occurred_at (from_session_event eid clk e u) = clk"
  "ev_username (from_session_event eid clk e u) = u"
  "ev_type (from_session_event eid clk e u) = session_event_type e"
  "ev_session_id (from_session_event eid clk e u) = None"
  by (simp_all add: event_defs)

lemma activity_event_fields [simp]:
  "ev_id (activity_event eid clk a at u) = eid"
  "ev_occurred_at (activity_event eid clk a at u) = at"
  "ev_username (activity_event eid clk a at u) = u"
  "ev_type (activity_event eid clk a at u) = (if a then Active else Inactive)"
  "ev_session_id (activity_event eid clk a at u) = None"
  by (simp_all add: event_defs)

end
