(* ===== verification/Queue.thy ===== *)
theory Queue
  imports Events Database
begin

text \<open>
  The persistent event queue of \<^verbatim>\<open>agent/src/queue.rs\<close>. The table is the list of its rows in
  \<^verbatim>\<open>rowid\<close> order; every column is text or an integer, as the schema has it. What SQLite and
  the serialisers do is the parameter \<open>queue_env\<close>: the renderings of the columns, the order in
  which a query visits the rows (SQL leaves the order of equal sort keys open), and which
  statements fail. A failed statement leaves the table unchanged.

  \<open>queue_rep\<close> relates the table to the list of pending events it stores, with real instants
  instead of text. The lemmas on it say what each operation does to that list; the locale
  \<open>event_store\<close> collects them as the contract the recorder and the agent rely on.
\<close>

section \<open>Data\<close>

definition BACKOFF_SCHEDULE_SECONDS :: "int list" where
  "BACKOFF_SCHEDULE_SECONDS = [10, 30, 60, 300, 900, 1800]"

definition MAX_ATTEMPTS :: u32 where
  "MAX_ATTEMPTS = 48"

definition MAX_QUEUE_SIZE :: int where
  "MAX_QUEUE_SIZE = 5000"

text \<open>The last constructor is a panic (\<^verbatim>\<open>expect\<close> on a stored value).\<close>

datatype queue_error = QueueSqlite string | QueueSerde string | QueuePanic string

record pending_delivery =
  pd_row_id :: int
  pd_event :: queued_event
  pd_attempt_count :: u32

record queue_row =
  q_id :: int
  q_event_id :: string
  q_event_type :: string
  q_occurred_at :: string
  q_severity :: string
  q_source :: string
  q_session_id :: "string option"
  q_username :: "string option"
  q_payload_json :: string
  q_attempt_count :: int
  q_next_attempt_at :: string
  q_created_at :: string

datatype queue_stmt =
    InsertEvent | CountRows | DeleteOldest | SelectDue | DeleteById | DeleteByEventId | UpdateAttempt

record queue_env = text_env +
  type_codec :: "event_type codec"
  severity_codec :: "event_severity codec"
  source_codec :: "event_source codec"
  payload_codec :: "payload codec"
  q_scan :: "queue_row list \<Rightarrow> queue_row list"
  q_fault :: "queue_stmt \<Rightarrow> string option"

definition queue_env_ok :: "queue_env \<Rightarrow> bool" where
  "queue_env_ok E \<longleftrightarrow>
     text_env_ok E \<and> codec_ok (type_codec E) \<and> codec_ok (severity_codec E) \<and>
     codec_ok (source_codec E) \<and> codec_ok (payload_codec E) \<and>
     (\<forall>rs. mset (q_scan E rs) = mset rs)"

definition no_fault :: "queue_env \<Rightarrow> bool" where
  "no_fault E \<longleftrightarrow> (\<forall>s. q_fault E s = None)"

record event_queue =
  q_rows :: "queue_row list"
  q_next_id :: int

section \<open>Operations\<close>

definition queue_init :: event_queue where
  "queue_init = \<lparr> q_rows = [], q_next_id = 1 \<rparr>"

text \<open>\<^verbatim>\<open>open\<close> and \<^verbatim>\<open>init\<close>: what the file holds afterwards, and the queue.\<close>

definition queue_open :: "open_faults \<Rightarrow> event_queue option \<Rightarrow> event_queue option \<times> (queue_error + event_queue)" where
  "queue_open f stored =
     (case f OpenFile of Some e \<Rightarrow> (stored, Inl (QueueSqlite e)) | None \<Rightarrow>
     (case f SetJournalMode of Some e \<Rightarrow> (stored, Inl (QueueSqlite e)) | None \<Rightarrow>
     (case f CreateTable of Some e \<Rightarrow> (stored, Inl (QueueSqlite e)) | None \<Rightarrow>
        (let q = create_table queue_init stored in
         case f CreateIndex of Some e \<Rightarrow> (Some q, Inl (QueueSqlite e)) | None \<Rightarrow> (Some q, Inr q)))))"

interpretation queue_file: database_open queue_init queue_open
  by unfold_locales (auto simp: queue_open_def Let_def split: option.splits)

definition enforce_max_size_with_cap ::
  "queue_env \<Rightarrow> int \<Rightarrow> event_queue \<Rightarrow> event_queue \<times> (queue_error + unit)" where
  "enforce_max_size_with_cap E cap q =
     (case q_fault E CountRows of
        Some e \<Rightarrow> (q, Inl (QueueSqlite e))
      | None \<Rightarrow>
          (let overflow = int (length (q_rows q)) - cap in
           if overflow > 0 then
             (case q_fault E DeleteOldest of
                Some e \<Rightarrow> (q, Inl (QueueSqlite e))
              | None \<Rightarrow>
                  (let oldest = map q_id (take (nat overflow) (sort_key q_created_at (q_scan E (q_rows q))))
                   in (q\<lparr>q_rows := filter (\<lambda>r. q_id r \<notin> set oldest) (q_rows q)\<rparr>, Inr ())))
           else (q, Inr ())))"

definition enforce_max_size :: "queue_env \<Rightarrow> event_queue \<Rightarrow> event_queue \<times> (queue_error + unit)" where
  "enforce_max_size E q = enforce_max_size_with_cap E MAX_QUEUE_SIZE q"

definition new_row :: "queue_env \<Rightarrow> int \<Rightarrow> queued_event \<Rightarrow> datetime \<Rightarrow> queue_row" where
  "new_row E i event now =
     \<lparr> q_id = i,
       q_event_id = uuid_to_string E (ev_id event),
       q_event_type = to_text (type_codec E) (ev_type event),
       q_occurred_at = to_rfc3339 E (ev_occurred_at event),
       q_severity = to_text (severity_codec E) (ev_severity event),
       q_source = to_text (source_codec E) (ev_source event),
       q_session_id = map_option (uuid_to_string E) (ev_session_id event),
       q_username = ev_username event,
       q_payload_json = to_text (payload_codec E) (ev_data event),
       q_attempt_count = 0,
       q_next_attempt_at = to_rfc3339 E now,
       q_created_at = to_rfc3339 E now \<rparr>"

text \<open>\<^verbatim>\<open>INSERT .. ON CONFLICT(event_id) DO NOTHING\<close>, then the size cap.\<close>

definition enqueue ::
  "queue_env \<Rightarrow> event_queue \<Rightarrow> queued_event \<Rightarrow> datetime \<Rightarrow> event_queue \<times> (queue_error + unit)" where
  "enqueue E q event now =
     (case q_fault E InsertEvent of
        Some e \<Rightarrow> (q, Inl (QueueSqlite e))
      | None \<Rightarrow>
          (let row = new_row E (q_next_id q) event now;
               q' = (if list_ex (\<lambda>r. q_event_id r = q_event_id row) (q_rows q) then q
                     else q\<lparr>q_rows := q_rows q @ [row], q_next_id := q_next_id q + 1\<rparr>)
           in enforce_max_size E q'))"

definition decode_row :: "queue_env \<Rightarrow> queue_row \<Rightarrow> queue_error + pending_delivery" where
  "decode_row E r =
     (case uuid_parse_str E (q_event_id r) of
        None \<Rightarrow> Inl (QueuePanic ''stored event_id is a valid UUID'')
      | Some eid \<Rightarrow>
     (case from_text (type_codec E) (q_event_type r) of
        None \<Rightarrow> Inl (QueueSerde ''event_type'')
      | Some ty \<Rightarrow>
     (case parse_rfc3339 E (q_occurred_at r) of
        None \<Rightarrow> Inl (QueuePanic ''stored timestamp is valid RFC3339'')
      | Some occ \<Rightarrow>
     (case from_text (severity_codec E) (q_severity r) of
        None \<Rightarrow> Inl (QueueSerde ''severity'')
      | Some sev \<Rightarrow>
     (case from_text (source_codec E) (q_source r) of
        None \<Rightarrow> Inl (QueueSerde ''source'')
      | Some src \<Rightarrow>
     (case (case q_session_id r of
              None \<Rightarrow> Some None
            | Some s \<Rightarrow> map_option Some (uuid_parse_str E s)) of
        None \<Rightarrow> Inl (QueuePanic ''stored session_id is a valid UUID'')
      | Some sess \<Rightarrow>
     (case from_text (payload_codec E) (q_payload_json r) of
        None \<Rightarrow> Inl (QueueSerde ''payload_json'')
      | Some d \<Rightarrow>
          Inr \<lparr> pd_row_id = q_id r,
                pd_event = \<lparr> ev_id = eid, ev_type = ty, ev_occurred_at = occ, ev_severity = sev,
                  ev_source = src, ev_session_id = sess, ev_username = q_username r, ev_data = d \<rparr>,
                pd_attempt_count = word_of_int (q_attempt_count r) \<rparr>)))))))"

definition due_batch ::
  "queue_env \<Rightarrow> event_queue \<Rightarrow> datetime \<Rightarrow> nat \<Rightarrow> queue_error + pending_delivery list" where
  "due_batch E q now limit =
     (case q_fault E SelectDue of
        Some e \<Rightarrow> Inl (QueueSqlite e)
      | None \<Rightarrow>
          (let rows = take limit (sort_key q_created_at
                 (filter (\<lambda>r. q_next_attempt_at r \<le> to_rfc3339 E now) (q_scan E (q_rows q))))
           in collect_results (map (decode_row E) rows)))"

definition mark_delivered :: "queue_env \<Rightarrow> event_queue \<Rightarrow> int \<Rightarrow> event_queue \<times> (queue_error + unit)" where
  "mark_delivered E q row_id =
     (case q_fault E DeleteById of
        Some e \<Rightarrow> (q, Inl (QueueSqlite e))
      | None \<Rightarrow> (q\<lparr>q_rows := filter (\<lambda>r. q_id r \<noteq> row_id) (q_rows q)\<rparr>, Inr ()))"

definition mark_delivered_by_event_id ::
  "queue_env \<Rightarrow> event_queue \<Rightarrow> uuid \<Rightarrow> event_queue \<times> (queue_error + unit)" where
  "mark_delivered_by_event_id E q event_id =
     (case q_fault E DeleteByEventId of
        Some e \<Rightarrow> (q, Inl (QueueSqlite e))
      | None \<Rightarrow>
          (q\<lparr>q_rows := filter (\<lambda>r. q_event_id r \<noteq> uuid_to_string E event_id) (q_rows q)\<rparr>, Inr ()))"

definition backoff_delay :: "u32 \<Rightarrow> nanos" where
  "backoff_delay attempt =
     (let index = min (unat attempt - 1) (length BACKOFF_SCHEDULE_SECONDS - 1)
      in seconds (BACKOFF_SCHEDULE_SECONDS ! index))"

definition mark_failed ::
  "queue_env \<Rightarrow> event_queue \<Rightarrow> int \<Rightarrow> u32 \<Rightarrow> datetime \<Rightarrow> event_queue \<times> (queue_error + unit)" where
  "mark_failed E q row_id attempt_count now =
     (let next_attempt_count = attempt_count + 1 in
      if next_attempt_count \<ge> MAX_ATTEMPTS then
        (case q_fault E DeleteById of
           Some e \<Rightarrow> (q, Inl (QueueSqlite e))
         | None \<Rightarrow> (q\<lparr>q_rows := filter (\<lambda>r. q_id r \<noteq> row_id) (q_rows q)\<rparr>, Inr ()))
      else
        (let next_attempt_at = now + backoff_delay next_attempt_count in
         case q_fault E UpdateAttempt of
           Some e \<Rightarrow> (q, Inl (QueueSqlite e))
         | None \<Rightarrow>
             (q\<lparr>q_rows := map (\<lambda>r. if q_id r = row_id
                  then r\<lparr>q_attempt_count := uint next_attempt_count,
                         q_next_attempt_at := to_rfc3339 E next_attempt_at\<rparr>
                  else r) (q_rows q)\<rparr>, Inr ())))"

definition queue_len :: "queue_env \<Rightarrow> event_queue \<Rightarrow> queue_error + nat" where
  "queue_len E q =
     (case q_fault E CountRows of
        Some e \<Rightarrow> Inl (QueueSqlite e)
      | None \<Rightarrow> Inr (length (q_rows q)))"

definition queue_is_empty :: "queue_env \<Rightarrow> event_queue \<Rightarrow> queue_error + bool" where
  "queue_is_empty E q =
     (case queue_len E q of Inl e \<Rightarrow> Inl e | Inr n \<Rightarrow> Inr (n = 0))"

section \<open>What the table stores\<close>

record pending_entry =
  pe_id :: int
  pe_event :: queued_event
  pe_attempts :: nat
  pe_next :: datetime
  pe_created :: datetime

definition encode_entry :: "queue_env \<Rightarrow> pending_entry \<Rightarrow> queue_row" where
  "encode_entry E x =
     (new_row E (pe_id x) (pe_event x) (pe_created x))
       \<lparr>q_attempt_count := int (pe_attempts x), q_next_attempt_at := to_rfc3339 E (pe_next x)\<rparr>"

definition entry_ok :: "pending_entry \<Rightarrow> bool" where
  "entry_ok x \<longleftrightarrow>
     rfc_range (ev_occurred_at (pe_event x)) \<and> rfc_range (pe_next x) \<and> rfc_range (pe_created x) \<and>
     pe_attempts x < unat MAX_ATTEMPTS"

definition queue_rep :: "queue_env \<Rightarrow> pending_entry list \<Rightarrow> event_queue \<Rightarrow> bool" where
  "queue_rep E es q \<longleftrightarrow>
     q_rows q = map (encode_entry E) es \<and>
     distinct (map pe_id es) \<and> distinct (map (\<lambda>x. ev_id (pe_event x)) es) \<and>
     list_all entry_ok es \<and> (\<forall>x \<in> set es. pe_id x < q_next_id q)"

definition entry_of :: "int \<Rightarrow> queued_event \<Rightarrow> datetime \<Rightarrow> pending_entry" where
  "entry_of i event now =
     \<lparr> pe_id = i, pe_event = event, pe_attempts = 0, pe_next = now, pe_created = now \<rparr>"

definition delivery_of :: "pending_entry \<Rightarrow> pending_delivery" where
  "delivery_of x =
     \<lparr> pd_row_id = pe_id x, pd_event = pe_event x, pd_attempt_count = of_nat (pe_attempts x) \<rparr>"

text \<open>A failed attempt, on the stored entries.\<close>

definition fail_entry :: "int \<Rightarrow> nat \<Rightarrow> datetime \<Rightarrow> pending_entry list \<Rightarrow> pending_entry list" where
  "fail_entry i attempts now es =
     (if Suc attempts \<ge> unat MAX_ATTEMPTS then filter (\<lambda>x. pe_id x \<noteq> i) es
      else map (\<lambda>x. if pe_id x = i
             then x\<lparr>pe_attempts := Suc attempts, pe_next := now + backoff_delay (of_nat (Suc attempts))\<rparr>
             else x) es)"

text \<open>What a \<^verbatim>\<open>DELETE .. ORDER BY created_at LIMIT\<close> leaves of the entries.\<close>

definition trimmed :: "nat \<Rightarrow> pending_entry list \<Rightarrow> pending_entry list \<Rightarrow> bool" where
  "trimmed cap es es' \<longleftrightarrow>
     (\<exists>gone. es' = filter (\<lambda>x. x \<notin> gone) es \<and> length es' = min cap (length es) \<and>
       (\<forall>x \<in> set es. \<forall>y \<in> set es'. x \<in> gone \<longrightarrow> pe_created x \<le> pe_created y))"

definition due_entries :: "pending_entry list \<Rightarrow> datetime \<Rightarrow> nat \<Rightarrow> pending_entry list" where
  "due_entries es now limit = take limit (sort_key pe_created (filter (\<lambda>x. pe_next x \<le> now) es))"

definition event_ids :: "pending_entry list \<Rightarrow> uuid set" where
  "event_ids es = (\<lambda>x. ev_id (pe_event x)) ` set es"

section \<open>Rows and entries\<close>

lemma encode_entry_sel [simp]:
  "q_id (encode_entry E x) = pe_id x"
  "q_event_id (encode_entry E x) = uuid_to_string E (ev_id (pe_event x))"
  "q_created_at (encode_entry E x) = to_rfc3339 E (pe_created x)"
  "q_next_attempt_at (encode_entry E x) = to_rfc3339 E (pe_next x)"
  by (simp_all add: encode_entry_def new_row_def)

lemma encode_entry_of: "encode_entry E (entry_of i event now) = new_row E i event now"
  by (simp add: encode_entry_def entry_of_def new_row_def)

lemma entry_of_sel [simp]:
  "pe_id (entry_of i event now) = i" "pe_event (entry_of i event now) = event"
  "pe_attempts (entry_of i event now) = 0" "pe_next (entry_of i event now) = now"
  "pe_created (entry_of i event now) = now"
  by (simp_all add: entry_of_def)

lemma decode_encode_entry [codec_simps]:
  assumes "queue_env_ok E" "entry_ok x"
  shows "decode_row E (encode_entry E x) = Inr (delivery_of x)"
proof -
  have t: "text_env_ok E" and c: "codec_ok (type_codec E)" "codec_ok (severity_codec E)"
    "codec_ok (source_codec E)" "codec_ok (payload_codec E)"
    using assms(1) by (simp_all add: queue_env_ok_def)
  have r: "rfc_range (ev_occurred_at (pe_event x))" using assms(2) by (simp add: entry_ok_def)
  show ?thesis
    using r by (cases "ev_session_id (pe_event x)")
      (simp_all add: decode_row_def encode_entry_def new_row_def delivery_of_def
        codec_roundtrip [OF c(1)] codec_roundtrip [OF c(2)] codec_roundtrip [OF c(3)]
        codec_roundtrip [OF c(4)] uuid_roundtrip [OF t] rfc3339_roundtrip [OF t])
qed

lemma scan_entries:
  assumes "queue_env_ok E"
  obtains es' where "mset es' = mset es" "q_scan E (map (encode_entry E) es) = map (encode_entry E) es'"
  using assms mset_map_perm [of "q_scan E (map (encode_entry E) es)" "encode_entry E" es]
  by (auto simp: queue_env_ok_def)

lemma sort_encoded:
  assumes "queue_env_ok E" "list_all entry_ok es"
  shows "sort_key q_created_at (map (encode_entry E) es) = map (encode_entry E) (sort_key pe_created es)"
proof -
  have "sort_key (\<lambda>x. to_rfc3339 E (pe_created x)) es = sort_key pe_created es"
    by (rule sort_key_cong_order)
      (use assms in \<open>auto simp: list_all_iff entry_ok_def queue_env_ok_def rfc3339_le\<close>)
  then show ?thesis by (simp add: sort_key_map)
qed

lemma filter_due_encoded:
  assumes "queue_env_ok E" "list_all entry_ok es" "rfc_range now"
  shows "filter (\<lambda>r. q_next_attempt_at r \<le> to_rfc3339 E now) (map (encode_entry E) es)
       = map (encode_entry E) (filter (\<lambda>x. pe_next x \<le> now) es)"
proof -
  have "filter (\<lambda>x. to_rfc3339 E (pe_next x) \<le> to_rfc3339 E now) es = filter (\<lambda>x. pe_next x \<le> now) es"
    by (rule filter_cong) (use assms in \<open>auto simp: list_all_iff entry_ok_def queue_env_ok_def rfc3339_le\<close>)
  then show ?thesis by (simp add: filter_map_eq)
qed

lemma list_all_mset: "mset xs = mset ys \<Longrightarrow> list_all P xs = list_all P ys"
  by (metis list_all_iff mset_eq_setD)

section \<open>The operations on the stored entries\<close>

lemma queue_rep_init: "queue_rep E [] queue_init"
  by (simp add: queue_rep_def queue_init_def)

lemma due_batch_rep:
  assumes "queue_env_ok E" "q_fault E SelectDue = None" "queue_rep E es q" "rfc_range now"
  shows "\<exists>es'. mset es' = mset es \<and> due_batch E q now limit = Inr (map delivery_of (due_entries es' now limit))"
proof -
  obtain es' where perm: "mset es' = mset es"
    and scan: "q_scan E (map (encode_entry E) es) = map (encode_entry E) es'"
    using scan_entries [OF assms(1)] .
  have ok: "list_all entry_ok es'"
    using assms(3) list_all_mset [OF perm, of entry_ok] by (simp add: queue_rep_def)
  let ?due = "filter (\<lambda>x. pe_next x \<le> now) es'"
  have okd: "list_all entry_ok ?due" using ok by (auto simp: list_all_iff)
  have rows: "take limit (sort_key q_created_at
       (filter (\<lambda>r. q_next_attempt_at r \<le> to_rfc3339 E now) (q_scan E (q_rows q))))
     = map (encode_entry E) (due_entries es' now limit)"
    using assms(3)
    by (simp add: queue_rep_def scan filter_due_encoded [OF assms(1) ok assms(4)]
        sort_encoded [OF assms(1) okd] due_entries_def take_map)
  have "entry_ok x" if "x \<in> set (due_entries es' now limit)" for x
    using that okd by (auto simp: due_entries_def list_all_iff dest!: in_set_takeD)
  then have "collect_results (map (decode_row E) (map (encode_entry E) (due_entries es' now limit)))
     = Inr (map delivery_of (due_entries es' now limit))"
    by (simp add: o_def collect_results_all_Inr decode_encode_entry [OF assms(1)])
  then show ?thesis
    using perm assms(2) by (auto simp: due_batch_def rows simp del: map_map)
qed

lemma queue_rep_filter:
  assumes "queue_rep E es q" "\<And>x. x \<in> set es \<Longrightarrow> P (encode_entry E x) = Q x"
  shows "queue_rep E (filter Q es) (q\<lparr>q_rows := filter P (q_rows q)\<rparr>)"
proof -
  have "filter (\<lambda>x. P (encode_entry E x)) es = filter Q es"
    by (rule filter_cong) (auto simp: assms(2))
  then show ?thesis
    using assms(1) by (auto simp: queue_rep_def filter_map_eq list_all_iff distinct_map_filter)
qed

lemma mark_delivered_rep:
  assumes "q_fault E DeleteById = None" "queue_rep E es q"
  shows "\<exists>q'. mark_delivered E q i = (q', Inr ()) \<and> queue_rep E (filter (\<lambda>x. pe_id x \<noteq> i) es) q'"
  using assms queue_rep_filter [OF assms(2), of "\<lambda>r. q_id r \<noteq> i" "\<lambda>x. pe_id x \<noteq> i"]
  by (simp add: mark_delivered_def)

lemma mark_delivered_by_event_id_rep:
  assumes "queue_env_ok E" "q_fault E DeleteByEventId = None" "queue_rep E es q"
  shows "\<exists>q'. mark_delivered_by_event_id E q u = (q', Inr ()) \<and>
     queue_rep E (filter (\<lambda>x. ev_id (pe_event x) \<noteq> u) es) q'"
  using assms queue_rep_filter [OF assms(3), of "\<lambda>r. q_event_id r \<noteq> uuid_to_string E u" "\<lambda>x. ev_id (pe_event x) \<noteq> u"]
  by (simp add: mark_delivered_by_event_id_def queue_env_ok_def uuid_to_string_inject)

lemma attempts_word:
  assumes "a < 2 ^ 32 - 1"
  shows "(of_nat a + 1 :: u32) = of_nat (Suc a)" "unat (of_nat (Suc a) :: u32) = Suc a"
    "of_nat (Suc a) \<ge> (MAX_ATTEMPTS :: u32) \<longleftrightarrow> Suc a \<ge> unat MAX_ATTEMPTS"
    "uint (of_nat (Suc a) :: u32) = int (Suc a)"
proof -
  show u: "unat (of_nat (Suc a) :: u32) = Suc a"
    using assms by (simp only: unat_of_nat) (simp add: mod_less del: of_nat_Suc)
  show "(of_nat a + 1 :: u32) = of_nat (Suc a)" by simp
  show "of_nat (Suc a) \<ge> (MAX_ATTEMPTS :: u32) \<longleftrightarrow> Suc a \<ge> unat MAX_ATTEMPTS"
    by (simp only: word_le_nat_alt u)
  show "uint (of_nat (Suc a) :: u32) = int (Suc a)"
    by (metis u uint_nat)
qed

lemma mark_failed_unfold:
  assumes "a < 2 ^ 32 - 1"
  shows "mark_failed E q i (of_nat a) now =
     (if Suc a \<ge> unat MAX_ATTEMPTS then mark_delivered E q i
      else (case q_fault E UpdateAttempt of
         Some e \<Rightarrow> (q, Inl (QueueSqlite e))
       | None \<Rightarrow> (q\<lparr>q_rows := map (\<lambda>r. if q_id r = i
             then r\<lparr>q_attempt_count := int (Suc a),
                    q_next_attempt_at := to_rfc3339 E (now + backoff_delay (of_nat (Suc a)))\<rparr>
             else r) (q_rows q)\<rparr>, Inr ())))"
  unfolding mark_failed_def mark_delivered_def Let_def attempts_word [OF assms] by (rule refl)

lemma fail_entry_ids:
  "Suc a < unat MAX_ATTEMPTS \<Longrightarrow> map pe_id (fail_entry i a now es) = map pe_id es"
  "Suc a < unat MAX_ATTEMPTS \<Longrightarrow>
     map (\<lambda>x. ev_id (pe_event x)) (fail_entry i a now es) = map (\<lambda>x. ev_id (pe_event x)) es"
  by (auto simp: fail_entry_def)

lemma fail_entry_ok:
  "list_all entry_ok es \<Longrightarrow> rfc_range (now + backoff_delay (of_nat (Suc a))) \<Longrightarrow>
   list_all entry_ok (fail_entry i a now es)"
  by (auto simp: fail_entry_def list_all_iff entry_ok_def)

lemma mark_failed_rep:
  assumes "no_fault E" "queue_rep E es q" "a < 2 ^ 32 - 1"
    "rfc_range (now + backoff_delay (of_nat (Suc a)))"
  shows "\<exists>q'. mark_failed E q i (of_nat a) now = (q', Inr ()) \<and> queue_rep E (fail_entry i a now es) q'"
proof (cases "Suc a \<ge> unat MAX_ATTEMPTS")
  case True
  with mark_delivered_rep [OF _ assms(2), of i] assms(1) show ?thesis
    by (simp add: mark_failed_unfold [OF assms(3)] fail_entry_def no_fault_def)
next
  case False
  let ?es = "fail_entry i a now es"
  have "map (\<lambda>r. if q_id r = i
             then r\<lparr>q_attempt_count := int (Suc a),
                    q_next_attempt_at := to_rfc3339 E (now + backoff_delay (of_nat (Suc a)))\<rparr>
             else r) (q_rows q) = map (encode_entry E) ?es"
    using False assms(2)
    by (simp add: queue_rep_def fail_entry_def encode_entry_def new_row_def del: of_nat_Suc)
  moreover have "\<forall>x \<in> set ?es. pe_id x < q_next_id q"
    using False assms(2) by (auto simp: queue_rep_def fail_entry_def)
  ultimately show ?thesis
    using False assms fail_entry_ids [of a i now es] fail_entry_ok [of es now a i]
    by (auto simp: mark_failed_unfold [OF assms(3)] queue_rep_def no_fault_def simp del: of_nat_Suc)
qed

text \<open>The size cap.\<close>

lemma length_filter_untaken:
  assumes "distinct es" "mset s = mset es"
  shows "length (filter (\<lambda>x. x \<notin> set (take n s)) es) = length es - n"
proof -
  have d: "distinct s" using assms mset_eq_imp_distinct_iff by blast
  have "mset (filter (\<lambda>x. x \<notin> set (take n s)) es) = mset (filter (\<lambda>x. x \<notin> set (take n s)) s)"
    using assms(2) by (metis mset_filter)
  then have "length (filter (\<lambda>x. x \<notin> set (take n s)) es) = length (filter (\<lambda>x. x \<notin> set (take n s)) s)"
    by (rule mset_eq_length)
  also have "filter (\<lambda>x. x \<notin> set (take n s)) (take n s @ drop n s) = drop n s"
    using set_take_disj_set_drop_if_distinct [OF d, of n n]
    unfolding filter_append by (auto simp: filter_id_conv filter_empty_conv simp del: append_take_drop_id)
  then have "filter (\<lambda>x. x \<notin> set (take n s)) s = drop n s" by simp
  also have "length (drop n s) = length es - n"
    using mset_eq_length [OF assms(2)] by simp
  finally show ?thesis .
qed

lemma oldest_trimmed:
  assumes "distinct es" "mset s = mset es" "cap \<le> length es"
  shows "trimmed cap es (filter (\<lambda>x. x \<notin> set (take (length es - cap) (sort_key pe_created s))) es)"
proof -
  let ?n = "length es - cap" and ?s = "sort_key pe_created s"
  have sets: "set es = set (take ?n ?s) \<union> set (drop ?n ?s)"
    using assms(2) by (metis append_take_drop_id mset_eq_setD mset_sort set_append)
  have "length (filter (\<lambda>x. x \<notin> set (take ?n ?s)) es) = length es - ?n"
    using assms by (intro length_filter_untaken) simp_all
  moreover have "pe_created x \<le> pe_created y"
    if "x \<in> set (take ?n ?s)" "y \<in> set es" "y \<notin> set (take ?n ?s)" for x y
    using take_sort_key_le [of x ?n pe_created s y] that sets by blast
  ultimately show ?thesis
    unfolding trimmed_def using assms(3) by (intro exI [of _ "set (take ?n ?s)"]) auto
qed

lemma trimmed_self: "length es \<le> cap \<Longrightarrow> trimmed cap es es"
  unfolding trimmed_def by (rule exI [of _ "{}"]) auto

lemma trimmed_subset: "trimmed cap es es' \<Longrightarrow> set es' \<subseteq> set es"
  by (auto simp: trimmed_def)

lemma trimmed_length: "trimmed cap es es' \<Longrightarrow> length es' = min cap (length es)"
  by (auto simp: trimmed_def)

lemma trimmed_small:
  assumes "trimmed cap es es'" "length es \<le> cap"
  shows "es' = es"
  using assms unfolding trimmed_def by (metis filter_id_conv length_filter_less less_irrefl min.absorb2)

lemma enforce_max_size_with_cap_rep:
  assumes "queue_env_ok E" "q_fault E CountRows = None" "q_fault E DeleteOldest = None"
    "queue_rep E es q"
  shows "\<exists>q' es'. enforce_max_size_with_cap E (int cap) q = (q', Inr ()) \<and> queue_rep E es' q' \<and>
     trimmed cap es es' \<and> q_next_id q' = q_next_id q"
proof (cases "length es \<le> cap")
  case True
  then show ?thesis
    using assms trimmed_self [OF True]
    by (auto simp: enforce_max_size_with_cap_def queue_rep_def)
next
  case False
  obtain s where perm: "mset s = mset es"
    and scan: "q_scan E (map (encode_entry E) es) = map (encode_entry E) s"
    using scan_entries [OF assms(1)] .
  have ok: "list_all entry_ok s"
    using assms(4) list_all_mset [OF perm, of entry_ok] by (simp add: queue_rep_def)
  let ?n = "length es - cap"
  let ?old = "take ?n (sort_key pe_created s)"
  have ids: "map q_id (take (nat (int (length (q_rows q)) - int cap)) (sort_key q_created_at (q_scan E (q_rows q))))
      = map pe_id ?old"
    using assms(4) False
    by (simp add: queue_rep_def scan sort_encoded [OF assms(1) ok] take_map o_def nat_diff_distrib')
  have sub: "set ?old \<subseteq> set es"
    using perm by (metis mset_eq_setD mset_sort set_take_subset)
  have d: "distinct (map pe_id es)" using assms(4) by (simp add: queue_rep_def)
  have mem: "pe_id x \<notin> set (map pe_id ?old) \<longleftrightarrow> x \<notin> set ?old" if "x \<in> set es" for x
    using that sub distinct_map_eqD [OF d that] by auto
  have "queue_rep E (filter (\<lambda>x. x \<notin> set ?old) es)
      (q\<lparr>q_rows := filter (\<lambda>r. q_id r \<notin> set (map pe_id ?old)) (q_rows q)\<rparr>)"
    by (rule queue_rep_filter [OF assms(4)]) (use mem in auto)
  moreover have "trimmed cap es (filter (\<lambda>x. x \<notin> set ?old) es)"
    using d perm False by (intro oldest_trimmed) (auto simp: distinct_map)
  ultimately show ?thesis
    using assms(2-4) False
    unfolding enforce_max_size_with_cap_def Let_def ids by (auto simp: queue_rep_def)
qed

text \<open>Enqueueing.\<close>

definition appended :: "int \<Rightarrow> pending_entry list \<Rightarrow> queued_event \<Rightarrow> datetime \<Rightarrow> pending_entry list" where
  "appended i es event now = (if ev_id event \<in> event_ids es then es else es @ [entry_of i event now])"

definition inserted :: "queue_env \<Rightarrow> event_queue \<Rightarrow> queued_event \<Rightarrow> datetime \<Rightarrow> event_queue" where
  "inserted E q event now =
     (if list_ex (\<lambda>r. q_event_id r = uuid_to_string E (ev_id event)) (q_rows q) then q
      else q\<lparr>q_rows := q_rows q @ [new_row E (q_next_id q) event now], q_next_id := q_next_id q + 1\<rparr>)"

lemma enqueue_inserted:
  "enqueue E q event now =
     (case q_fault E InsertEvent of
        Some e \<Rightarrow> (q, Inl (QueueSqlite e))
      | None \<Rightarrow> enforce_max_size E (inserted E q event now))"
  by (cases "q_fault E InsertEvent") (simp_all add: enqueue_def inserted_def Let_def new_row_def)

lemma inserted_rep:
  assumes "queue_env_ok E" "queue_rep E es q" "rfc_range now" "rfc_range (ev_occurred_at event)"
  shows "queue_rep E (appended (q_next_id q) es event now) (inserted E q event now)"
proof -
  have t: "text_env_ok E" using assms(1) by (simp add: queue_env_ok_def)
  have dup: "list_ex (\<lambda>r. q_event_id r = uuid_to_string E (ev_id event)) (q_rows q)
      \<longleftrightarrow> ev_id event \<in> event_ids es"
    using assms(2)
    by (simp add: queue_rep_def list_ex_iff event_ids_def image_iff uuid_to_string_inject [OF t]) metis
  have ok: "entry_ok (entry_of (q_next_id q) event now)"
    using assms(3,4) by (simp add: entry_ok_def MAX_ATTEMPTS_def)
  show ?thesis
  proof (cases "ev_id event \<in> event_ids es")
    case True
    then show ?thesis using assms(2) dup by (simp add: inserted_def appended_def)
  next
    case False
    then have "\<forall>x \<in> set es. ev_id (pe_event x) \<noteq> ev_id event" unfolding event_ids_def by force
    then show ?thesis
      using assms(2) dup False ok
      by (auto simp: inserted_def appended_def queue_rep_def encode_entry_of)
  qed
qed

lemma enqueue_rep:
  assumes "queue_env_ok E" "no_fault E" "queue_rep E es q" "rfc_range now"
    "rfc_range (ev_occurred_at event)"
  shows "\<exists>q' es'. enqueue E q event now = (q', Inr ()) \<and> queue_rep E es' q' \<and>
     trimmed (nat MAX_QUEUE_SIZE) (appended (q_next_id q) es event now) es'"
  using enforce_max_size_with_cap_rep [OF assms(1) _ _ inserted_rep [OF assms(1,3,4,5)], of "nat MAX_QUEUE_SIZE"]
    assms(2)
  by (auto simp: enqueue_inserted no_fault_def enforce_max_size_def MAX_QUEUE_SIZE_def)

section \<open>Faults\<close>

text \<open>
  Statements fail one at a time: a failed one changes nothing, so whatever fails, the table still
  stores a list of entries.
\<close>

lemma queue_rep_fault [simp]: "queue_rep (E\<lparr>q_fault := f\<rparr>) es q \<longleftrightarrow> queue_rep E es q"
proof -
  have "encode_entry (E\<lparr>q_fault := f\<rparr>) = encode_entry E"
    by (simp add: fun_eq_iff encode_entry_def new_row_def)
  then show ?thesis by (simp add: queue_rep_def)
qed

lemma queue_env_ok_fault [simp]: "queue_env_ok (E\<lparr>q_fault := f\<rparr>) \<longleftrightarrow> queue_env_ok E"
  by (simp add: queue_env_ok_def text_env_ok_def)

lemma enforce_max_size_any:
  assumes "queue_env_ok E" "queue_rep E es q"
  shows "\<exists>es'. queue_rep E es' (fst (enforce_max_size E q)) \<and> set es' \<subseteq> set es \<and>
     (snd (enforce_max_size E q) = Inr () \<longrightarrow> length es' \<le> nat MAX_QUEUE_SIZE)"
proof (cases "q_fault E CountRows = None \<and> q_fault E DeleteOldest = None")
  case True
  then show ?thesis
    using enforce_max_size_with_cap_rep [OF assms(1) _ _ assms(2), of "nat MAX_QUEUE_SIZE"]
      trimmed_subset trimmed_length
    by (fastforce simp: enforce_max_size_def MAX_QUEUE_SIZE_def)
next
  case False
  have l: "length (q_rows q) = length es" using assms(2) by (simp add: queue_rep_def)
  have "fst (enforce_max_size E q) = q"
    "snd (enforce_max_size E q) = Inr () \<Longrightarrow> length es \<le> nat MAX_QUEUE_SIZE"
    using False
    by (auto simp: enforce_max_size_def enforce_max_size_with_cap_def Let_def l MAX_QUEUE_SIZE_def
        split: option.splits if_splits)
  with assms(2) show ?thesis by auto
qed

lemma enqueue_any:
  assumes "queue_env_ok E" "queue_rep E es q" "rfc_range now" "rfc_range (ev_occurred_at event)"
  shows "\<exists>es'. queue_rep E es' (fst (enqueue E q event now)) \<and>
     set es' \<subseteq> insert (entry_of (q_next_id q) event now) (set es) \<and>
     (snd (enqueue E q event now) = Inr () \<longrightarrow> length es' \<le> nat MAX_QUEUE_SIZE)"
proof (cases "q_fault E InsertEvent")
  case None
  have "set (appended (q_next_id q) es event now) \<subseteq> insert (entry_of (q_next_id q) event now) (set es)"
    by (auto simp: appended_def)
  with None enforce_max_size_any [OF assms(1) inserted_rep [OF assms]] show ?thesis
    by (auto simp: enqueue_inserted)
next
  case (Some e)
  with assms(2) show ?thesis by (auto simp: enqueue_inserted)
qed

lemma mark_delivered_any:
  assumes "queue_rep E es q"
  shows "\<exists>es'. queue_rep E es' (fst (mark_delivered E q i)) \<and> set es' \<subseteq> set es"
proof (cases "q_fault E DeleteById")
  case None
  from mark_delivered_rep [OF this assms, of i] show ?thesis
    by (auto intro: exI [of _ "filter (\<lambda>x. pe_id x \<noteq> i) es"])
next
  case (Some e)
  with assms show ?thesis by (auto simp: mark_delivered_def)
qed

lemma mark_delivered_by_event_id_any:
  assumes "queue_env_ok E" "queue_rep E es q"
  shows "\<exists>es'. queue_rep E es' (fst (mark_delivered_by_event_id E q u)) \<and> set es' \<subseteq> set es"
proof (cases "q_fault E DeleteByEventId")
  case None
  from mark_delivered_by_event_id_rep [OF assms(1) this assms(2), of u] show ?thesis
    by (auto intro: exI [of _ "filter (\<lambda>x. ev_id (pe_event x) \<noteq> u) es"])
next
  case (Some e)
  with assms show ?thesis by (auto simp: mark_delivered_by_event_id_def)
qed

lemma mark_failed_any:
  assumes "queue_rep E es q" "a < 2 ^ 32 - 1" "rfc_range (now + backoff_delay (of_nat (Suc a)))"
  shows "\<exists>es'. queue_rep E es' (fst (mark_failed E q i (of_nat a) now))"
proof (cases "Suc a \<ge> unat MAX_ATTEMPTS")
  case True
  with mark_delivered_any [OF assms(1), of i] show ?thesis
    by (auto simp: mark_failed_unfold [OF assms(2)])
next
  case False
  show ?thesis
  proof (cases "q_fault E UpdateAttempt")
    case (Some e)
    with False assms(1) show ?thesis by (auto simp: mark_failed_unfold [OF assms(2)])
  next
    case None
    let ?E = "E\<lparr>q_fault := (\<lambda>_. None)\<rparr>"
    have "mark_failed ?E q i (of_nat a) now = mark_failed E q i (of_nat a) now"
      using False None by (simp add: mark_failed_unfold [OF assms(2)])
    with mark_failed_rep [of ?E es q a now i] assms show ?thesis
      by (auto simp: no_fault_def)
  qed
qed

section \<open>Runs of the queue\<close>

datatype queue_op =
    OpEnqueue queued_event datetime
  | OpDelivered int
  | OpDeliveredEvent uuid
  | OpFailed int u32 datetime

text \<open>A step runs one operation while the statements in the given function fail.\<close>

type_synonym queue_faults = "queue_stmt \<Rightarrow> string option"

fun queue_step :: "queue_env \<times> event_queue \<Rightarrow> queue_faults \<times> queue_op \<Rightarrow> queue_env \<times> event_queue" where
  "queue_step (E, q) (f, OpEnqueue event now) = (E, fst (enqueue (E\<lparr>q_fault := f\<rparr>) q event now))"
| "queue_step (E, q) (f, OpDelivered i) = (E, fst (mark_delivered (E\<lparr>q_fault := f\<rparr>) q i))"
| "queue_step (E, q) (f, OpDeliveredEvent u) = (E, fst (mark_delivered_by_event_id (E\<lparr>q_fault := f\<rparr>) q u))"
| "queue_step (E, q) (f, OpFailed i a now) = (E, fst (mark_failed (E\<lparr>q_fault := f\<rparr>) q i a now))"

fun queue_op_ok :: "queue_faults \<times> queue_op \<Rightarrow> bool" where
  "queue_op_ok (f, OpEnqueue event now) \<longleftrightarrow> rfc_range now \<and> rfc_range (ev_occurred_at event)"
| "queue_op_ok (f, OpFailed i a now) \<longleftrightarrow> a \<noteq> -1 \<and> rfc_range (now + backoff_delay (a + 1))"
| "queue_op_ok (f, _) \<longleftrightarrow> True"

definition queue_inv :: "queue_env \<times> event_queue \<Rightarrow> bool" where
  "queue_inv = (\<lambda>(E, q). queue_env_ok E \<and> (\<exists>es. queue_rep E es q))"

lemma attempt_not_max:
  assumes "a \<noteq> (-1 :: u32)"
  shows "unat a < 2 ^ 32 - 1" "a = of_nat (unat a)" "a + 1 = of_nat (Suc (unat a))"
proof -
  have "unat a \<noteq> unat (-1 :: u32)" using assms by (metis unsigned_word_eqI)
  moreover have "unat (-1 :: u32) = 2 ^ 32 - 1"
    by (simp add: unsigned_minus_1_eq_mask mask_eq_exp_minus_1)
  ultimately show "unat a < 2 ^ 32 - 1" using unsigned_less [of a, where 'a = nat] by simp
qed simp_all

lemma queue_step_inv:
  assumes "queue_inv s" "queue_op_ok i"
  shows "queue_inv (queue_step s i)"
proof -
  obtain E q f op where [simp]: "s = (E, q)" "i = (f, op)" by fastforce
  from assms(1) obtain es where E: "queue_env_ok (E\<lparr>q_fault := f\<rparr>)" and
    rep: "queue_rep (E\<lparr>q_fault := f\<rparr>) es q" by (auto simp: queue_inv_def)
  show ?thesis
  proof (cases op)
    case (OpEnqueue event now)
    with enqueue_any [OF E rep, of now event] E assms(2) show ?thesis by (auto simp: queue_inv_def)
  next
    case (OpDelivered i)
    with mark_delivered_any [OF rep, of i] E show ?thesis by (auto simp: queue_inv_def)
  next
    case (OpDeliveredEvent u)
    with mark_delivered_by_event_id_any [OF E rep, of u] E show ?thesis by (auto simp: queue_inv_def)
  next
    case (OpFailed i a now)
    with assms(2) have "a \<noteq> -1" "rfc_range (now + backoff_delay (a + 1))" by simp_all
    note a = attempt_not_max [OF this(1)] and r = this(2)
    from mark_failed_any [OF rep a(1), of now i] r OpFailed E show ?thesis
      by (auto simp: queue_inv_def a(3) simp flip: a(2))
  qed
qed

lemma queue_step_env: "fst (queue_step s i) = fst s"
  by (induction s i rule: queue_step.induct) simp_all

lemma queue_run_env: "fst (foldl queue_step s ops) = fst s"
  by (induction ops arbitrary: s) (simp_all add: queue_step_env)

interpretation queue_machine: invariant_machine queue_step queue_inv queue_op_ok
  by unfold_locales (rule queue_step_inv)

section \<open>The contract of the queue\<close>

text \<open>
  What the clients of the queue rely on, over the entries it stores. \<open>lawful\<close> bounds the instants
  and rules out failing statements.
\<close>

locale event_store =
  fixes lawful :: "'env \<Rightarrow> bool"
    and good_time :: "datetime \<Rightarrow> bool"
    and cap :: nat
    and stores :: "'env \<Rightarrow> pending_entry list \<Rightarrow> 'q \<Rightarrow> bool"
    and fresh_id :: "'q \<Rightarrow> int"
    and enq :: "'env \<Rightarrow> 'q \<Rightarrow> queued_event \<Rightarrow> datetime \<Rightarrow> 'q \<times> ('e + unit)"
    and due :: "'env \<Rightarrow> 'q \<Rightarrow> datetime \<Rightarrow> nat \<Rightarrow> 'e + pending_delivery list"
    and delivered :: "'env \<Rightarrow> 'q \<Rightarrow> int \<Rightarrow> 'q \<times> ('e + unit)"
    and failed :: "'env \<Rightarrow> 'q \<Rightarrow> int \<Rightarrow> u32 \<Rightarrow> datetime \<Rightarrow> 'q \<times> ('e + unit)"
  assumes enq_stores: "lawful E \<Longrightarrow> stores E es q \<Longrightarrow> good_time now \<Longrightarrow> good_time (ev_occurred_at e) \<Longrightarrow>
      \<exists>q' es'. enq E q e now = (q', Inr ()) \<and> stores E es' q' \<and> trimmed cap (appended (fresh_id q) es e now) es'"
    and due_stored: "lawful E \<Longrightarrow> stores E es q \<Longrightarrow> good_time now \<Longrightarrow>
      \<exists>es'. mset es' = mset es \<and> due E q now limit = Inr (map delivery_of (due_entries es' now limit))"
    and delivered_stores: "lawful E \<Longrightarrow> stores E es q \<Longrightarrow>
      \<exists>q'. delivered E q i = (q', Inr ()) \<and> stores E (filter (\<lambda>x. pe_id x \<noteq> i) es) q'"
    and failed_stores: "lawful E \<Longrightarrow> stores E es q \<Longrightarrow> a < 2 ^ 32 - 1 \<Longrightarrow>
      good_time (now + backoff_delay (of_nat (Suc a))) \<Longrightarrow>
      \<exists>q'. failed E q i (of_nat a) now = (q', Inr ()) \<and> stores E (fail_entry i a now es) q'"
    and stored_ids: "stores E es q \<Longrightarrow> distinct (map pe_id es) \<and> distinct (map (\<lambda>x. ev_id (pe_event x)) es)"
    and stored_attempts: "stores E es q \<Longrightarrow> x \<in> set es \<Longrightarrow> pe_attempts x < unat MAX_ATTEMPTS"
begin

lemma enq_keeps:
  assumes "lawful E" "stores E es q" "good_time now" "good_time (ev_occurred_at e)" "length es < cap"
  shows "\<exists>q'. enq E q e now = (q', Inr ()) \<and> stores E (appended (fresh_id q) es e now) q'"
proof -
  have "length (appended (fresh_id q) es e now) \<le> cap" using assms(5) by (simp add: appended_def)
  with enq_stores [OF assms(1-4)] show ?thesis by (metis trimmed_small)
qed

lemma delivered_all:
  assumes "lawful E" "stores E es q"
  shows "stores E (filter (\<lambda>x. pe_id x \<notin> set is) es) (foldl (\<lambda>q i. fst (delivered E q i)) q is)"
  using assms(2)
proof (induction "is" arbitrary: es q)
  case Nil
  then show ?case by simp
next
  case (Cons i "is")
  from delivered_stores [OF assms(1) Cons.prems, of i] obtain q'
    where "delivered E q i = (q', Inr ())" "stores E (filter (\<lambda>x. pe_id x \<noteq> i) es) q'" by blast
  with Cons.IH [of "filter (\<lambda>x. pe_id x \<noteq> i) es" q'] show ?case
    by (simp add: conj_commute)
qed

lemma due_deliveries_stored:
  assumes "lawful E" "stores E es q" "good_time now" "due E q now limit = Inr ds" "d \<in> set ds"
  shows "\<exists>x \<in> set es. d = delivery_of x \<and> pe_next x \<le> now \<and> unat (pd_attempt_count d) = pe_attempts x"
proof -
  from due_stored [OF assms(1-3), of limit] assms(4) obtain es'
    where es': "mset es' = mset es" "ds = map delivery_of (due_entries es' now limit)" by auto
  with assms(5) obtain x where x: "x \<in> set (due_entries es' now limit)" "d = delivery_of x" by auto
  then have "x \<in> set es'" "pe_next x \<le> now"
    by (auto simp: due_entries_def dest!: in_set_takeD)
  moreover from this es'(1) have xs: "x \<in> set es" by (metis mset_eq_setD)
  moreover from stored_attempts [OF assms(2) xs] have "unat (of_nat (pe_attempts x) :: u32) = pe_attempts x"
    by (simp add: unat_of_nat MAX_ATTEMPTS_def)
  ultimately show ?thesis using x(2) by (auto simp: delivery_of_def)
qed

end

definition queue_lawful :: "queue_env \<Rightarrow> bool" where
  "queue_lawful E \<longleftrightarrow> queue_env_ok E \<and> no_fault E"

interpretation sqlite_queue: event_store queue_lawful rfc_range "nat MAX_QUEUE_SIZE" queue_rep
  q_next_id enqueue due_batch mark_delivered mark_failed
proof unfold_locales
  fix E es q now and e :: queued_event
  assume "queue_lawful E" "queue_rep E es q" "rfc_range now" "rfc_range (ev_occurred_at e)"
  then show "\<exists>q' es'. enqueue E q e now = (q', Inr ()) \<and> queue_rep E es' q' \<and>
      trimmed (nat MAX_QUEUE_SIZE) (appended (q_next_id q) es e now) es'"
    by (intro enqueue_rep) (simp_all add: queue_lawful_def)
next
  fix E es q i
  assume "queue_lawful E" "queue_rep E es q"
  then show "\<exists>q'. mark_delivered E q i = (q', Inr ()) \<and> queue_rep E (filter (\<lambda>x. pe_id x \<noteq> i) es) q'"
    by (intro mark_delivered_rep) (simp_all add: queue_lawful_def no_fault_def)
next
  fix E es q i a now
  assume "queue_lawful E" "queue_rep E es q" "a < 2 ^ 32 - 1" "rfc_range (now + backoff_delay (of_nat (Suc a)))"
  then show "\<exists>q'. mark_failed E q i (of_nat a) now = (q', Inr ()) \<and> queue_rep E (fail_entry i a now es) q'"
    by (intro mark_failed_rep) (simp_all add: queue_lawful_def)
next
  fix E es q now limit
  assume "queue_lawful E" "queue_rep E es q" "rfc_range now"
  then show "\<exists>es'. mset es' = mset es \<and> due_batch E q now limit = Inr (map delivery_of (due_entries es' now limit))"
    by (intro due_batch_rep) (simp_all add: queue_lawful_def no_fault_def)
qed (auto simp: queue_rep_def list_all_iff entry_ok_def)

section \<open>A concrete environment\<close>

definition serial_json :: "json_value serial" where
  "serial_json = serial_iso
     (\<lambda>v. case v of JNumber i \<Rightarrow> (0, i, []) | JString t \<Rightarrow> (1, 0, t))
     (\<lambda>(k, i, t). if k = 0 then JNumber i else JString t)
     (serial_prod serial_nat (serial_prod serial_int serial_string))"

definition serial_payload :: "payload serial" where
  "serial_payload = serial_iso sorted_list_of_fmap fmap_of_list (serial_list (serial_prod serial_string serial_json))"

definition all_event_types :: "event_type list" where
  "all_event_types =
     [AgentStarted, AgentStopping, AgentError, ControllerDiscoveryStarted, ControllerDiscovered,
      ControllerDiscoveryFailed, ControllerConnected, ControllerDisconnected, RegistrationSucceeded,
      RegistrationFailed, HeartbeatSent, UserLogon, UserLogoff, UserLock, UserUnlock, Active, Inactive,
      SessionConnected, SessionDisconnected, SystemBoot, SystemShutdown, SystemSuspend, SystemResume,
      SystemTimeChanged, TimeZoneChanged, IdleStarted, IdleEnded, SupervisoryWarning, PolicyViolation,
      PowerActionRequested, PowerActionCompleted, PowerActionFailed]"

definition sample_queue_env :: queue_env where
  "sample_queue_env =
     \<lparr> uuid_to_string = uuid_to_string sample_text_env,
       uuid_parse_str = uuid_parse_str sample_text_env,
       to_rfc3339 = to_rfc3339 sample_text_env,
       parse_rfc3339 = parse_rfc3339 sample_text_env,
       type_codec = codec_of (serial_enum all_event_types),
       severity_codec = codec_of (serial_enum [Info, Warning, Error, Critical]),
       source_codec = codec_of (serial_enum [SourceAgent, SourceController]),
       payload_codec = codec_of serial_payload,
       q_scan = (\<lambda>rs. rs),
       q_fault = (\<lambda>_. None) \<rparr>"

lemma serial_json_ok [simp]: "serial_ok serial_json"
  unfolding serial_json_def by (rule serial_iso_ok) (auto split: json_value.splits)

lemma serial_payload_ok [simp]: "serial_ok serial_payload"
  unfolding serial_payload_def by (rule serial_iso_ok) (auto intro: fmap_ext simp: fmlookup_of_list)

lemma serial_event_type_ok: "serial_ok (serial_enum all_event_types)"
proof (rule serial_enum_ok)
  fix v :: event_type
  show "v \<in> set all_event_types" by (cases v) (simp_all add: all_event_types_def)
qed

lemma sample_queue_lawful: "queue_lawful sample_queue_env"
proof -
  have "serial_ok (serial_enum [Info, Warning, Error, Critical])"
    by (rule serial_enum_ok) (metis event_severity.exhaust list.set_intros)
  moreover have "serial_ok (serial_enum [SourceAgent, SourceController])"
    by (rule serial_enum_ok) (metis event_source.exhaust list.set_intros)
  moreover have "text_env_ok sample_queue_env"
    using sample_text_env_ok by (simp add: text_env_ok_def sample_queue_env_def)
  ultimately show ?thesis
    by (simp add: queue_lawful_def queue_env_ok_def no_fault_def sample_queue_env_def codec_of_ok
        serial_event_type_ok)
qed

lemmas sample_queue_ok =
  sample_queue_lawful
  sample_queue_lawful [unfolded queue_lawful_def, THEN conjunct1]
  sample_queue_lawful [unfolded queue_lawful_def, THEN conjunct2]

lemma rfc_range_sample [simp]: "rfc_range 0"
  by (simp add: rfc_range_def rfc_min_def rfc_end_def seconds_def)

definition sample_event :: "uuid \<Rightarrow> queued_event" where
  "sample_event u =
     \<lparr> ev_id = u, ev_type = UserLogon, ev_occurred_at = 0, ev_severity = Info, ev_source = SourceAgent,
       ev_session_id = None, ev_username = Some ''kid'', ev_data = fmempty \<rparr>"

definition sample_queue :: event_queue where
  "sample_queue = inserted sample_queue_env queue_init (sample_event 7) 0"

lemma sample_queue_rep: "queue_rep sample_queue_env [entry_of 1 (sample_event 7) 0] sample_queue"
  using inserted_rep [OF sample_queue_ok(2) queue_rep_init, of 0 "sample_event 7"]
  by (simp add: sample_queue_def appended_def event_ids_def sample_event_def queue_init_def)

section \<open>Properties\<close>

text \<open>
  Property C16. A query of the queue returns exactly what is due: it succeeds whatever was stored (no
  stored column fails to parse), every returned delivery is a stored event, with the event and
  the attempt count it was stored with, the list is ordered by creation, holds no event twice and
  as many as the limit allows, and an event that is due and left out is no older than any that is
  returned.
\<close>

theorem due_batch_exact:
  assumes "queue_lawful E" "queue_rep E es q" "rfc_range now"
  shows "\<exists>xs. due_batch E q now limit = Inr (map delivery_of xs) \<and>
     distinct xs \<and> set xs \<subseteq> {x \<in> set es. pe_next x \<le> now} \<and> sorted (map pe_created xs) \<and>
     length xs = min limit (length (filter (\<lambda>x. pe_next x \<le> now) es)) \<and>
     (\<forall>x \<in> set es. pe_next x \<le> now \<and> x \<notin> set xs \<longrightarrow> (\<forall>y \<in> set xs. pe_created y \<le> pe_created x))"
proof -
  from sqlite_queue.due_stored [OF assms, of limit] obtain es' where perm: "mset es' = mset es"
    and due: "due_batch E q now limit = Inr (map delivery_of (due_entries es' now limit))" by blast
  let ?due = "filter (\<lambda>x. pe_next x \<le> now) es'" and ?xs = "due_entries es' now limit"
  have len: "length ?due = length (filter (\<lambda>x. pe_next x \<le> now) es)"
    using perm by (metis mset_filter size_mset)
  have "distinct es'"
    using sqlite_queue.stored_ids [OF assms(2)] perm by (metis distinct_map mset_eq_imp_distinct_iff)
  then have "distinct ?xs" by (simp add: due_entries_def)
  moreover have "set ?xs \<subseteq> {x \<in> set es. pe_next x \<le> now}"
  proof -
    have "set ?xs \<subseteq> set (sort_key pe_created ?due)" unfolding due_entries_def by (rule set_take_subset)
    with set_scan [OF perm] show ?thesis by simp
  qed
  moreover have "sorted (map pe_created ?xs)"
    unfolding due_entries_def take_map [symmetric] by (intro sorted_wrt_take sorted_sort_key)
  moreover have "length ?xs = min limit (length (filter (\<lambda>x. pe_next x \<le> now) es))"
    by (simp add: due_entries_def len min.commute)
  moreover have "pe_created y \<le> pe_created x"
    if "x \<in> set es" "pe_next x \<le> now" "x \<notin> set ?xs" "y \<in> set ?xs" for x y
  proof -
    have "x \<in> set (sort_key pe_created ?due)" using that set_scan [OF perm] by simp
    then have "x \<in> set (drop limit (sort_key pe_created ?due))"
      using that(3) unfolding due_entries_def by (metis append_take_drop_id set_append Un_iff)
    with that(4) show ?thesis unfolding due_entries_def by (intro take_sort_key_le)
  qed
  ultimately show ?thesis using due by blast
qed

theorem due_batch_exact_witness:
  "\<exists>xs. due_batch sample_queue_env sample_queue 0 5 = Inr (map delivery_of xs) \<and>
     length xs = 1 \<and> set xs \<subseteq> {entry_of 1 (sample_event 7) 0}"
  using due_batch_exact [OF sample_queue_ok(1) sample_queue_rep rfc_range_sample, of 5] by auto

text \<open>
  Property C15. Enqueueing persists the event before anything else happens to it: the call succeeds, an
  event whose identifier is already stored changes nothing, otherwise the event is appended with no
  attempt made, due at once. Past 5000 rows only rows no newer than every kept one are
  evicted, and an event newer than all the stored ones is itself kept.
\<close>

theorem enqueue_durable:
  assumes "queue_lawful E" "queue_rep E es q" "rfc_range now" "rfc_range (ev_occurred_at event)"
    "length es \<le> 5000"
  shows "\<exists>q' es'. enqueue E q event now = (q', Inr ()) \<and> queue_rep E es' q' \<and> length es' \<le> 5000 \<and>
     (ev_id event \<in> event_ids es \<longrightarrow> es' = es) \<and>
     (ev_id event \<notin> event_ids es \<longrightarrow>
        (length es < 5000 \<longrightarrow> es' = es @ [entry_of (q_next_id q) event now]) \<and>
        set es' \<subseteq> insert (entry_of (q_next_id q) event now) (set es) \<and>
        (\<forall>x \<in> set es - set es'. \<forall>y \<in> set es'. pe_created x \<le> pe_created y) \<and>
        ((\<forall>x \<in> set es. pe_created x < now) \<longrightarrow> entry_of (q_next_id q) event now \<in> set es'))"
proof -
  let ?new = "entry_of (q_next_id q) event now"
  let ?app = "appended (q_next_id q) es event now"
  from sqlite_queue.enq_stores [OF assms(1-4)] obtain q' es' where
    q': "enqueue E q event now = (q', Inr ())" "queue_rep E es' q'" and t: "trimmed 5000 ?app es'"
    by (auto simp: MAX_QUEUE_SIZE_def)
  have small: "length ?app \<le> 5000 \<Longrightarrow> es' = ?app" using trimmed_small [OF t] .
  from t obtain gone where gone: "es' = filter (\<lambda>x. x \<notin> gone) ?app"
    "\<forall>x \<in> set ?app. \<forall>y \<in> set es'. x \<in> gone \<longrightarrow> pe_created x \<le> pe_created y"
    by (auto simp: trimmed_def)
  have "?new \<in> set es'" if fresh: "ev_id event \<notin> event_ids es" and newest: "\<forall>x \<in> set es. pe_created x < now"
  proof (rule ccontr)
    assume out: "?new \<notin> set es'"
    with fresh gone have "\<forall>y \<in> set es'. now \<le> pe_created y" "set es' \<subseteq> set es"
      by (auto simp: appended_def)
    with newest have "set es' = {}" by (metis all_not_in_conv not_less subsetD)
    moreover have "length es' = min 5000 (length ?app)" by (rule trimmed_length [OF t])
    ultimately show False using fresh by (simp add: appended_def)
  qed
  moreover have "length es' \<le> 5000" using trimmed_length [OF t] by simp
  moreover have "\<forall>x \<in> set es - set es'. \<forall>y \<in> set es'. pe_created x \<le> pe_created y"
    if "ev_id event \<notin> event_ids es"
    using gone that by (auto simp: appended_def)
  ultimately show ?thesis
    using q' small trimmed_subset [OF t] assms(5)
    by (intro exI [of _ q'] exI [of _ es'] conjI) (auto simp: appended_def)
qed

theorem enqueue_durable_witness:
  "\<exists>q' es'. enqueue sample_queue_env queue_init (sample_event 7) 0 = (q', Inr ()) \<and>
     queue_rep sample_queue_env es' q' \<and> es' = [entry_of 1 (sample_event 7) 0]"
  using enqueue_durable [OF sample_queue_ok(1) queue_rep_init rfc_range_sample, of "sample_event 7"]
  by (auto simp: sample_event_def event_ids_def queue_init_def)

text \<open>An event retried again and again: the agent passes the attempt count it read.\<close>

fun fail_run :: "queue_env \<Rightarrow> event_queue \<Rightarrow> int \<Rightarrow> u32 \<Rightarrow> datetime list \<Rightarrow> event_queue" where
  "fail_run E q i a [] = q"
| "fail_run E q i a (t # ts) = fail_run E (fst (mark_failed E q i a t)) i (a + 1) ts"

lemma length_backoff: "length BACKOFF_SCHEDULE_SECONDS - 1 = 5"
  by (simp add: BACKOFF_SCHEDULE_SECONDS_def)

lemma backoff_delay_nth:
  "a < 2 ^ 32 - 1 \<Longrightarrow> backoff_delay (of_nat (Suc a)) = seconds (BACKOFF_SCHEDULE_SECONDS ! min a 5)"
  unfolding backoff_delay_def attempts_word(2) length_backoff Let_def by simp

lemma nth_backoff: "k \<le> 5 \<Longrightarrow> BACKOFF_SCHEDULE_SECONDS ! k = (if k = 0 then 10 else if k = 1 then 30
    else if k = 2 then 60 else if k = 3 then 300 else if k = 4 then 900 else 1800)"
  by (auto simp: BACKOFF_SCHEDULE_SECONDS_def nth_Cons split: nat.splits)

lemma backoff_delay_bounds:
  assumes "a < 2 ^ 32 - 1"
  shows "seconds 10 \<le> backoff_delay (of_nat (Suc a))" "backoff_delay (of_nat (Suc a)) \<le> seconds 1800"
  unfolding backoff_delay_nth [OF assms] by (simp_all add: nth_backoff)

lemma rfc_range_add:
  "rfc_range t \<Longrightarrow> rfc_range (t + b) \<Longrightarrow> 0 \<le> d \<Longrightarrow> d \<le> b \<Longrightarrow> rfc_range (t + d)"
  by (auto simp: rfc_range_def)

lemma backoff_delay_range:
  assumes "a < 2 ^ 32 - 1" "rfc_range t" "rfc_range (t + seconds 1800)"
  shows "rfc_range (t + backoff_delay (of_nat (Suc a)))"
proof -
  have "0 \<le> seconds 10" by (simp add: seconds_def)
  then have "0 \<le> backoff_delay (of_nat (Suc a))" using backoff_delay_bounds(1) [OF assms(1)] by (rule order_trans)
  then show ?thesis by (rule rfc_range_add [OF assms(2,3) _ backoff_delay_bounds(2) [OF assms(1)]])
qed

text \<open>The other entries keep their place when one is retried.\<close>

lemma fail_entry_others:
  "filter (\<lambda>x. pe_id x \<noteq> i) (fail_entry i a now es) = filter (\<lambda>x. pe_id x \<noteq> i) es"
  by (induction es) (auto simp: fail_entry_def)

lemma fail_run_keeps:
  assumes "no_fault E" "queue_rep E es q" "\<forall>t \<in> set ts. rfc_range t \<and> rfc_range (t + seconds 1800)"
    "x \<in> set es" "pe_attempts x = a" "a + length ts < unat MAX_ATTEMPTS"
  shows "\<exists>es'. queue_rep E es' (fail_run E q (pe_id x) (of_nat a) ts) \<and>
     filter (\<lambda>y. pe_id y \<noteq> pe_id x) es' = filter (\<lambda>y. pe_id y \<noteq> pe_id x) es \<and>
     x\<lparr>pe_attempts := a + length ts,
       pe_next := (if ts = [] then pe_next x else last ts + backoff_delay (of_nat (a + length ts)))\<rparr> \<in> set es'"
  using assms(2-)
proof (induction ts arbitrary: es q x a)
  case Nil
  then show ?case by (intro exI [of _ es]) auto
next
  case (Cons t ts)
  have a: "a < 2 ^ 32 - 1" "Suc a < unat MAX_ATTEMPTS" using Cons.prems(5) by (simp_all add: MAX_ATTEMPTS_def)
  have r: "rfc_range (t + backoff_delay (of_nat (Suc a)))"
    using Cons.prems(2) by (intro backoff_delay_range [OF a(1)]) simp_all
  let ?x = "x\<lparr>pe_attempts := Suc a, pe_next := t + backoff_delay (of_nat (Suc a))\<rparr>"
  let ?es = "fail_entry (pe_id x) a t es"
  have rep: "queue_rep E ?es (fst (mark_failed E q (pe_id x) (of_nat a) t))"
    using mark_failed_rep [OF assms(1) Cons.prems(1) a(1) r, of "pe_id x"] by auto
  have mem: "?x \<in> set ?es"
    using Cons.prems(3) a(2) unfolding fail_entry_def by (simp del: of_nat_Suc)
  have "\<exists>es'. queue_rep E es' (fail_run E (fst (mark_failed E q (pe_id x) (of_nat a) t)) (pe_id ?x) (of_nat (Suc a)) ts) \<and>
     filter (\<lambda>y. pe_id y \<noteq> pe_id ?x) es' = filter (\<lambda>y. pe_id y \<noteq> pe_id ?x) ?es \<and>
     ?x\<lparr>pe_attempts := Suc a + length ts,
       pe_next := (if ts = [] then pe_next ?x else last ts + backoff_delay (of_nat (Suc a + length ts)))\<rparr> \<in> set es'"
    by (rule Cons.IH [OF rep]) (use Cons.prems mem in \<open>auto simp del: of_nat_Suc\<close>)
  moreover have "(of_nat a + 1 :: u32) = of_nat (Suc a)" by simp
  moreover have "a + length (t # ts) = Suc a + length ts" by simp
  ultimately show ?case
    by (cases "ts = []") (simp_all add: fail_entry_others del: of_nat_Suc)
qed

lemma fail_run_append:
  "fail_run E q i a (ts @ us) = fail_run E (fail_run E q i a ts) i (a + of_nat (length ts)) us"
  by (induction ts arbitrary: q a) (simp_all add: ac_simps)

text \<open>
  Property C17. A delivery that keeps failing is retried 47 times and then given up: after fewer than
  48 failures the event is still stored, unchanged but for its attempt count and its next
  attempt, which is the last failure plus the delay of the schedule (10 s, 30 s, 1, 5, 15, then 30 minutes); the 48th failure
  removes it, and no failure touches any other event.
\<close>

theorem failed_event_retried_then_discarded:
  assumes "queue_lawful E" "queue_rep E es q" "x \<in> set es" "pe_attempts x = 0"
    "\<forall>t \<in> set ts. rfc_range t \<and> rfc_range (t + seconds 1800)" "length ts \<le> 48"
  shows "\<exists>es'. queue_rep E es' (fail_run E q (pe_id x) 0 ts) \<and>
     filter (\<lambda>y. pe_id y \<noteq> pe_id x) es' = filter (\<lambda>y. pe_id y \<noteq> pe_id x) es \<and>
     (if length ts = 48 then pe_id x \<notin> pe_id ` set es'
      else x\<lparr>pe_attempts := length ts,
             pe_next := (if ts = [] then pe_next x
               else last ts + seconds (BACKOFF_SCHEDULE_SECONDS ! min (length ts - 1) 5))\<rparr> \<in> set es')"
proof (cases "length ts = 48")
  case False
  then have "0 + length ts < unat MAX_ATTEMPTS" using assms(6) by (simp add: MAX_ATTEMPTS_def)
  moreover have "backoff_delay (of_nat (length ts)) = seconds (BACKOFF_SCHEDULE_SECONDS ! min (length ts - 1) 5)"
    if "ts \<noteq> []"
    using that assms(6) backoff_delay_nth [of "length ts - 1"] by (simp del: of_nat_Suc)
  ultimately show ?thesis
    using False fail_run_keeps [of E es q ts x 0] assms
    by (cases "ts = []") (simp_all add: queue_lawful_def)
next
  case True
  then obtain us t where ts: "ts = us @ [t]" "length us = 47"
    by (cases ts rule: rev_cases) simp_all
  have "0 + length us < unat MAX_ATTEMPTS" using ts by (simp add: MAX_ATTEMPTS_def)
  with fail_run_keeps [of E es q us x 0] assms ts obtain es1 where
    es1: "queue_rep E es1 (fail_run E q (pe_id x) 0 us)"
      "filter (\<lambda>y. pe_id y \<noteq> pe_id x) es1 = filter (\<lambda>y. pe_id y \<noteq> pe_id x) es"
    by (auto simp: queue_lawful_def)
  have "rfc_range (t + backoff_delay (of_nat (Suc 47)))"
    using assms(5) ts by (intro backoff_delay_range) simp_all
  from sqlite_queue.failed_stores [OF assms(1) es1(1) _ this, of "pe_id x"]
  have "queue_rep E (fail_entry (pe_id x) 47 t es1) (fail_run E q (pe_id x) 0 ts)"
    by (auto simp: ts fail_run_append)
  moreover have "pe_id x \<notin> pe_id ` set (fail_entry (pe_id x) 47 t es1)"
    by (auto simp: fail_entry_def MAX_ATTEMPTS_def)
  ultimately show ?thesis using True es1(2) fail_entry_others [of "pe_id x" 47 t es1] by auto
qed

theorem failed_event_retried_then_discarded_witness:
  "\<exists>es'. queue_rep sample_queue_env es' (fail_run sample_queue_env sample_queue 1 0 (replicate 48 0)) \<and>
     1 \<notin> pe_id ` set es'"
proof -
  have "rfc_range (seconds 1800)" by (simp add: rfc_range_def rfc_min_def rfc_end_def seconds_def)
  then show ?thesis
    using failed_event_retried_then_discarded [OF sample_queue_ok(1) sample_queue_rep,
        of "entry_of 1 (sample_event 7) 0" "replicate 48 0"]
    by auto
qed

text \<open>
  The retry delays never shrink, stay between 10 seconds and 30 minutes, and the 47
  delays an undeliverable event goes through add up to 76900 seconds, a little over 21 hours: the
  "roughly a day" of the comment on \<^verbatim>\<open>MAX_ATTEMPTS\<close>.
\<close>

theorem backoff_delay_schedule:
  "(\<forall>a b. a \<le> b \<longrightarrow> backoff_delay a \<le> backoff_delay b) \<and>
   (\<forall>a. seconds 10 \<le> backoff_delay a \<and> backoff_delay a \<le> seconds 1800) \<and>
   (\<Sum>k \<leftarrow> [1..<unat MAX_ATTEMPTS]. backoff_delay (of_nat k)) = seconds 76900"
proof (intro conjI allI impI)
  have d: "backoff_delay a = seconds (BACKOFF_SCHEDULE_SECONDS ! min (unat a - 1) 5)" for a
    unfolding backoff_delay_def length_backoff Let_def by simp
  have m: "BACKOFF_SCHEDULE_SECONDS ! min m 5 \<le> BACKOFF_SCHEDULE_SECONDS ! min n 5" if "m \<le> n" for m n
    using that by (auto simp: nth_backoff)
  show "backoff_delay a \<le> backoff_delay b" if "a \<le> b" for a b
    using m [of "unat a - 1" "unat b - 1"] that by (simp add: d word_le_nat_alt diff_le_mono)
  show "seconds 10 \<le> backoff_delay a" "backoff_delay a \<le> seconds 1800" for a
    by (simp_all add: d nth_backoff)
  have "backoff_delay (of_nat k) = seconds (BACKOFF_SCHEDULE_SECONDS ! min (k - 1) 5)" if "k \<in> set [1..<48]" for k
  proof -
    have "k - 1 < 2 ^ 32 - 1" using that by simp linarith
    from backoff_delay_nth [OF this] that show ?thesis by (simp del: of_nat_Suc)
  qed
  then have "map (\<lambda>k. backoff_delay (of_nat k)) [1..<48] = map (\<lambda>k. seconds (BACKOFF_SCHEDULE_SECONDS ! min (k - 1) 5)) [1..<48]"
    by (intro map_cong) auto
  then show "(\<Sum>k \<leftarrow> [1..<unat MAX_ATTEMPTS]. backoff_delay (of_nat k)) = seconds 76900"
    by (simp add: MAX_ATTEMPTS_def nth_backoff seconds_def upt_conv_Cons)
qed

theorem backoff_delay_schedule_witness:
  "backoff_delay 3 \<le> backoff_delay 40"
  using backoff_delay_schedule by auto

text \<open>
  Property C18. Whatever sequence of operations is run on a new queue, and whichever statements
  fail on the way, the table stays well formed: the rows still store a list of events
  with distinct identifiers and fewer than 48 attempts each, so reading it never
  panics on a stored value and never fails to deserialise one. Only SQLite itself can make a
  query fail.
\<close>

theorem queue_runs_safe:
  assumes "queue_env_ok E" "list_all queue_op_ok ops" "rfc_range now"
    "foldl queue_step (E, queue_init) ops = (E', q)"
  shows "(\<exists>es. queue_rep E es q) \<and>
     (case due_batch (E\<lparr>q_fault := f\<rparr>) q now limit of
        Inl err \<Rightarrow> (\<exists>e. f SelectDue = Some e \<and> err = QueueSqlite e)
      | Inr ds \<Rightarrow> f SelectDue = None \<and> length ds \<le> limit)"
proof -
  have E': "E' = E" using queue_run_env [of "(E, queue_init)" ops] assms(4) by simp
  have "queue_inv (E, queue_init)" using assms(1) queue_rep_init by (auto simp: queue_inv_def)
  from queue_machine.run_inv [OF this assms(2)] obtain es where rep: "queue_rep E es q"
    by (auto simp: assms(4) E' queue_inv_def)
  show ?thesis
  proof (cases "f SelectDue")
    case None
    with due_batch_rep [of "E\<lparr>q_fault := f\<rparr>" es q now limit] assms(1,3) rep show ?thesis
      by (auto simp: due_entries_def)
  next
    case (Some e)
    with rep show ?thesis by (auto simp: due_batch_def)
  qed
qed

theorem queue_runs_safe_witness:
  "\<exists>es. queue_rep sample_queue_env es
     (snd (foldl queue_step (sample_queue_env, queue_init)
        [(\<lambda>s. if s = CountRows then Some ''disk I/O error'' else None, OpEnqueue (sample_event 7) 0),
         (\<lambda>_. None, OpDeliveredEvent 7)]))"
  using queue_runs_safe [OF sample_queue_ok(2), of "[(\<lambda>s. if s = CountRows then Some ''disk I/O error'' else None,
      OpEnqueue (sample_event 7) 0), (\<lambda>_. None, OpDeliveredEvent 7)]" 0]
  by (auto simp: sample_event_def)

end
