(* ===== verification/Recorder.thy ===== *)
theory Recorder
  imports Store Queue
begin

text \<open>
  \<^verbatim>\<open>UsageRecorder\<close> of \<^verbatim>\<open>agent/src/lib.rs\<close>: it feeds platform notifications to the tracker, writes
  the sessions that start and end to the store, keeps the snapshot the heartbeats read, and reports
  every notification through the event queue. A call takes the values it draws from outside
  (\<^verbatim>\<open>Uuid::new_v4()\<close>, \<^verbatim>\<open>Utc::now()\<close>) as a record; \<open>first_value\<close> is
  \<^verbatim>\<open>values().next()\<close> of a \<^verbatim>\<open>HashMap\<close>, whose iteration order the language leaves open. Every
  early return through \<^verbatim>\<open>?\<close> keeps the state changes made before it.
\<close>

section \<open>Data\<close>

record session_snapshot =
  sn_username :: "string option"
  sn_state :: string

definition default_snapshot :: session_snapshot where
  "default_snapshot = \<lparr> sn_username = None, sn_state = ''NO_SESSION'' \<rparr>"

record usage_recorder =
  r_tracker :: usage_tracker
  r_store :: store
  r_open_session_id :: "uuid option"
  r_event_queue :: "event_queue option"
  r_session_usernames :: "(session_id, string) fmap"
  r_snapshot :: session_snapshot

record recorder_env =
  re_store :: store_env
  re_queue :: queue_env
  first_value :: "(session_id, string) fmap \<Rightarrow> string option"

record call_values =
  new_session_id :: uuid
  new_event_id :: uuid
  new_activity_id :: uuid
  clock_now :: datetime

definition first_value_ok :: "recorder_env \<Rightarrow> bool" where
  "first_value_ok E \<longleftrightarrow>
     (\<forall>m. case first_value E m of None \<Rightarrow> m = fmempty | Some v \<Rightarrow> v |\<in>| fmran m)"

section \<open>Operations\<close>

definition from_store :: "recorder_env \<Rightarrow> store \<Rightarrow> store_error + usage_recorder" where
  "from_store E st =
     (case find_dangling_session (re_store E) st of
        Inl e \<Rightarrow> Inl e
      | Inr found \<Rightarrow>
          (let (tracker, open_session_id) =
             (case found of
                Some (sid, started_at) \<Rightarrow> (resume_open_session started_at, Some sid)
              | None \<Rightarrow> (tracker_new, None))
           in Inr \<lparr> r_tracker = tracker, r_store = st, r_open_session_id = open_session_id,
                r_event_queue = None, r_session_usernames = fmempty, r_snapshot = default_snapshot \<rparr>))"

definition recorder_open :: "recorder_env \<Rightarrow> open_faults \<Rightarrow> store option \<Rightarrow> store option \<times> (store_error + usage_recorder)" where
  "recorder_open E f stored =
     (case store_open f stored of
        (stored', Inl e) \<Rightarrow> (stored', Inl e)
      | (stored', Inr st) \<Rightarrow> (stored', from_store E st))"

definition with_event_queue :: "event_queue \<Rightarrow> usage_recorder \<Rightarrow> usage_recorder" where
  "with_event_queue q r = r\<lparr>r_event_queue := Some q\<rparr>"

definition refresh_snapshot :: "recorder_env \<Rightarrow> session_event \<Rightarrow> usage_recorder \<Rightarrow> usage_recorder" where
  "refresh_snapshot E event r =
     (let username = first_value E (r_session_usernames r);
          state = (if is_active (r_tracker r) \<and> username \<noteq> None then ''ACTIVE''
                   else if is_active (r_tracker r) then ''LOCKED''
                   else (case event of
                           Suspend \<Rightarrow> ''SUSPENDED''
                         | Logoff _ \<Rightarrow> ''NO_SESSION''
                         | Lock _ \<Rightarrow> ''LOCKED''
                         | ConsoleDisconnect _ \<Rightarrow> ''DISCONNECTED''
                         | RemoteDisconnect _ \<Rightarrow> ''DISCONNECTED''
                         | _ \<Rightarrow> ''NO_SESSION''))
      in r\<lparr>r_snapshot := \<lparr> sn_username = username, sn_state = state \<rparr>\<rparr>)"

definition repeated_logon :: "usage_tracker \<Rightarrow> session_event \<Rightarrow> bool" where
  "repeated_logon t event \<longleftrightarrow> (case event of Logon sid \<Rightarrow> is_logged_on t sid | _ \<Rightarrow> False)"

definition remember_username :: "session_event \<Rightarrow> string option \<Rightarrow> usage_recorder \<Rightarrow> usage_recorder" where
  "remember_username event username r =
     (case (event_session_id event, username) of
        (Some sid, Some name) \<Rightarrow> r\<lparr>r_session_usernames := fmupd sid name (r_session_usernames r)\<rparr>
      | _ \<Rightarrow> r)"

definition known_username :: "session_event \<Rightarrow> usage_recorder \<Rightarrow> string option" where
  "known_username event r = Option.bind (event_session_id event) (fmlookup (r_session_usernames r))"

definition persist_transition ::
  "recorder_env \<Rightarrow> call_values \<Rightarrow> transition \<Rightarrow> usage_recorder \<Rightarrow> usage_recorder \<times> (store_error + unit)" where
  "persist_transition E c tr r =
     (case tr of
        Started start \<Rightarrow>
          (case start_session (re_store E) (new_session_id c) (r_store r) start of
             (st, Inl e) \<Rightarrow> (r\<lparr>r_store := st\<rparr>, Inl e)
           | (st, Inr sid) \<Rightarrow> (r\<lparr>r_store := st, r_open_session_id := Some sid\<rparr>, Inr ()))
      | Ended rec \<Rightarrow>
          (case r_open_session_id r of
             Some sid \<Rightarrow>
               (case end_session (re_store E) (r_store r) sid (rec_end rec) (rec_end_reason rec) of
                  (st, res) \<Rightarrow> (r\<lparr>r_store := st, r_open_session_id := None\<rparr>, res))
           | None \<Rightarrow>
               (case insert_closed_session (re_store E) (new_session_id c) (r_store r) rec of
                  (st, Inl e) \<Rightarrow> (r\<lparr>r_store := st\<rparr>, Inl e)
                | (st, Inr _) \<Rightarrow> (r\<lparr>r_store := st\<rparr>, Inr ())))
      | NoChange \<Rightarrow> (r, Inr ()))"

definition forget_username :: "session_event \<Rightarrow> usage_recorder \<Rightarrow> usage_recorder" where
  "forget_username event r =
     (case event of
        Logoff sid \<Rightarrow> r\<lparr>r_session_usernames := fmdrop sid (r_session_usernames r)\<rparr>
      | _ \<Rightarrow> r)"

fun activity_transition :: "transition \<Rightarrow> session_event \<Rightarrow> bool option" where
  "activity_transition (Started _) _ = Some True"
| "activity_transition (Ended _) (Logoff _) = None"
| "activity_transition (Ended _) _ = Some False"
| "activity_transition NoChange _ = None"

text \<open>An enqueue that fails is logged and otherwise ignored.\<close>

definition report_event ::
  "recorder_env \<Rightarrow> call_values \<Rightarrow> session_event \<Rightarrow> string option \<Rightarrow> transition \<Rightarrow> datetime \<Rightarrow>
   usage_recorder \<Rightarrow> usage_recorder" where
  "report_event E c event event_username tr now r =
     (case r_event_queue r of
        None \<Rightarrow> r
      | Some q \<Rightarrow>
          (let queued = from_session_event (new_event_id c) (clock_now c) event event_username;
               q1 = fst (enqueue (re_queue E) q queued now);
               q2 = (case activity_transition tr event of
                       None \<Rightarrow> q1
                     | Some active \<Rightarrow>
                         fst (enqueue (re_queue E) q1
                           (activity_event (new_activity_id c) (clock_now c) active now event_username) now))
           in r\<lparr>r_event_queue := Some q2\<rparr>))"

definition handle_at ::
  "recorder_env \<Rightarrow> call_values \<Rightarrow> session_event \<Rightarrow> string option \<Rightarrow> datetime \<Rightarrow> usage_recorder \<Rightarrow>
   usage_recorder \<times> (store_error + unit)" where
  "handle_at E c event username now r =
     (if repeated_logon (r_tracker r) event then (r, Inr ())
      else
        (let r1 = remember_username event username r;
             event_username = known_username event r1;
             (tracker, tr) = apply_event (r_tracker r1) event now
         in case persist_transition E c tr (r1\<lparr>r_tracker := tracker\<rparr>) of
              (r2, Inl e) \<Rightarrow> (r2, Inl e)
            | (r2, Inr _) \<Rightarrow>
                (report_event E c event event_username tr now
                   (refresh_snapshot E event (forget_username event r2)), Inr ())))"

definition handle ::
  "recorder_env \<Rightarrow> call_values \<Rightarrow> session_event \<Rightarrow> string option \<Rightarrow> usage_recorder \<Rightarrow>
   usage_recorder \<times> (store_error + unit)" where
  "handle E c event username r = handle_at E c event username (clock_now c) r"

definition shutdown :: "recorder_env \<Rightarrow> call_values \<Rightarrow> usage_recorder \<Rightarrow> usage_recorder \<times> (store_error + unit)" where
  "shutdown E c r =
     (let (tracker, closed) = close_session (clock_now c) EndAgentShutdown (r_tracker r);
          r1 = r\<lparr>r_tracker := tracker, r_open_session_id := None\<rparr>
      in case (closed, r_open_session_id r) of
           (Some rec, Some sid) \<Rightarrow>
             (case end_session (re_store E) (r_store r) sid (rec_end rec) (rec_end_reason rec) of
                (st, res) \<Rightarrow> (r1\<lparr>r_store := st\<rparr>, res))
         | _ \<Rightarrow> (r1, Inr ()))"

definition recorder_is_active :: "usage_recorder \<Rightarrow> bool" where
  "recorder_is_active r = is_active (r_tracker r)"

section \<open>What the store holds of the tracker\<close>

definition session_view :: "stored_session \<Rightarrow> datetime \<times> (datetime \<times> end_reason) option" where
  "session_view x = (ss_start x, ss_end x)"

definition record_view :: "usage_session_record \<Rightarrow> datetime \<times> (datetime \<times> end_reason) option" where
  "record_view rec = (rec_start rec, Some (rec_end rec, rec_end_reason rec))"

text \<open>
  The rows are the tracker's finished sessions, in order, followed by the running one if there is
  one, under the identifier the recorder remembers.
\<close>

definition mirrors :: "recorder_env \<Rightarrow> uuid set \<Rightarrow> usage_session_record list \<Rightarrow> usage_recorder \<Rightarrow> bool" where
  "mirrors E used recs r \<longleftrightarrow>
     (\<exists>ss. map session_view ss = map record_view recs \<and> ss_id ` set ss \<subseteq> used \<and>
       (case open_since (r_tracker r) of
          None \<Rightarrow> r_open_session_id r = None \<and> store_rep (re_store E) ss (r_store r)
        | Some t \<Rightarrow> \<exists>sid \<in> used. r_open_session_id r = Some sid \<and>
            store_rep (re_store E) (ss @ [open_session sid t]) (r_store r)))"

section \<open>Steps\<close>

lemma remember_username_sel [simp]:
  "r_tracker (remember_username ev u r) = r_tracker r" "r_store (remember_username ev u r) = r_store r"
  "r_open_session_id (remember_username ev u r) = r_open_session_id r"
  "r_event_queue (remember_username ev u r) = r_event_queue r"
  by (auto simp: remember_username_def split: option.split)

lemma forget_username_sel [simp]:
  "r_tracker (forget_username ev r) = r_tracker r" "r_store (forget_username ev r) = r_store r"
  "r_open_session_id (forget_username ev r) = r_open_session_id r"
  "r_event_queue (forget_username ev r) = r_event_queue r"
  by (auto simp: forget_username_def split: session_event.split)

lemma refresh_snapshot_sel [simp]:
  "r_tracker (refresh_snapshot E ev r) = r_tracker r" "r_store (refresh_snapshot E ev r) = r_store r"
  "r_open_session_id (refresh_snapshot E ev r) = r_open_session_id r"
  "r_event_queue (refresh_snapshot E ev r) = r_event_queue r"
  "r_session_usernames (refresh_snapshot E ev r) = r_session_usernames r"
  by (simp_all add: refresh_snapshot_def Let_def)

lemma report_event_sel [simp]:
  "r_tracker (report_event E c ev u tr now r) = r_tracker r"
  "r_store (report_event E c ev u tr now r) = r_store r"
  "r_open_session_id (report_event E c ev u tr now r) = r_open_session_id r"
  "r_snapshot (report_event E c ev u tr now r) = r_snapshot r"
  "r_session_usernames (report_event E c ev u tr now r) = r_session_usernames r"
  by (simp_all add: report_event_def Let_def split: option.split)

lemma persist_transition_sel:
  assumes "persist_transition E c tr r = (r', res)"
  shows "r_tracker r' = r_tracker r" "r_event_queue r' = r_event_queue r"
    "r_session_usernames r' = r_session_usernames r"
  using assms
  by (auto simp: persist_transition_def split: transition.splits option.splits prod.splits sum.splits)

lemma mirrors_cong:
  "open_since (r_tracker r) = open_since (r_tracker r') \<Longrightarrow> r_store r = r_store r' \<Longrightarrow>
   r_open_session_id r = r_open_session_id r' \<Longrightarrow> mirrors E used recs r = mirrors E used recs r'"
  unfolding mirrors_def by (simp cong: option.case_cong)

lemma mirrors_used: "mirrors E used recs r \<Longrightarrow> used \<subseteq> used' \<Longrightarrow> mirrors E used' recs r"
  unfolding mirrors_def by (fastforce split: option.splits)

lemma mirrors_open:
  assumes "mirrors E used recs r" "open_since (r_tracker r) = Some t"
  obtains ss sid where "map session_view ss = map record_view recs" "ss_id ` set ss \<subseteq> used" "sid \<in> used"
    "r_open_session_id r = Some sid" "store_rep (re_store E) (ss @ [open_session sid t]) (r_store r)"
  using assms by (auto simp: mirrors_def)

lemma mirrors_closed:
  assumes "mirrors E used recs r" "open_since (r_tracker r) = None"
  obtains ss where "map session_view ss = map record_view recs" "ss_id ` set ss \<subseteq> used"
    "r_open_session_id r = None" "store_rep (re_store E) ss (r_store r)"
  using assms by (auto simp: mirrors_def)

lemma mirrors_closedI:
  "map session_view ss = map record_view recs \<Longrightarrow> ss_id ` set ss \<subseteq> used \<Longrightarrow>
   open_since (r_tracker r) = None \<Longrightarrow> r_open_session_id r = None \<Longrightarrow> store_rep (re_store E) ss (r_store r) \<Longrightarrow>
   mirrors E used recs r"
  unfolding mirrors_def by (rule exI [of _ ss]) simp

lemma session_view_closed [simp]: "session_view (closed_session sid rec) = record_view rec"
  by (simp add: session_view_def closed_session_def record_view_def)

lemma persist_mirrors:
  assumes m: "mirrors E used recs r" and law: "store_lawful (re_store E)"
    and ap: "apply_event (r_tracker r) ev now = (t', tr)"
    and fresh: "new_session_id c \<notin> used" and now: "rfc_range now"
  shows "\<exists>r2. persist_transition E c tr (r\<lparr>r_tracker := t'\<rparr>) = (r2, Inr ()) \<and>
     mirrors E (insert (new_session_id c) used) (recs @ ended_records [tr]) r2"
proof (cases tr)
  case NoChange
  with usage.no_change ap have "open_since t' = open_since (r_tracker r)" by blast
  with m mirrors_cong [of "r\<lparr>r_tracker := t'\<rparr>" r] have "mirrors E used recs (r\<lparr>r_tracker := t'\<rparr>)" by simp
  with mirrors_used [of E used recs _ "insert (new_session_id c) used"] NoChange show ?thesis
    by (auto simp: persist_transition_def)
next
  case (Started b)
  with usage.started ap have o: "open_since (r_tracker r) = None" "open_since t' = Some now" "b = now" by blast+
  from mirrors_closed [OF m o(1)] obtain ss where ss: "map session_view ss = map record_view recs"
    "ss_id ` set ss \<subseteq> used" "store_rep (re_store E) ss (r_store r)" by metis
  with fresh have "new_session_id c \<notin> ss_id ` set ss" by blast
  from sqlite_store.start_holds [OF law ss(3) this now] ss Started o show ?thesis
    by (auto simp: persist_transition_def mirrors_def intro!: exI [of _ ss] subset_insertI2)
next
  case (Ended rec)
  with usage.ended ap have o: "open_since (r_tracker r) = Some (rec_start rec)" "open_since t' = None" "rec_end rec = now"
    by blast+
  from mirrors_open [OF m o(1)] obtain ss sid where ss: "map session_view ss = map record_view recs"
    "ss_id ` set ss \<subseteq> used" "sid \<in> used" "r_open_session_id r = Some sid"
    "store_rep (re_store E) (ss @ [open_session sid (rec_start rec)]) (r_store r)" .
  have rec: "\<lparr> rec_start = rec_start rec, rec_end = now, rec_end_reason = rec_end_reason rec \<rparr> = rec"
    using o(3) by simp
  from sqlite_store.finish_last [OF law ss(5) now, of "rec_end_reason rec"] obtain st'
    where st': "end_session (re_store E) (r_store r) sid now (rec_end_reason rec) = (st', Inr ())"
      and "store_rep (re_store E) (ss @ [closed_session sid rec]) st'" unfolding rec by blast
  moreover have "map session_view (ss @ [closed_session sid rec]) = map record_view (recs @ [rec])"
    using ss(1) by simp
  moreover have "ss_id ` set (ss @ [closed_session sid rec]) \<subseteq> insert (new_session_id c) used"
    using ss(2,3) by (auto simp: closed_session_def)
  ultimately have "mirrors E (insert (new_session_id c) used) (recs @ [rec])
      (r\<lparr>r_tracker := t', r_store := st', r_open_session_id := None\<rparr>)"
    using o by (intro mirrors_closedI) simp_all
  moreover have "persist_transition E c tr (r\<lparr>r_tracker := t'\<rparr>)
      = (r\<lparr>r_tracker := t', r_store := st', r_open_session_id := None\<rparr>, Inr ())"
    using Ended o ss(4) st' by (simp add: persist_transition_def)
  ultimately show ?thesis using Ended by simp
qed

lemma handle_at_mirrors:
  assumes m: "mirrors E used recs r" and law: "store_lawful (re_store E)"
    and fresh: "new_session_id c \<notin> used" and now: "rfc_range now" and new: "\<not> repeated_logon (r_tracker r) ev"
  shows "\<exists>r'. handle_at E c ev u now r = (r', Inr ()) \<and> r_tracker r' = fst (apply_event (r_tracker r) ev now) \<and>
     mirrors E (insert (new_session_id c) used) (recs @ ended_records [snd (apply_event (r_tracker r) ev now)]) r'"
proof -
  let ?r1 = "remember_username ev u r"
  obtain t' tr where ap: "apply_event (r_tracker r) ev now = (t', tr)" by fastforce
  have m1: "mirrors E used recs ?r1" using m mirrors_cong [of ?r1 r] by simp
  have "apply_event (r_tracker ?r1) ev now = (t', tr)" using ap by simp
  from persist_mirrors [OF m1 law this fresh now] obtain r2 where
    r2: "persist_transition E c tr (?r1\<lparr>r_tracker := t'\<rparr>) = (r2, Inr ())"
      "mirrors E (insert (new_session_id c) used) (recs @ ended_records [tr]) r2" by blast
  let ?r3 = "report_event E c ev (known_username ev ?r1) tr now (refresh_snapshot E ev (forget_username ev r2))"
  have "handle_at E c ev u now r = (?r3, Inr ())"
    using new r2(1) ap by (simp add: handle_at_def Let_def)
  moreover have "r_tracker ?r3 = t'" using persist_transition_sel(1) [OF r2(1)] by simp
  moreover have "mirrors E (insert (new_session_id c) used) (recs @ ended_records [tr]) ?r3"
    using r2(2) mirrors_cong [of ?r3 r2] by simp
  ultimately show ?thesis by (simp add: ap)
qed

section \<open>Runs\<close>

type_synonym notification = "call_values \<times> session_event \<times> string option \<times> datetime"

fun recorder_step :: "recorder_env \<Rightarrow> usage_recorder \<Rightarrow> notification \<Rightarrow> usage_recorder" where
  "recorder_step E r (c, ev, u, now) = fst (handle_at E c ev u now r)"

text \<open>The notifications that reach the tracker: all but the repeated logons.\<close>

fun accepted :: "usage_tracker \<Rightarrow> notification list \<Rightarrow> (session_event \<times> datetime) list" where
  "accepted t [] = []"
| "accepted t ((c, ev, u, now) # ns) =
     (if repeated_logon t ev then accepted t ns
      else (ev, now) # accepted (fst (apply_event t ev now)) ns)"

fun fresh_ids :: "uuid set \<Rightarrow> notification list \<Rightarrow> bool" where
  "fresh_ids used [] = True"
| "fresh_ids used ((c, _) # ns) \<longleftrightarrow> new_session_id c \<notin> used \<and> fresh_ids (insert (new_session_id c) used) ns"

definition good_times :: "notification list \<Rightarrow> bool" where
  "good_times ns \<longleftrightarrow> list_all (\<lambda>(c, ev, u, now). rfc_range now) ns"

lemma ended_records_Cons: "ended_records (tr # trs) = ended_records [tr] @ ended_records trs"
  by (cases tr) simp_all

lemma recorder_run_mirrors:
  assumes "mirrors E used recs r" "store_lawful (re_store E)" "fresh_ids used ns" "good_times ns"
  shows "let es = accepted (r_tracker r) ns; r' = foldl (recorder_step E) r ns in
     r_tracker r' = final_state apply_event (r_tracker r) es \<and>
     (\<exists>used'. mirrors E used' (recs @ ended_records (transitions apply_event (r_tracker r) es)) r')"
  using assms(1,3,4)
proof (induction ns arbitrary: used recs r)
  case Nil
  then show ?case by (auto simp: Let_def)
next
  case (Cons n ns)
  obtain c ev u now where n: "n = (c, ev, u, now)" by (cases n) auto
  from Cons.prems n have fresh: "new_session_id c \<notin> used" and ids: "fresh_ids (insert (new_session_id c) used) ns"
    and now: "rfc_range now" and times: "good_times ns" by (auto simp: good_times_def)
  show ?case
  proof (cases "repeated_logon (r_tracker r) ev")
    case True
    have "mirrors E (insert (new_session_id c) used) recs r" by (rule mirrors_used [OF Cons.prems(1)]) auto
    from Cons.IH [OF this ids times] True show ?thesis by (simp add: n handle_at_def)
  next
    case False
    from handle_at_mirrors [OF Cons.prems(1) assms(2) fresh now False, of u] obtain r' where
      r': "handle_at E c ev u now r = (r', Inr ())" "r_tracker r' = fst (apply_event (r_tracker r) ev now)"
        "mirrors E (insert (new_session_id c) used)
           (recs @ ended_records [snd (apply_event (r_tracker r) ev now)]) r'" by blast
    have "ended_records (transitions apply_event (r_tracker r) (accepted (r_tracker r) (n # ns))) =
        ended_records [snd (apply_event (r_tracker r) ev now)] @
        ended_records (transitions apply_event (r_tracker r') (accepted (r_tracker r') ns))"
      using False by (simp add: n r'(2)) (rule ended_records_Cons)
    with Cons.IH [OF r'(3) ids times] False r'(1,2) show ?thesis
      unfolding Let_def by (simp add: n)
  qed
qed

lemma from_store_mirrors:
  assumes "store_lawful (re_store E)" "mirrors E used recs r"
  shows "\<exists>r'. from_store E (r_store r) = Inr r' \<and> open_since (r_tracker r') = open_since (r_tracker r) \<and>
     r_open_session_id r' = r_open_session_id r \<and> mirrors E used recs r'"
proof -
  have closed: "open_sessions ss = []" if "map session_view ss = map record_view recs" for ss
  proof -
    have "session_view ` set ss = record_view ` set recs" using that by (metis image_set)
    then have view: "session_view x \<in> record_view ` set recs" if "x \<in> set ss" for x
      using that by blast
    have "ss_end x \<noteq> None" if "x \<in> set ss" for x
      using view [OF that] by (auto simp: session_view_def record_view_def)
    then show ?thesis by (simp add: open_sessions_def filter_empty_conv)
  qed
  show ?thesis
  proof (cases "open_since (r_tracker r)")
    case None
    from mirrors_closed [OF assms(2) None] obtain ss where ss: "map session_view ss = map record_view recs"
      "ss_id ` set ss \<subseteq> used" "r_open_session_id r = None" "store_rep (re_store E) ss (r_store r)" .
    from sqlite_store.dangling_none [OF assms(1) ss(4) closed [OF ss(1)]] ss None show ?thesis
      by (auto simp: from_store_def tracker_new_def mirrors_def)
  next
    case (Some t)
    from mirrors_open [OF assms(2) Some] obtain ss sid where ss: "map session_view ss = map record_view recs"
      "ss_id ` set ss \<subseteq> used" "sid \<in> used" "r_open_session_id r = Some sid"
      "store_rep (re_store E) (ss @ [open_session sid t]) (r_store r)" .
    from sqlite_store.dangling_last [OF assms(1) ss(5) closed [OF ss(1)]] ss Some show ?thesis
      by (auto simp: from_store_def resume_open_session_def mirrors_def)
  qed
qed

lemma shutdown_mirrors:
  assumes "store_lawful (re_store E)" "mirrors E used recs r" "rfc_range (clock_now c)"
  shows "\<exists>r'. shutdown E c r = (r', Inr ()) \<and> open_since (r_tracker r') = None \<and>
     mirrors E used (recs @ (case open_since (r_tracker r) of
          None \<Rightarrow> []
        | Some t \<Rightarrow> [\<lparr> rec_start = t, rec_end = clock_now c, rec_end_reason = EndAgentShutdown \<rparr>])) r'"
proof (cases "open_since (r_tracker r)")
  case None
  from mirrors_closed [OF assms(2) None] obtain ss where ss: "map session_view ss = map record_view recs"
    "ss_id ` set ss \<subseteq> used" "r_open_session_id r = None" "store_rep (re_store E) ss (r_store r)" .
  have "mirrors E used recs (fst (shutdown E c r))"
    using ss None by (intro mirrors_closedI) (simp_all add: shutdown_def close_session_def)
  then show ?thesis using None by (simp add: shutdown_def close_session_def)
next
  case (Some t)
  let ?rec = "\<lparr> rec_start = t, rec_end = clock_now c, rec_end_reason = EndAgentShutdown \<rparr>"
  from mirrors_open [OF assms(2) Some] obtain ss sid where ss: "map session_view ss = map record_view recs"
    "ss_id ` set ss \<subseteq> used" "sid \<in> used" "r_open_session_id r = Some sid"
    "store_rep (re_store E) (ss @ [open_session sid t]) (r_store r)" .
  from sqlite_store.finish_last [OF assms(1) ss(5) assms(3), of EndAgentShutdown] obtain st'
    where st': "end_session (re_store E) (r_store r) sid (clock_now c) EndAgentShutdown = (st', Inr ())"
      and rep: "store_rep (re_store E) (ss @ [closed_session sid ?rec]) st'" by blast
  have sh: "shutdown E c r = (r\<lparr>r_tracker := (r_tracker r)\<lparr>open_since := None\<rparr>, r_open_session_id := None,
      r_store := st'\<rparr>, Inr ())"
    using Some ss(4) st' by (simp add: shutdown_def close_session_def)
  have "ss_id ` set (ss @ [closed_session sid ?rec]) \<subseteq> used"
    using ss(2,3) by (auto simp: closed_session_def)
  with ss(1) rep have "mirrors E used (recs @ [?rec]) (fst (shutdown E c r))"
    unfolding sh by (intro mirrors_closedI) simp_all
  with Some sh show ?thesis by simp
qed

section \<open>Properties\<close>

definition new_recorder :: usage_recorder where
  "new_recorder = \<lparr> r_tracker = tracker_new, r_store = store_init, r_open_session_id = None,
     r_event_queue = None, r_session_usernames = fmempty, r_snapshot = default_snapshot \<rparr>"

lemma mirrors_new: "mirrors E {} [] new_recorder"
  using store_rep_init by (auto simp: mirrors_def new_recorder_def tracker_new_def)

text \<open>
  Property C19. The database never disagrees with the tracker: whatever notifications a new recorder
  handles, its store holds exactly the sessions the tracker finished, in order and with their end
  reasons, followed by the running session if there is one, stored open under the identifier the recorder
  will close it with. The tracker has seen every notification but the repeated logons.
\<close>

theorem recorder_store_mirrors_tracker:
  assumes "store_lawful (re_store E)" "fresh_ids {} ns" "good_times ns"
  shows "let es = accepted tracker_new ns; r = foldl (recorder_step E) new_recorder ns;
           recs = ended_records (transitions apply_event tracker_new es) in
     r_tracker r = final_state apply_event tracker_new es \<and>
     (\<exists>ss. map session_view ss = map record_view recs \<and>
       (case open_since (r_tracker r) of
          None \<Rightarrow> r_open_session_id r = None \<and> store_rep (re_store E) ss (r_store r)
        | Some t \<Rightarrow> \<exists>sid. r_open_session_id r = Some sid \<and>
            store_rep (re_store E) (ss @ [open_session sid t]) (r_store r)))"
proof -
  have t: "r_tracker new_recorder = tracker_new" by (simp add: new_recorder_def)
  let ?r = "foldl (recorder_step E) new_recorder ns"
  from recorder_run_mirrors [OF mirrors_new assms] obtain used where
    tr: "r_tracker ?r = final_state apply_event tracker_new (accepted tracker_new ns)" and
    m: "mirrors E used (ended_records (transitions apply_event tracker_new (accepted tracker_new ns))) ?r"
    by (auto simp: Let_def t)
  from m have "\<exists>ss. map session_view ss
        = map record_view (ended_records (transitions apply_event tracker_new (accepted tracker_new ns))) \<and>
       (case open_since (r_tracker ?r) of
          None \<Rightarrow> r_open_session_id ?r = None \<and> store_rep (re_store E) ss (r_store ?r)
        | Some t \<Rightarrow> \<exists>sid. r_open_session_id ?r = Some sid \<and>
            store_rep (re_store E) (ss @ [open_session sid t]) (r_store ?r))"
    by (cases "open_since (r_tracker ?r)") (auto simp: mirrors_def)
  with tr show ?thesis by (simp only: Let_def simp_thms)
qed

definition sample_recorder_env :: recorder_env where
  "sample_recorder_env =
     \<lparr> re_store = sample_store_env, re_queue = sample_queue_env,
       first_value = (\<lambda>m. case sorted_list_of_fmap m of [] \<Rightarrow> None | (_, v) # _ \<Rightarrow> Some v) \<rparr>"

lemma sample_recorder_sel [simp]:
  "re_store sample_recorder_env = sample_store_env" "re_queue sample_recorder_env = sample_queue_env"
  by (simp_all add: sample_recorder_env_def)

lemma sample_first_value_ok: "first_value_ok sample_recorder_env"
  unfolding first_value_ok_def
proof
  fix m :: "(session_id, string) fmap"
  have "m = fmempty" if "sorted_list_of_fmap m = []"
    by (rule fmap_ext) (metis that fmempty_lookup map_of.simps(1) map_of_sorted_list)
  moreover have mem: "v |\<in>| fmran m" if "(k, v) \<in> set (sorted_list_of_fmap m)" for k v
    using that by (auto simp: sorted_list_of_fmap_def fmlookup_dom_iff intro: fmranI)
  ultimately show "case first_value sample_recorder_env m of None \<Rightarrow> m = fmempty | Some v \<Rightarrow> v |\<in>| fmran m"
    using mem [of "fst (hd (sorted_list_of_fmap m))" "snd (hd (sorted_list_of_fmap m))"]
    by (cases "sorted_list_of_fmap m") (simp_all add: sample_recorder_env_def split_def)
qed

definition sample_call :: "uuid \<Rightarrow> call_values" where
  "sample_call u = \<lparr> new_session_id = u, new_event_id = u + 1, new_activity_id = u + 2, clock_now = 0 \<rparr>"

definition sample_notifications :: "notification list" where
  "sample_notifications =
     [(sample_call 10, Logon 7, Some ''kid'', 0), (sample_call 20, Lock 7, None, seconds 60)]"

lemma sample_notifications_ok: "fresh_ids {} sample_notifications" "good_times sample_notifications"
  by (simp_all add: sample_notifications_def sample_call_def good_times_def
      rfc_range_def rfc_min_def rfc_end_def seconds_def)

theorem recorder_store_mirrors_tracker_witness:
  "\<exists>ss. store_rep sample_store_env ss
       (r_store (foldl (recorder_step sample_recorder_env) new_recorder sample_notifications)) \<and>
     map session_view ss = [(0, Some (seconds 60, EndLock))]"
proof -
  have st: "store_lawful (re_store sample_recorder_env)"
    by (simp add: sample_recorder_env_def sample_store_lawful)
  have acc: "accepted tracker_new sample_notifications = [(Logon 7, 0), (Lock 7, seconds 60)]"
    by (simp add: sample_notifications_def repeated_logon_def is_logged_on_def tracker_new_def)
  have fin: "open_since (final_state apply_event tracker_new [(Logon 7, 0), (Lock 7, seconds 60)]) = None"
    and trs: "transitions apply_event tracker_new [(Logon 7, 0), (Lock 7, seconds 60)]
      = [Started 0, Ended \<lparr> rec_start = 0, rec_end = seconds 60, rec_end_reason = EndLock \<rparr>]"
    by code_simp+
  show ?thesis
    using recorder_store_mirrors_tracker [OF st sample_notifications_ok]
    unfolding Let_def acc trs sample_recorder_sel
    by (auto simp: fin record_view_def simp del: final_state.simps)
qed

text \<open>
  Property C20. A restart loses nothing. If the agent is killed at any moment, a recorder opened on the
  store it left resumes exactly the session that was running, with its original start and under
  its own identifier, and closes nothing, so that the time until the restart counts as usage (the documentation says that the session is
  closed instead, with the reason \<^verbatim>\<open>AGENT_RESTART\<close>); a clean shutdown records the running
  session with the reason \<open>EndAgentShutdown\<close> and leaves nothing to resume.
\<close>

theorem recorder_restart:
  assumes "store_lawful (re_store E)" "mirrors E used recs r" "rfc_range (clock_now c)"
  shows "(\<exists>r'. from_store E (r_store r) = Inr r' \<and> open_since (r_tracker r') = open_since (r_tracker r) \<and>
            r_open_session_id r' = r_open_session_id r \<and> mirrors E used recs r') \<and>
     (\<exists>r'. shutdown E c r = (r', Inr ()) \<and> open_since (r_tracker r') = None \<and>
        mirrors E used (recs @ (case open_since (r_tracker r) of
             None \<Rightarrow> []
           | Some t \<Rightarrow> [\<lparr> rec_start = t, rec_end = clock_now c, rec_end_reason = EndAgentShutdown \<rparr>])) r' \<and>
        (\<exists>r''. from_store E (r_store r') = Inr r'' \<and> \<not> recorder_is_active r''))"
proof (intro conjI)
  show "\<exists>r'. from_store E (r_store r) = Inr r' \<and> open_since (r_tracker r') = open_since (r_tracker r) \<and>
      r_open_session_id r' = r_open_session_id r \<and> mirrors E used recs r'"
    by (rule from_store_mirrors [OF assms(1,2)])
  from shutdown_mirrors [OF assms] obtain r' where r': "shutdown E c r = (r', Inr ())"
    "open_since (r_tracker r') = None" and
    m: "mirrors E used (recs @ (case open_since (r_tracker r) of None \<Rightarrow> []
       | Some t \<Rightarrow> [\<lparr> rec_start = t, rec_end = clock_now c, rec_end_reason = EndAgentShutdown \<rparr>])) r'" by blast
  from from_store_mirrors [OF assms(1) m] r'(2) have
    "\<exists>r''. from_store E (r_store r') = Inr r'' \<and> \<not> recorder_is_active r''"
    by (auto simp: recorder_is_active_def is_active_def)
  with r' m show "\<exists>r'. shutdown E c r = (r', Inr ()) \<and> open_since (r_tracker r') = None \<and>
        mirrors E used (recs @ (case open_since (r_tracker r) of
             None \<Rightarrow> []
           | Some t \<Rightarrow> [\<lparr> rec_start = t, rec_end = clock_now c, rec_end_reason = EndAgentShutdown \<rparr>])) r' \<and>
        (\<exists>r''. from_store E (r_store r') = Inr r'' \<and> \<not> recorder_is_active r'')"
    by blast
qed

theorem recorder_restart_witness:
  "\<exists>r r' r''. handle_at sample_recorder_env (sample_call 10) (Logon 7) None 0 new_recorder = (r, Inr ()) \<and>
     from_store sample_recorder_env (r_store r) = Inr r' \<and> open_since (r_tracker r') = Some 0 \<and>
     r_open_session_id r' = r_open_session_id r \<and> r_open_session_id r \<noteq> None \<and>
     shutdown sample_recorder_env (sample_call 1) r = (r'', Inr ()) \<and>
     mirrors sample_recorder_env {10} [\<lparr> rec_start = 0, rec_end = clock_now (sample_call 1), rec_end_reason = EndAgentShutdown \<rparr>] r''"
proof -
  have t: "r_tracker new_recorder = tracker_new" by (simp add: new_recorder_def)
  have new: "\<not> repeated_logon (r_tracker new_recorder) (Logon 7)"
    by (simp add: repeated_logon_def is_logged_on_def t tracker_new_def)
  have step: "snd (apply_event tracker_new (Logon 7) 0) = Started 0" "open_since (fst (apply_event tracker_new (Logon 7) 0)) = Some 0"
    by code_simp+
  from handle_at_mirrors [OF mirrors_new _ _ rfc_range_sample new, of sample_recorder_env "sample_call 10" None] obtain r where
    r: "handle_at sample_recorder_env (sample_call 10) (Logon 7) None 0 new_recorder = (r, Inr ())" "open_since (r_tracker r) = Some 0"
      "mirrors sample_recorder_env {10} [] r"
    by (auto simp: sample_store_lawful t step sample_call_def simp del: apply_event.simps)
  have open_id: "r_open_session_id r \<noteq> None" by (rule mirrors_open [OF r(3,2)]) simp
  have "rfc_range (clock_now (sample_call 1))" by (simp add: sample_call_def)
  from recorder_restart [OF _ r(3) this] r(1,2) sample_store_lawful open_id show ?thesis by fastforce
qed

text \<open>
  The snapshot that heartbeats send says \<^verbatim>\<open>ACTIVE\<close> exactly when a usage session is running and
  some session's account is known, and never names an account that is not logged on.
\<close>

theorem recorder_snapshot_honest:
  assumes "first_value_ok E" "\<not> repeated_logon (r_tracker r) ev" "handle_at E c ev u now r = (r', Inr ())"
  shows "(sn_state (r_snapshot r') = ''ACTIVE'' \<longleftrightarrow> recorder_is_active r' \<and> r_session_usernames r' \<noteq> fmempty) \<and>
     (case sn_username (r_snapshot r') of
        None \<Rightarrow> r_session_usernames r' = fmempty
      | Some name \<Rightarrow> name |\<in>| fmran (r_session_usernames r'))"
proof -
  from assms(2,3) obtain r0 tr un where
    r': "r' = report_event E c ev un tr now (refresh_snapshot E ev r0)"
    by (auto simp: handle_at_def Let_def split: prod.splits sum.splits)
  let ?m = "r_session_usernames r0"
  have fv: "case first_value E ?m of None \<Rightarrow> ?m = fmempty | Some v \<Rightarrow> v |\<in>| fmran ?m"
    using assms(1) by (simp add: first_value_ok_def)
  then have none: "first_value E ?m = None \<longleftrightarrow> ?m = fmempty" by (auto split: option.splits)
  have un: "sn_username (r_snapshot r') = first_value E ?m" "r_session_usernames r' = ?m"
    by (simp_all add: r') (simp add: refresh_snapshot_def Let_def)
  have "sn_state (r_snapshot r') = ''ACTIVE'' \<longleftrightarrow> is_active (r_tracker r0) \<and> first_value E ?m \<noteq> None"
    by (auto simp: r' refresh_snapshot_def Let_def split: session_event.split)
  then show ?thesis using fv none unfolding un by (simp add: recorder_is_active_def r')
qed

theorem recorder_snapshot_honest_witness:
  "\<exists>r'. handle_at sample_recorder_env (sample_call 10) (Logon 7) (Some ''kid'') 0 new_recorder = (r', Inr ()) \<and>
     sn_state (r_snapshot r') = ''ACTIVE'' \<and> sn_username (r_snapshot r') = Some ''kid''"
proof -
  have new: "\<not> repeated_logon (r_tracker new_recorder) (Logon 7)"
    by (simp add: repeated_logon_def is_logged_on_def new_recorder_def tracker_new_def)
  from handle_at_mirrors [OF mirrors_new _ _ rfc_range_sample new, of sample_recorder_env "sample_call 10" "Some ''kid''"]
  obtain r' where h: "handle_at sample_recorder_env (sample_call 10) (Logon 7) (Some ''kid'') 0 new_recorder = (r', Inr ())"
    and t: "r_tracker r' = fst (apply_event tracker_new (Logon 7) 0)"
    by (auto simp: sample_store_lawful new_recorder_def)
  have act: "recorder_is_active r'"
    unfolding recorder_is_active_def t by code_simp
  have names: "r_session_usernames r' = fmupd 7 ''kid'' fmempty"
    using h new
    by (auto simp: handle_at_def Let_def remember_username_def forget_username_def new_recorder_def
        dest: persist_transition_sel(3) split: prod.splits sum.splits)
  from recorder_snapshot_honest [OF sample_first_value_ok new h] act names h show ?thesis
    by (auto split: option.splits if_splits elim!: fmranE)
qed



section \<open>Reporting\<close>

text \<open>The account an event is reported with: the one just resolved, or the one remembered.\<close>

definition reported_username :: "session_event \<Rightarrow> string option \<Rightarrow> usage_recorder \<Rightarrow> string option" where
  "reported_username ev u r =
     (case event_session_id ev of
        None \<Rightarrow> None
      | Some sid \<Rightarrow> (case u of Some name \<Rightarrow> Some name | None \<Rightarrow> fmlookup (r_session_usernames r) sid))"

lemma from_session_event_sel [simp]:
  "ev_id (from_session_event i clk ev u) = i" "ev_occurred_at (from_session_event i clk ev u) = clk"
  "ev_type (from_session_event i clk ev u) = session_event_type ev"
  "ev_username (from_session_event i clk ev u) = u"
  by (simp_all add: from_session_event_def new_session_event_def new_event_def)

lemma activity_event_sel [simp]:
  "ev_id (activity_event i clk a now u) = i" "ev_occurred_at (activity_event i clk a now u) = now"
  "ev_type (activity_event i clk a now u) = (if a then Active else Inactive)"
  "ev_username (activity_event i clk a now u) = u"
  by (simp_all add: activity_event_def new_session_event_def new_event_def)

lemma enqueue_fresh:
  assumes "queue_lawful E" "queue_rep E es q" "rfc_range now" "rfc_range (ev_occurred_at e)"
    "length es < 5000" "ev_id e \<notin> event_ids es"
  shows "queue_rep E (es @ [entry_of (q_next_id q) e now]) (fst (enqueue E q e now))"
  using sqlite_queue.enq_keeps [OF assms(1-4)] assms(5,6) by (auto simp: MAX_QUEUE_SIZE_def appended_def)

lemma handle_at_reports:
  assumes "queue_lawful (re_queue E)" "r_event_queue r = Some q" "queue_rep (re_queue E) es q"
    "length es + 2 \<le> 5000" "new_event_id c \<notin> event_ids es" "new_activity_id c \<notin> event_ids es"
    "new_event_id c \<noteq> new_activity_id c" "rfc_range now" "rfc_range (clock_now c)"
    "handle_at E c ev u now r = (r', Inr ())"
  shows "if repeated_logon (r_tracker r) ev then r' = r
     else \<exists>q' i j. r_event_queue r' = Some q' \<and> i < j \<and>
       queue_rep (re_queue E) (es @ entry_of i (from_session_event (new_event_id c) (clock_now c) ev
            (reported_username ev u r)) now
         # (case activity_transition (snd (apply_event (r_tracker r) ev now)) ev of
              None \<Rightarrow> []
            | Some active \<Rightarrow> [entry_of j (activity_event (new_activity_id c) (clock_now c) active now
                (reported_username ev u r)) now])) q'"
proof (cases "repeated_logon (r_tracker r) ev")
  case True
  then show ?thesis using assms(10) by (simp add: handle_at_def)
next
  case False
  let ?un = "reported_username ev u r"
  have un: "known_username ev (remember_username ev u r) = ?un"
    by (cases "event_session_id ev"; cases u) (simp_all add: known_username_def remember_username_def reported_username_def)
  let ?tr = "snd (apply_event (r_tracker r) ev now)"
  let ?raw = "from_session_event (new_event_id c) (clock_now c) ev ?un"
  let ?q1 = "fst (enqueue (re_queue E) q ?raw now)" and ?i = "q_next_id q"
  from False assms(2,10) obtain r2 where r2: "r_event_queue r2 = Some q"
    "r' = report_event E c ev ?un ?tr now (refresh_snapshot E ev (forget_username ev r2))"
    by (auto simp: handle_at_def Let_def un dest!: persist_transition_sel(2) split: prod.splits sum.splits)
  have rep1: "queue_rep (re_queue E) (es @ [entry_of ?i ?raw now]) ?q1"
    using assms by (intro enqueue_fresh) auto
  show ?thesis
  proof (cases "activity_transition ?tr ev")
    case None
    with r2 rep1 False show ?thesis
      by (simp add: report_event_def Let_def) (rule exI [of _ ?i], auto intro: exI [of _ "?i + 1"])
  next
    case (Some a)
    let ?act = "activity_event (new_activity_id c) (clock_now c) a now ?un" and ?j = "q_next_id ?q1"
    have "queue_rep (re_queue E) ((es @ [entry_of ?i ?raw now]) @ [entry_of ?j ?act now])
        (fst (enqueue (re_queue E) ?q1 ?act now))"
      using assms by (intro enqueue_fresh rep1) (auto simp: event_ids_def)
    moreover have "?i < ?j" using rep1 by (simp add: queue_rep_def)
    ultimately show ?thesis using r2 Some False
      by (simp add: report_event_def Let_def) (rule exI [of _ ?i], rule exI [of _ ?j], simp)
  qed
qed

text \<open>Usage starts and ends as the transition says.\<close>

lemma activity_iff:
  assumes "apply_event t ev now = (t', tr)"
  shows "activity_transition tr ev =
    (if is_active t' \<and> \<not> is_active t then Some True
     else if is_active t \<and> \<not> is_active t' \<and> (\<forall>sid. ev \<noteq> Logoff sid) then Some False
     else None)"
  using assms usage.started [of t ev now t'] usage.ended [of t ev now t'] usage.no_change [of t ev now t']
  by (cases tr; cases ev) (auto simp: is_active_def)

lemma handled_tracker:
  assumes "handle_at E c ev u now r = (r', Inr ())" "\<not> repeated_logon (r_tracker r) ev"
  shows "r_tracker r' = fst (apply_event (r_tracker r) ev now)"
  using assms by (auto simp: handle_at_def Let_def dest!: persist_transition_sel(1) split: prod.splits sum.splits)

text \<open>
  Property C39. Every notification that is not a repeated logon and whose session was persisted is
  reported: an event of the type that belongs to the notification is appended to the queue, with the number of its session, and directly after it an
  \<^verbatim>\<open>ACTIVE\<close> event exactly when no usage was running before the notification and some is after it, and an \<^verbatim>\<open>INACTIVE\<close> event
  exactly when usage was running before and is not after, unless the notification is a logoff, which brings no separate
  inactivity. Both are due at once and carry the account known for the session. A logon of a session that is already logged on changes nothing at all.
\<close>

theorem recorder_reports:
  assumes "queue_lawful (re_queue E)" "r_event_queue r = Some q" "queue_rep (re_queue E) es q"
    "length es + 2 \<le> 5000" "new_event_id c \<notin> event_ids es" "new_activity_id c \<notin> event_ids es"
    "new_event_id c \<noteq> new_activity_id c" "rfc_range now" "rfc_range (clock_now c)"
    "handle_at E c ev u now r = (r', Inr ())"
  shows "if \<exists>sid. ev = Logon sid \<and> is_logged_on (r_tracker r) sid then r' = r
     else \<exists>q' x ys. r_event_queue r' = Some q' \<and> queue_rep (re_queue E) (es @ x # ys) q' \<and>
       ev_type (pe_event x) =
         (case ev of
            Logon _ \<Rightarrow> UserLogon | Logoff _ \<Rightarrow> UserLogoff | Lock _ \<Rightarrow> UserLock | Unlock _ \<Rightarrow> UserUnlock
          | ConsoleConnect _ \<Rightarrow> SessionConnected | ConsoleDisconnect _ \<Rightarrow> SessionDisconnected
          | RemoteConnect _ \<Rightarrow> SessionConnected | RemoteDisconnect _ \<Rightarrow> SessionDisconnected
          | Suspend \<Rightarrow> SystemSuspend | Resume \<Rightarrow> SystemResume) \<and>
       ev_id (pe_event x) = new_event_id c \<and> ev_occurred_at (pe_event x) = clock_now c \<and>
       fmlookup (ev_data (pe_event x)) ''windowsSessionId'' = map_option (\<lambda>sid. JNumber (uint sid)) (event_session_id ev) \<and>
       map (\<lambda>y. (ev_type (pe_event y), ev_id (pe_event y), ev_occurred_at (pe_event y))) ys =
         (if recorder_is_active r' \<and> \<not> recorder_is_active r then [(Active, new_activity_id c, now)]
          else if recorder_is_active r \<and> \<not> recorder_is_active r' \<and> (\<forall>sid. ev \<noteq> Logoff sid) then [(Inactive, new_activity_id c, now)]
          else []) \<and>
       (\<forall>y \<in> set (x # ys). ev_username (pe_event y) = reported_username ev u r \<and> ev_severity (pe_event y) = Info \<and>
          pe_created y = now \<and> pe_next y = now \<and> pe_attempts y = 0)"
proof (cases "repeated_logon (r_tracker r) ev")
  case True
  then show ?thesis using assms(10) by (auto simp: handle_at_def repeated_logon_def split: session_event.splits)
next
  case False
  let ?un = "reported_username ev u r" and ?tr = "snd (apply_event (r_tracker r) ev now)"
  let ?x = "\<lambda>i. entry_of i (from_session_event (new_event_id c) (clock_now c) ev ?un) now"
  let ?y = "\<lambda>j active. entry_of j (activity_event (new_activity_id c) (clock_now c) active now ?un) now"
  from False have new: "\<not> (\<exists>sid. ev = Logon sid \<and> is_logged_on (r_tracker r) sid)"
    by (auto simp: repeated_logon_def)
  have act: "(case activity_transition ?tr ev of None \<Rightarrow> [] | Some active \<Rightarrow> [?y j active]) =
      (if recorder_is_active r' \<and> \<not> recorder_is_active r then [?y j True]
       else if recorder_is_active r \<and> \<not> recorder_is_active r' \<and> (\<forall>sid. ev \<noteq> Logoff sid) then [?y j False] else [])" for j
    using activity_iff [of "r_tracker r" ev now _ ?tr] handled_tracker [OF assms(10) False]
    by (simp add: recorder_is_active_def prod_eq_iff)
  from handle_at_reports [OF assms] False obtain q' i j where q': "r_event_queue r' = Some q'"
    "queue_rep (re_queue E) (es @ ?x i # (case activity_transition ?tr ev of None \<Rightarrow> [] | Some active \<Rightarrow> [?y j active])) q'"
    by auto
  define ys where "ys = (case activity_transition ?tr ev of None \<Rightarrow> [] | Some active \<Rightarrow> [?y j active])"
  have type: "session_event_type ev =
         (case ev of
            Logon _ \<Rightarrow> UserLogon | Logoff _ \<Rightarrow> UserLogoff | Lock _ \<Rightarrow> UserLock | Unlock _ \<Rightarrow> UserUnlock
          | ConsoleConnect _ \<Rightarrow> SessionConnected | ConsoleDisconnect _ \<Rightarrow> SessionDisconnected
          | RemoteConnect _ \<Rightarrow> SessionConnected | RemoteDisconnect _ \<Rightarrow> SessionDisconnected
          | Suspend \<Rightarrow> SystemSuspend | Resume \<Rightarrow> SystemResume)"
    by (cases ev) simp_all
  have data: "fmlookup (ev_data (from_session_event (new_event_id c) (clock_now c) ev ?un)) ''windowsSessionId'' =
      map_option (\<lambda>sid. JNumber (uint sid)) (event_session_id ev)"
    by (simp add: from_session_event_def new_session_event_def new_event_def event_data_def split: option.split)
  have info: "ev_severity (from_session_event (new_event_id c) (clock_now c) ev ?un) = Info"
    "ev_severity (activity_event (new_activity_id c) (clock_now c) active now ?un) = Info" for active
    by (simp_all add: from_session_event_def activity_event_def new_session_event_def new_event_def)
  show ?thesis
    unfolding if_not_P [OF new]
    by (rule exI [of _ q'], rule exI [of _ "?x i"], rule exI [of _ ys], intro conjI)
      (use q' in \<open>auto simp: type data info ys_def act entry_of_def simp del: session_event_type.simps\<close>)
qed

theorem recorder_reports_witness:
  "\<exists>r1 q1 x y. handle_at sample_recorder_env (sample_call 10) (Logon 7) (Some ''kid'') 0 (with_event_queue queue_init new_recorder) = (r1, Inr ()) \<and>
     r_event_queue r1 = Some q1 \<and> queue_rep sample_queue_env [x, y] q1 \<and>
     ev_type (pe_event x) = UserLogon \<and> ev_type (pe_event y) = Active \<and> ev_username (pe_event y) = Some ''kid''"
proof -
  let ?r = "with_event_queue queue_init new_recorder"
  have t: "r_tracker ?r = tracker_new" by (simp add: with_event_queue_def new_recorder_def)
  have new: "\<not> repeated_logon (r_tracker ?r) (Logon 7)"
    by (simp add: repeated_logon_def is_logged_on_def t tracker_new_def)
  have "mirrors sample_recorder_env {} [] ?r"
    using mirrors_new [of sample_recorder_env] mirrors_cong [of ?r new_recorder]
    by (simp add: with_event_queue_def)
  from handle_at_mirrors [OF this _ _ rfc_range_sample new, of "sample_call 10" "Some ''kid''"]
  obtain r' where h: "handle_at sample_recorder_env (sample_call 10) (Logon 7) (Some ''kid'') 0 ?r = (r', Inr ())"
    by (auto simp: sample_store_lawful)
  have active: "recorder_is_active r'" "\<not> recorder_is_active ?r"
    unfolding recorder_is_active_def handled_tracker [OF h new] t by code_simp+
  have q: "r_event_queue ?r = Some queue_init" by (simp add: with_event_queue_def)
  have fresh: "\<not> (\<exists>sid. Logon 7 = Logon sid \<and> is_logged_on (r_tracker ?r) sid)" by (simp add: is_logged_on_def t tracker_new_def)
  from recorder_reports [OF _ q queue_rep_init _ _ _ _ rfc_range_sample _ h, unfolded if_not_P [OF fresh]] sample_queue_ok(1)
  obtain q' x ys where "r_event_queue r' = Some q'" "queue_rep sample_queue_env (x # ys) q'" "ev_type (pe_event x) = UserLogon"
    "map (\<lambda>y. (ev_type (pe_event y), ev_id (pe_event y), ev_occurred_at (pe_event y))) ys = [(Active, 12, 0)]"
    "\<forall>y \<in> set (x # ys). ev_username (pe_event y) = Some ''kid''"
    by (auto simp: sample_call_def event_ids_def reported_username_def active)
  with h show ?thesis by (fastforce simp: map_eq_Cons_conv)
qed

lemma sample_logon_reported:
  assumes "queue_lawful Q"
  shows "\<exists>r' q' i j. handle_at (sample_recorder_env\<lparr>re_queue := Q\<rparr>) (sample_call 10) (Logon 7) (Some ''kid'') 0
       (with_event_queue queue_init new_recorder) = (r', Inr ()) \<and>
     r_event_queue r' = Some q' \<and> i < j \<and>
     queue_rep Q
       [entry_of i (from_session_event 11 0 (Logon 7) (Some ''kid'')) 0,
        entry_of j (activity_event 12 0 True 0 (Some ''kid'')) 0] q'"
proof -
  let ?r = "with_event_queue queue_init new_recorder" and ?E = "sample_recorder_env\<lparr>re_queue := Q\<rparr>"
  have t: "r_tracker ?r = tracker_new" by (simp add: with_event_queue_def new_recorder_def)
  have new: "\<not> repeated_logon (r_tracker ?r) (Logon 7)"
    by (simp add: repeated_logon_def is_logged_on_def t tracker_new_def)
  have s: "snd (apply_event (r_tracker ?r) (Logon 7) 0) = Started 0" unfolding t by code_simp
  have "mirrors ?E {} [] ?r"
    using mirrors_new [of ?E] mirrors_cong [of ?r new_recorder] by (simp add: with_event_queue_def)
  from handle_at_mirrors [OF this _ _ rfc_range_sample new, of "sample_call 10" "Some ''kid''"]
  obtain r' where h: "handle_at ?E (sample_call 10) (Logon 7) (Some ''kid'') 0 ?r = (r', Inr ())"
    by (auto simp: sample_store_lawful)
  have "r_event_queue ?r = Some queue_init" by (simp add: with_event_queue_def)
  from handle_at_reports [OF _ this queue_rep_init _ _ _ _ rfc_range_sample _ h] new s h assms
  show ?thesis by (simp add: sample_call_def event_ids_def reported_username_def)
qed

definition reversing_queue_env :: queue_env where
  "reversing_queue_env = sample_queue_env\<lparr>q_scan := rev\<rparr>"

lemma due_batch_reversed:
  assumes "queue_lawful reversing_queue_env" "queue_rep reversing_queue_env [x, y] q"
    "pe_created x = pe_created y" "pe_next x \<le> 0" "pe_next y \<le> 0"
  shows "due_batch reversing_queue_env q 0 50 = Inr [delivery_of y, delivery_of x]"
proof -
  have E: "queue_env_ok reversing_queue_env" and t: "text_env_ok reversing_queue_env"
    and f: "q_fault reversing_queue_env SelectDue = None"
    using assms(1) by (simp_all add: queue_lawful_def queue_env_ok_def no_fault_def)
  have ok: "entry_ok x" "entry_ok y" and rows: "q_rows q = map (encode_entry reversing_queue_env) [x, y]"
    using assms(2) by (simp_all add: queue_rep_def)
  have "to_rfc3339 reversing_queue_env (pe_next z) \<le> to_rfc3339 reversing_queue_env 0" if "z = x \<or> z = y" for z
    using that ok assms(4,5) by (auto simp: rfc3339_le [OF t] entry_ok_def)
  moreover have "q_scan reversing_queue_env = rev" by (simp add: reversing_queue_env_def)
  ultimately show ?thesis
    using f rows assms(3) by (simp add: due_batch_def decode_encode_entry [OF E] ok)
qed

lemma reversed_logon_order:
  assumes "queue_lawful reversing_queue_env"
  shows "\<exists>q' d1 d2.
      r_event_queue (fst (handle_at (sample_recorder_env\<lparr>re_queue := reversing_queue_env\<rparr>) (sample_call 10)
        (Logon 7) (Some ''kid'') 0 (with_event_queue queue_init new_recorder))) = Some q' \<and>
      due_batch reversing_queue_env q' 0 50 = Inr [d1, d2] \<and>
      ev_type (pd_event d1) = Active \<and> ev_type (pd_event d2) = UserLogon"
proof -
  from sample_logon_reported [OF assms] obtain r' q' i j where
    h: "handle_at (sample_recorder_env\<lparr>re_queue := reversing_queue_env\<rparr>) (sample_call 10) (Logon 7) (Some ''kid'') 0
       (with_event_queue queue_init new_recorder) = (r', Inr ())" "r_event_queue r' = Some q'"
    and rep: "queue_rep reversing_queue_env
       [entry_of i (from_session_event 11 0 (Logon 7) (Some ''kid'')) 0,
        entry_of j (activity_event 12 0 True 0 (Some ''kid'')) 0] q'" by blast
  from due_batch_reversed [OF assms rep] h show ?thesis by (simp add: delivery_of_def)
qed

text \<open>
  The order the comment in \<^verbatim>\<open>handle_at\<close> promises (logon before activity) is not one the
  queue keeps: both events are stored with the same creation instant, the query orders by that instant only, and a database that visits equal
  keys in the opposite order delivers the activity first.
\<close>

theorem activity_may_be_delivered_before_logon:
  "queue_lawful reversing_queue_env \<and>
   (\<exists>q' d1 d2.
      r_event_queue (fst (handle_at (sample_recorder_env\<lparr>re_queue := reversing_queue_env\<rparr>) (sample_call 10)
        (Logon 7) (Some ''kid'') 0 (with_event_queue queue_init new_recorder))) = Some q' \<and>
      due_batch reversing_queue_env q' 0 50 = Inr [d1, d2] \<and>
      ev_type (pd_event d1) = Active \<and> ev_type (pd_event d2) = UserLogon)"
proof
  show law: "queue_lawful reversing_queue_env"
    using sample_queue_lawful by (simp add: reversing_queue_env_def queue_lawful_def queue_env_ok_def no_fault_def text_env_ok_def)
  show "\<exists>q' d1 d2.
      r_event_queue (fst (handle_at (sample_recorder_env\<lparr>re_queue := reversing_queue_env\<rparr>) (sample_call 10)
        (Logon 7) (Some ''kid'') 0 (with_event_queue queue_init new_recorder))) = Some q' \<and>
      due_batch reversing_queue_env q' 0 50 = Inr [d1, d2] \<and>
      ev_type (pd_event d1) = Active \<and> ev_type (pd_event d2) = UserLogon"
    using reversed_logon_order [OF law] .
qed

end
