(* ===== verification/Messages.thy ===== *)
theory Messages
  imports Protocol
begin

text \<open>
  \<^verbatim>\<open>agent/src/messages.rs\<close>: the administrator's messages waiting to be shown, the cursor the
  controller is polled from, and their cache file (an instance of \<open>cached_file\<close>).
\<close>

section \<open>Data and operations\<close>

record message_store =
  last_seq :: int
  messages :: "agent_message list"

definition default_message_store :: message_store where
  "default_message_store = \<lparr> last_seq = 0, messages = [] \<rparr>"

definition push_message :: "message_store \<Rightarrow> agent_message \<Rightarrow> message_store" where
  "push_message s m =
     (let s1 = s\<lparr>last_seq := max (last_seq s) (am_seq m)\<rparr>
      in if \<not> list_ex (\<lambda>x. am_id x = am_id m) (messages s1)
         then s1\<lparr>messages := messages s1 @ [m]\<rparr> else s1)"

definition store_apply :: "message_store \<Rightarrow> agent_message list \<Rightarrow> datetime \<Rightarrow> message_store \<times> bool" where
  "store_apply before incoming now =
     (let s = foldl push_message before incoming;
          s' = s\<lparr>messages := filter (\<lambda>m. am_expires_at m > now) (messages s)\<rparr>
      in (s', s' \<noteq> before))"

definition live :: "message_store \<Rightarrow> datetime \<Rightarrow> agent_message list" where
  "live s now = filter (\<lambda>m. am_expires_at m > now) (messages s)"

definition load_messages :: "message_store codec \<Rightarrow> filesystem \<Rightarrow> path \<Rightarrow> message_store" where
  "load_messages C fs p =
     (case read_to_string fs p of
        Inl _ \<Rightarrow> default_message_store
      | Inr text \<Rightarrow> (case from_text C text of Some s \<Rightarrow> s | None \<Rightarrow> default_message_store))"

definition save_messages ::
  "message_store codec \<Rightarrow> filesystem \<Rightarrow> path \<Rightarrow> message_store \<Rightarrow> filesystem \<times> (io_error + unit)" where
  "save_messages C fs p s = write_via_temp fs p (to_text C s)"

section \<open>Lemmas\<close>

definition message_ids :: "message_store \<Rightarrow> uuid set" where
  "message_ids s = am_id ` set (messages s)"

definition store_ok :: "message_store \<Rightarrow> bool" where
  "store_ok s \<longleftrightarrow> distinct (map am_id (messages s))"

lemma message_id_known: "list_ex (\<lambda>x. am_id x = u) (messages s) \<longleftrightarrow> u \<in> message_ids s"
  by (auto simp: list_ex_iff message_ids_def)

lemma push_message_unfold:
  "push_message s m = s\<lparr>last_seq := max (last_seq s) (am_seq m),
     messages := (if am_id m \<in> message_ids s then messages s else messages s @ [m])\<rparr>"
  by (auto simp: push_message_def Let_def message_id_known [symmetric])

lemma push_messages_ok:
  "store_ok s \<Longrightarrow> store_ok (foldl push_message s ms)"
proof (induction ms arbitrary: s)
  case Nil
  then show ?case by simp
next
  case (Cons m ms)
  then have "store_ok (push_message s m)"
    by (auto simp: store_ok_def push_message_unfold message_ids_def)
  with Cons.IH show ?case by simp
qed

lemma push_messages_seq:
  "last_seq (foldl push_message s ms) = foldl max (last_seq s) (map am_seq ms)"
  by (induction ms arbitrary: s) (simp_all add: push_message_unfold)

lemma push_messages_members:
  "set (messages s) \<subseteq> set (messages (foldl push_message s ms))"
  "set (messages (foldl push_message s ms)) \<subseteq> set (messages s) \<union> set ms"
  "m \<in> set ms \<Longrightarrow> am_id m \<in> message_ids (foldl push_message s ms)"
proof (induction ms arbitrary: s)
  case (Cons x xs)
  {
    case 1
    show ?case using Cons.IH(1) [of "push_message s x"]
      by (auto simp: push_message_unfold split: if_splits)
  next
    case 2
    show ?case using Cons.IH(2) [of "push_message s x"]
      by (auto simp: push_message_unfold split: if_splits)
  next
    case 3
    have "am_id x \<in> message_ids (push_message s x)"
      by (simp add: push_message_unfold message_ids_def)
    then have "am_id x \<in> message_ids (foldl push_message (push_message s x) xs)"
      using Cons.IH(1) [of "push_message s x"] unfolding message_ids_def by blast
    then show ?case using 3 Cons.IH(3) [of "push_message s x"] by auto
  }
qed simp_all

lemma push_known: "am_id m \<in> message_ids s \<Longrightarrow> am_seq m \<le> last_seq s \<Longrightarrow> push_message s m = s"
  by (simp add: push_message_unfold)

lemma push_all_known:
  "\<forall>m \<in> set ms. am_id m \<in> message_ids s \<and> am_seq m \<le> last_seq s \<Longrightarrow> foldl push_message s ms = s"
  by (induction ms) (simp_all add: push_known)

lemma foldl_max:
  fixes a :: "'a::linorder"
  shows "a \<le> foldl max a xs" "x \<in> set xs \<Longrightarrow> x \<le> foldl max a xs" "foldl max a xs \<in> insert a (set xs)"
proof (induction xs arbitrary: a)
  case (Cons y ys)
  {
    case 1
    show ?case using Cons.IH(1) [of "max a y"] by simp
  next
    case 2
    then show ?case using Cons.IH(1) [of "max a y"] Cons.IH(2) [of "max a y"] by auto
  next
    case 3
    show ?case using Cons.IH(3) [of "max a y"] by (auto simp: max_def split: if_splits)
  }
qed simp_all

interpretation message_cache: cached_file codec_ok to_text "\<lambda>s. s" save_messages load_messages
  by unfold_locales (auto simp: save_messages_def load_messages_def codec_simps)

section \<open>Properties\<close>

text \<open>
  Property C35. Applying a poll's messages: the stored ones keep distinct identifiers and none is
  expired; the cursor never moves back, covers every message received and is the sequence number of one
  of them if it moved; every message stored before and not expired is kept; every received one that is
  not expired and whose identifier is new is stored, and nothing else is. The result says
  whether anything changed, and receiving only known messages again changes nothing.
\<close>

theorem store_apply_exact:
  assumes "store_ok s" "distinct (map am_id incoming)"
  shows "let (s', changed) = store_apply s incoming now in
     store_ok s' \<and> live s' now = messages s' \<and>
     last_seq s \<le> last_seq s' \<and> (\<forall>m \<in> set incoming. am_seq m \<le> last_seq s') \<and>
     last_seq s' \<in> insert (last_seq s) (am_seq ` set incoming) \<and>
     set (messages s') = {m. now < am_expires_at m \<and>
        (m \<in> set (messages s) \<or> m \<in> set incoming \<and> am_id m \<notin> message_ids s)} \<and>
     (changed \<longleftrightarrow> s' \<noteq> s) \<and>
     ((\<forall>m \<in> set incoming. am_id m \<in> message_ids s \<and> am_seq m \<le> last_seq s) \<and> live s now = messages s \<longrightarrow> \<not> changed)"
proof -
  define t where "t = foldl push_message s incoming"
  define s' where "s' = t\<lparr>messages := filter (\<lambda>m. am_expires_at m > now) (messages t)\<rparr>"
  have ap: "store_apply s incoming now = (s', s' \<noteq> s)"
    by (simp add: store_apply_def t_def s'_def Let_def)
  have mem: "m \<in> set (messages t) \<longleftrightarrow> m \<in> set (messages s) \<or> m \<in> set incoming \<and> am_id m \<notin> message_ids s" for m
  proof -
    have "m \<in> set (messages t)" if m: "m \<in> set incoming" "am_id m \<notin> message_ids s"
    proof -
      from push_messages_members(3) [OF m(1), of s] obtain x where
        x: "x \<in> set (messages t)" "am_id x = am_id m" by (auto simp: t_def message_ids_def)
      with m(2) push_messages_members(2) [of s incoming] have "x \<in> set incoming"
        unfolding t_def message_ids_def by (metis UnE image_eqI subsetD)
      with x m(1) distinct_map_eqD [OF assms(2)] show ?thesis by metis
    qed
    moreover have "am_id m \<notin> message_ids s" if "m \<in> set (messages t)" "m \<notin> set (messages s)"
    proof
      assume "am_id m \<in> message_ids s"
      then obtain x where x: "x \<in> set (messages s)" "am_id x = am_id m" by (auto simp: message_ids_def)
      with push_messages_members(1) [of s incoming] have "x \<in> set (messages t)" by (auto simp: t_def)
      moreover have "distinct (map am_id (messages t))"
        using push_messages_ok [OF assms(1)] by (simp add: t_def store_ok_def)
      ultimately have "x = m" using that(1) x(2) distinct_map_eqD by metis
      with x(1) that(2) show False by simp
    qed
    ultimately show ?thesis
      using push_messages_members(1,2) [of s incoming] by (auto simp: t_def)
  qed
  have seq: "last_seq s' = foldl max (last_seq s) (map am_seq incoming)"
    by (simp add: s'_def t_def push_messages_seq)
  have "store_ok s'" using push_messages_ok [OF assms(1), of incoming]
    by (simp add: store_ok_def s'_def t_def distinct_map_filter)
  moreover have "s' = s" if "\<forall>m \<in> set incoming. am_id m \<in> message_ids s \<and> am_seq m \<le> last_seq s" "live s now = messages s"
    using that push_all_known [OF that(1)] by (simp add: s'_def t_def live_def)
  moreover have "am_seq m \<le> last_seq s'" if "m \<in> set incoming" for m
    unfolding seq using that by (intro foldl_max(2)) simp
  moreover have "last_seq s \<le> last_seq s'" "last_seq s' \<in> insert (last_seq s) (am_seq ` set incoming)"
    unfolding seq using foldl_max(1,3) [of "last_seq s" "map am_seq incoming"] by simp_all
  moreover have "set (messages s') = {m. now < am_expires_at m \<and>
        (m \<in> set (messages s) \<or> m \<in> set incoming \<and> am_id m \<notin> message_ids s)}" "live s' now = messages s'"
    using mem by (auto simp: s'_def live_def)
  ultimately show ?thesis unfolding ap by (simp only: Let_def split_conv) blast
qed

definition sample_message :: "int \<Rightarrow> datetime \<Rightarrow> agent_message" where
  "sample_message n t =
     \<lparr> am_seq = n, am_id = word_of_int n, am_title = None, am_body = ''Dinner'', am_created_at = 0, am_expires_at = t \<rparr>"

theorem store_apply_exact_witness:
  "store_apply default_message_store [sample_message 3 100, sample_message 5 10] 50
     = (\<lparr> last_seq = 5, messages = [sample_message 3 100] \<rparr>, True) \<and>
   set (messages (fst (store_apply default_message_store [sample_message 3 100, sample_message 5 10] 50)))
     = {m. 50 < am_expires_at m \<and> m \<in> {sample_message 3 100, sample_message 5 10}}"
proof -
  have "store_apply default_message_store [sample_message 3 100, sample_message 5 10] 50
     = (\<lparr> last_seq = 5, messages = [sample_message 3 100] \<rparr>, True)"
    by (simp add: store_apply_def push_message_def default_message_store_def sample_message_def Let_def)
  moreover have "store_ok default_message_store" by (simp add: store_ok_def default_message_store_def)
  ultimately show ?thesis
    using store_apply_exact [of default_message_store "[sample_message 3 100, sample_message 5 10]" 50]
    by (auto simp: sample_message_def default_message_store_def message_ids_def)
qed

text \<open>
  The message cache: a successful save is loaded back, a failed one leaves what was
  cached before, and a crash in the middle of a save leaves one or the other. So the cursor and
  the messages on disk always belong together.
\<close>

theorem messages_cache:
  assumes "codec_ok C" "json_file p"
  shows "(snd (save_messages C fs p s) = Inr () \<and> read_fault fs p = None \<longrightarrow>
        load_messages C (fst (save_messages C fs p s)) p = s) \<and>
     (\<forall>e. snd (save_messages C fs p s) = Inl e \<longrightarrow>
        load_messages C (fst (save_messages C fs p s)) p = load_messages C fs p) \<and>
     (\<forall>fs' \<in> set (write_via_temp_states fs p (to_text C s)).
        load_messages C fs' p = load_messages C fs p \<or> load_messages C fs' p = s)"
  using message_cache.save_then_load [OF assms, of fs s] message_cache.failed_save_keeps [OF assms(2), of C fs s]
    message_cache.crash_keeps_old_or_new [OF assms]
  by (cases "save_messages C fs p s") auto

definition serial_message :: "agent_message serial" where
  "serial_message = serial_iso
     (\<lambda>m. (am_seq m, am_id m, am_title m, am_body m, am_created_at m, am_expires_at m))
     (\<lambda>(n, u, t, b, c, e). \<lparr> am_seq = n, am_id = u, am_title = t, am_body = b, am_created_at = c, am_expires_at = e \<rparr>)
     (serial_prod serial_int (serial_prod serial_word (serial_prod (serial_option serial_string)
       (serial_prod serial_string (serial_prod serial_int serial_int)))))"

definition sample_message_codec :: "message_store codec" where
  "sample_message_codec = codec_of (serial_iso (\<lambda>s. (last_seq s, messages s))
     (\<lambda>(n, ms). \<lparr> last_seq = n, messages = ms \<rparr>) (serial_prod serial_int (serial_list serial_message)))"

lemma serial_message_ok [simp]: "serial_ok serial_message"
  unfolding serial_message_def by (rule serial_iso_ok) simp_all

lemma sample_message_codec_ok: "codec_ok sample_message_codec"
  unfolding sample_message_codec_def by (intro codec_of_ok serial_iso_ok) simp_all

theorem messages_cache_witness:
  "load_messages sample_message_codec
     (fst (save_messages sample_message_codec empty_fs [''messages.json''] \<lparr> last_seq = 4, messages = [sample_message 4 9] \<rparr>))
     [''messages.json''] = \<lparr> last_seq = 4, messages = [sample_message 4 9] \<rparr>"
proof -
  have "json_file [''messages.json'']" by (auto simp: json_file_def intro: exI [of _ "''messages''"])
  from messages_cache [OF sample_message_codec_ok this, of empty_fs "\<lparr> last_seq = 4, messages = [sample_message 4 9] \<rparr>"]
  show ?thesis by (simp add: save_messages_def write_via_temp_empty_fs) (simp add: empty_fs_def)
qed

end
