(* ===== verification/Clock.thy ===== *)
theory Clock
  imports Timelord_Prelude
begin

text \<open>
  \<^verbatim>\<open>agent/src/clock.rs\<close>: the trusted clock and the SNTP client that measures its offset. Packets
  are lists of bytes, NTP seconds and fractions 32-bit words; the millisecond quantities
  (\<^verbatim>\<open>i64\<close>) are integers, bounded far below 2^63 by what the packets can carry. The network is the
  parameter \<open>ntp_env\<close>: how names resolve, what an address answers, and when the local clock
  reads the send and receive times.
\<close>

unbundle bit_operations_syntax

section \<open>The trusted clock\<close>

record trusted_clock =
  tc_enabled :: bool
  tc_offset_ms :: int
  tc_synced :: bool

definition clock_new :: "bool \<Rightarrow> trusted_clock" where
  "clock_new enabled = \<lparr> tc_enabled = enabled, tc_offset_ms = 0, tc_synced = False \<rparr>"

text \<open>\<open>sys\<close> is \<^verbatim>\<open>Utc::now()\<close>.\<close>

definition trusted_now :: "trusted_clock \<Rightarrow> datetime \<Rightarrow> datetime" where
  "trusted_now c sys = sys + millis (tc_offset_ms c)"

definition set_offset_ms :: "int \<Rightarrow> trusted_clock \<Rightarrow> trusted_clock" where
  "set_offset_ms offset c = c\<lparr>tc_offset_ms := offset, tc_synced := True\<rparr>"

definition is_ready :: "trusted_clock \<Rightarrow> bool" where
  "is_ready c \<longleftrightarrow> \<not> tc_enabled c \<or> tc_synced c"

section \<open>NTP timestamps and packets\<close>

definition MAX_ROUND_TRIP_MS :: int where
  "MAX_ROUND_TRIP_MS = 3000"

definition NTP_UNIX_DELTA :: int where
  "NTP_UNIX_DELTA = 2208988800"

definition offset_ms :: "int \<Rightarrow> int \<Rightarrow> int \<Rightarrow> int \<Rightarrow> int" where
  "offset_ms t1 t2 t3 t4 = ((t2 - t1) + (t3 - t4)) sdiv 2"

definition delay_ms :: "int \<Rightarrow> int \<Rightarrow> int \<Rightarrow> int \<Rightarrow> int" where
  "delay_ms t1 t2 t3 t4 = (t4 - t1) - (t3 - t2)"

text \<open>\<^verbatim>\<open>u32::to_be_bytes\<close> and \<^verbatim>\<open>u32::from_be_bytes\<close>\<close>

definition to_be_bytes :: "u32 \<Rightarrow> u8 list" where
  "to_be_bytes w = [ucast (drop_bit 24 w), ucast (drop_bit 16 w), ucast (drop_bit 8 w), ucast w]"

fun from_be_bytes :: "u8 list \<Rightarrow> u32" where
  "from_be_bytes [a, b, c, d] =
     push_bit 24 (ucast a) OR push_bit 16 (ucast b) OR push_bit 8 (ucast c) OR ucast d"
| "from_be_bytes _ = 0"

definition to_ntp :: "int \<Rightarrow> u8 list" where
  "to_ntp unix_ms =
     (let secs = (word_of_int (unix_ms div 1000 + NTP_UNIX_DELTA) :: u32);
          frac = (unix_ms mod 1000) * 2 ^ 32 div 1000
      in to_be_bytes secs @ to_be_bytes (word_of_int frac))"

definition from_ntp :: "u8 list \<Rightarrow> int" where
  "from_ntp bytes =
     (let secs = uint (from_be_bytes (take 4 bytes));
          frac = uint (from_be_bytes (take 4 (drop 4 bytes)));
          secs' = (if secs AND 0x80000000 = 0 then secs + 2 ^ 32 else secs)
      in (secs' - NTP_UNIX_DELTA) * 1000 + (frac * 1000) div 2 ^ 32)"

definition request_packet :: "int \<Rightarrow> u8 list" where
  "request_packet t1_ms = [0x23] @ replicate 39 0 @ to_ntp t1_ms"

text \<open>\<open>slice a b xs\<close> is \<^verbatim>\<open>xs[a..b]\<close>.\<close>

definition slice :: "nat \<Rightarrow> nat \<Rightarrow> 'a list \<Rightarrow> 'a list" where
  "slice a b xs = take (b - a) (drop a xs)"

definition parse_reply :: "u8 list \<Rightarrow> u8 list \<Rightarrow> string + int \<times> int" where
  "parse_reply reply request =
     (if length reply < 48 then Inl ''short NTP reply''
      else if reply ! 0 AND 7 \<noteq> 4 then Inl ''not a server-mode reply''
      else if drop_bit 6 (reply ! 0) = 3 then Inl ''server clock is not synchronised''
      else if \<not> (1 \<le> reply ! 1 \<and> reply ! 1 \<le> 15) then Inl ''unusable stratum''
      else if slice 24 32 reply \<noteq> slice 40 48 request then Inl ''reply does not match the request''
      else if list_all (\<lambda>b. b = 0) (slice 40 48 reply) then Inl ''reply has no transmit time''
      else Inr (from_ntp (slice 32 40 reply), from_ntp (slice 40 48 reply)))"

section \<open>Asking servers\<close>

record socket_addr =
  sa_ip :: string
  sa_port :: u16

text \<open>For each server name: the local times just before sending and just after receiving.\<close>

record ntp_env =
  resolve :: "string \<Rightarrow> string + socket_addr list"
  exchange :: "socket_addr \<Rightarrow> u8 list \<Rightarrow> string + u8 list \<times> socket_addr"
  send_time_ms :: "string \<Rightarrow> int"
  recv_time_ms :: "string \<Rightarrow> int"

definition ntp_target :: "string \<Rightarrow> string" where
  "ntp_target server = (if CHR '':'' \<in> set server then server else server @ '':123'')"

definition query :: "ntp_env \<Rightarrow> string \<Rightarrow> string + int" where
  "query N server =
     (let target = ntp_target server in
      case resolve N target of
        Inl e \<Rightarrow> Inl (''resolving '' @ target)
      | Inr [] \<Rightarrow> Inl (target @ '' did not resolve'')
      | Inr (addr # _) \<Rightarrow>
          (let t1 = send_time_ms N server; request = request_packet t1 in
           case exchange N addr request of
             Inl e \<Rightarrow> Inl e
           | Inr (datagram, sender) \<Rightarrow>
               (let reply = take 128 datagram; t4 = recv_time_ms N server in
                if sa_ip sender \<noteq> sa_ip addr then Inl ''reply came from another address''
                else
                  (case parse_reply reply request of
                     Inl e \<Rightarrow> Inl e
                   | Inr (t2, t3) \<Rightarrow>
                       (let delay = delay_ms t1 t2 t3 t4 in
                        if \<not> (0 \<le> delay \<and> delay \<le> MAX_ROUND_TRIP_MS) then Inl ''round trip is too slow to trust''
                        else Inr (offset_ms t1 t2 t3 t4))))))"

definition median :: "int list \<Rightarrow> int option" where
  "median values =
     (if values = [] then None
      else
        (let sorted_values = sort values; mid = length values div 2
         in Some (if length values mod 2 = 1 then sorted_values ! mid
                  else (sorted_values ! (mid - 1) + sorted_values ! mid) sdiv 2)))"

definition measure_offset :: "ntp_env \<Rightarrow> string list \<Rightarrow> int option" where
  "measure_offset N servers =
     median (List.map_filter (\<lambda>s. case query N s of Inr offset \<Rightarrow> Some offset | Inl _ \<Rightarrow> None) servers)"

section \<open>Timestamps\<close>

lemma from_to_be_bytes: "from_be_bytes (to_be_bytes w) = w"
proof (rule bit_word_eqI)
  fix n assume "n < LENGTH(32)"
  then consider "n < 8" | "8 \<le> n" "n < 16" | "16 \<le> n" "n < 24" | "24 \<le> n" "n < 32" by force
  then show "bit (from_be_bytes (to_be_bytes w)) n = bit w n"
    by cases (auto simp: to_be_bytes_def bit_simps)
qed

lemma length_to_be_bytes [simp]: "length (to_be_bytes w) = 4"
  by (simp add: to_be_bytes_def)

lemma length_to_ntp [simp]: "length (to_ntp t) = 8"
  by (simp add: to_ntp_def Let_def)

lemma top_bit_clear:
  fixes x :: int
  assumes "0 \<le> x" "x < 2 ^ 32"
  shows "x AND 0x80000000 = 0 \<longleftrightarrow> x < 2 ^ 31"
proof -
  have "x AND 2 ^ 31 = 0 \<longleftrightarrow> \<not> bit x 31" by (rule and_exp_eq_0_iff_not_bit)
  moreover have "bit x 31 \<longleftrightarrow> odd (x div 2 ^ 31)" by (rule bit_iff_odd)
  moreover have "x div 2 ^ 31 = (if x < 2 ^ 31 then 0 else 1)" using assms by auto
  ultimately show ?thesis by simp
qed

lemma ntp_seconds:
  assumes "2 ^ 31 \<le> n" "n < 2 ^ 31 + 2 ^ 32"
  shows "(let secs = n mod 2 ^ 32 in if secs AND 0x80000000 = 0 then secs + 2 ^ 32 else secs) = (n :: int)"
proof (cases "n < 2 ^ 32")
  case True
  then have "n mod 2 ^ 32 = n" using assms by simp
  with True assms top_bit_clear [of n] show ?thesis by (simp add: Let_def)
next
  case False
  then have m: "n mod 2 ^ 32 = n - 2 ^ 32" using assms by (intro int_mod_pos_eq [where q = 1]) simp_all
  with False assms top_bit_clear [of "n - 2 ^ 32"] show ?thesis by (simp add: Let_def)
qed

lemma ntp_fraction:
  fixes r :: int
  assumes "0 \<le> r" "r < 1000"
  shows "0 \<le> r * 2 ^ 32 div 1000" "r * 2 ^ 32 div 1000 < 2 ^ 32"
    "(r * 2 ^ 32 div 1000) * 1000 div 2 ^ 32 \<in> {r - 1, r}"
proof -
  define f where "f = r * 2 ^ 32 div 1000"
  have f: "f * 1000 \<le> r * 2 ^ 32" "r * 2 ^ 32 < f * 1000 + 1000"
    using div_mult_mod_eq [of "r * 2 ^ 32" 1000] by (simp_all add: f_def)
  from f assms show "0 \<le> r * 2 ^ 32 div 1000" "r * 2 ^ 32 div 1000 < 2 ^ 32" by (simp_all add: f_def)
  have "f * 1000 div 2 ^ 32 \<le> r * 2 ^ 32 div 2 ^ 32" using f(1) by (rule zdiv_mono1) simp
  then have "f * 1000 div 2 ^ 32 \<le> r" by simp
  moreover have "r - 1 \<le> f * 1000 div 2 ^ 32" using f(2) by simp
  ultimately show "(r * 2 ^ 32 div 1000) * 1000 div 2 ^ 32 \<in> {r - 1, r}" by (auto simp: f_def)
qed

lemma from_to_ntp:
  assumes "2 ^ 31 \<le> ms div 1000 + NTP_UNIX_DELTA" "ms div 1000 + NTP_UNIX_DELTA < 2 ^ 31 + 2 ^ 32"
  shows "from_ntp (to_ntp ms) \<in> {ms - 1, ms}"
proof -
  let ?n = "ms div 1000 + NTP_UNIX_DELTA" and ?r = "ms mod 1000"
  have r: "0 \<le> ?r" "?r < 1000" by simp_all
  have "uint (word_of_int (?r * 2 ^ 32 div 1000) :: u32) = ?r * 2 ^ 32 div 1000"
    using ntp_fraction(1,2) [OF r] by (simp add: uint_word_of_int)
  moreover have "uint (word_of_int ?n :: u32) = ?n mod 2 ^ 32"
    by (simp only: uint_word_of_int) simp
  ultimately have "from_ntp (to_ntp ms) =
      ((let secs = ?n mod 2 ^ 32 in if secs AND 0x80000000 = 0 then secs + 2 ^ 32 else secs) - NTP_UNIX_DELTA) * 1000
        + (?r * 2 ^ 32 div 1000) * 1000 div 2 ^ 32"
    by (simp add: from_ntp_def to_ntp_def Let_def from_to_be_bytes del: of_int_add)
  also have "\<dots> = (?n - NTP_UNIX_DELTA) * 1000 + (?r * 2 ^ 32 div 1000) * 1000 div 2 ^ 32"
    unfolding ntp_seconds [OF assms] ..
  also have "\<dots> = ms - ?r + (?r * 2 ^ 32 div 1000) * 1000 div 2 ^ 32"
    by (simp add: minus_mod_eq_div_mult)
  finally show ?thesis using ntp_fraction(3) [OF r] by auto
qed

section \<open>Offsets\<close>

lemma sdiv_two_between:
  fixes x a b :: int
  assumes "2 * a \<le> x" "x \<le> 2 * b"
  shows "a \<le> x sdiv 2" "x sdiv 2 \<le> b"
  using assms by (auto simp: signed_divide_int_def sgn_if)

lemma offset_error:
  assumes "t1 + \<theta> \<le> t2" "t3 \<le> t4 + \<theta>" "delay_ms t1 t2 t3 t4 \<le> 2 * d"
  shows "\<bar>offset_ms t1 t2 t3 t4 - \<theta>\<bar> \<le> d"
  using sdiv_two_between [of "\<theta> - d" "(t2 - t1) + (t3 - t4)" "\<theta> + d"] assms
  by (auto simp: offset_ms_def delay_ms_def)

text \<open>Whose answers can be believed: those of a server whose clock shows \<open>\<theta>\<close> more than the local one.\<close>

definition honest :: "ntp_env \<Rightarrow> int \<Rightarrow> string \<Rightarrow> bool" where
  "honest N \<theta> server \<longleftrightarrow>
     (\<forall>addr rest datagram sender t2 t3.
        resolve N (ntp_target server) = Inr (addr # rest) \<longrightarrow>
        exchange N addr (request_packet (send_time_ms N server)) = Inr (datagram, sender) \<longrightarrow>
        parse_reply (take 128 datagram) (request_packet (send_time_ms N server)) = Inr (t2, t3) \<longrightarrow>
        send_time_ms N server + \<theta> \<le> t2 \<and> t3 \<le> recv_time_ms N server + \<theta>)"

lemma query_Inr:
  assumes "query N server = Inr off"
  obtains addr rest datagram sender t2 t3 where
    "resolve N (ntp_target server) = Inr (addr # rest)"
    "exchange N addr (request_packet (send_time_ms N server)) = Inr (datagram, sender)" "sa_ip sender = sa_ip addr"
    "parse_reply (take 128 datagram) (request_packet (send_time_ms N server)) = Inr (t2, t3)"
    "0 \<le> delay_ms (send_time_ms N server) t2 t3 (recv_time_ms N server)"
    "delay_ms (send_time_ms N server) t2 t3 (recv_time_ms N server) \<le> MAX_ROUND_TRIP_MS"
    "off = offset_ms (send_time_ms N server) t2 t3 (recv_time_ms N server)"
  using assms by (auto simp: query_def Let_def split: sum.splits list.splits if_splits prod.splits)

lemma honest_query:
  assumes "honest N \<theta> server" "query N server = Inr off"
  shows "\<bar>off - \<theta>\<bar> \<le> 1500"
proof -
  from assms(2) obtain addr rest datagram sender t2 t3 where q:
    "resolve N (ntp_target server) = Inr (addr # rest)"
    "exchange N addr (request_packet (send_time_ms N server)) = Inr (datagram, sender)"
    "parse_reply (take 128 datagram) (request_packet (send_time_ms N server)) = Inr (t2, t3)"
    "delay_ms (send_time_ms N server) t2 t3 (recv_time_ms N server) \<le> MAX_ROUND_TRIP_MS"
    "off = offset_ms (send_time_ms N server) t2 t3 (recv_time_ms N server)" by (rule query_Inr)
  with assms(1) have "send_time_ms N server + \<theta> \<le> t2" "t3 \<le> recv_time_ms N server + \<theta>"
    unfolding honest_def by blast+
  with offset_error [of "send_time_ms N server" \<theta> t2 t3 "recv_time_ms N server" 1500] q(4,5) show ?thesis
    by (simp add: MAX_ROUND_TRIP_MS_def)
qed

section \<open>The median\<close>

definition outside :: "int \<Rightarrow> int \<Rightarrow> int list \<Rightarrow> nat" where
  "outside lo hi xs = length (filter (\<lambda>x. \<not> (lo \<le> x \<and> x \<le> hi)) xs)"

lemma outside_append: "outside lo hi (xs @ ys) = outside lo hi xs + outside lo hi ys"
  by (simp add: outside_def)

lemma outside_all: "(\<And>x. x \<in> set xs \<Longrightarrow> x < lo \<or> hi < x) \<Longrightarrow> outside lo hi xs = length xs"
  unfolding outside_def by (subst filter_True) force+

lemma sorted_low_prefix:
  assumes "sorted xs" "i < length xs" "xs ! i < lo"
  shows "Suc i \<le> outside lo hi xs"
proof -
  have "x < lo" if "x \<in> set (take (Suc i) xs)" for x
  proof -
    from that obtain j where "j < Suc i" "x = xs ! j" by (auto simp: in_set_conv_nth)
    with sorted_nth_mono [OF assms(1), of j i] assms(2,3) show ?thesis by simp
  qed
  then have "outside lo hi (take (Suc i) xs) = Suc i" using assms(2) by (simp add: outside_all)
  then show ?thesis by (metis append_take_drop_id le_add1 outside_append)
qed

lemma sorted_high_suffix:
  assumes "sorted xs" "i < length xs" "hi < xs ! i"
  shows "length xs - i \<le> outside lo hi xs"
proof -
  have "hi < x" if "x \<in> set (drop i xs)" for x
  proof -
    from that obtain j where "j < length (drop i xs)" "x = drop i xs ! j" by (auto simp: in_set_conv_nth)
    with sorted_nth_mono [OF assms(1), of i "i + j"] assms(2,3) show ?thesis by (simp add: less_diff_conv)
  qed
  then have "outside lo hi (drop i xs) = length xs - i" by (simp add: outside_all)
  then show ?thesis by (metis append_take_drop_id le_add2 outside_append)
qed

lemma median_within:
  assumes "2 * outside lo hi xs < length xs"
  shows "\<exists>m. median xs = Some m \<and> lo \<le> m \<and> m \<le> hi"
proof -
  let ?s = "sort xs" and ?n = "length xs" and ?mid = "length xs div 2"
  have out: "outside lo hi ?s = outside lo hi xs"
    unfolding outside_def by (metis mset_filter mset_sort size_mset)
  have ne: "xs \<noteq> []" and mid: "?mid < ?n" using assms by auto
  have hi: "?s ! ?mid \<le> hi"
    using sorted_high_suffix [of ?s ?mid hi lo] assms mid out by (cases "hi < ?s ! ?mid") auto
  have lo: "lo \<le> ?s ! i" if "2 * Suc i \<ge> ?n" "i < ?n" for i
    using sorted_low_prefix [of ?s i lo hi] assms out that by (cases "?s ! i < lo") auto
  show ?thesis
  proof (cases "?n mod 2 = 1")
    case True
    then have "?n = 2 * ?mid + 1" using div_mult_mod_eq [of ?n 2] by simp
    then have "lo \<le> ?s ! ?mid" using mid by (intro lo) simp_all
    with hi ne True show ?thesis by (simp add: median_def Let_def)
  next
    case False
    then have n: "?n = 2 * ?mid" using div_mult_mod_eq [of ?n 2] by simp
    then have pos: "?mid \<noteq> 0" using ne mid by linarith
    then have "lo \<le> ?s ! (?mid - 1)" "lo \<le> ?s ! ?mid" using mid n by (intro lo; simp)+
    moreover have "?s ! (?mid - 1) \<le> ?s ! ?mid" using mid by (intro sorted_nth_mono) simp_all
    ultimately show ?thesis
      using hi ne False sdiv_two_between [of lo "?s ! (?mid - 1) + ?s ! ?mid" hi]
      by (simp add: median_def Let_def)
  qed
qed

section \<open>Properties\<close>

text \<open>
  NTP timestamps carry an instant to the millisecond: writing a Unix time into a packet and
  reading it back gives the same millisecond or the one before (the fraction is rounded down
  twice), for every time from 1968 to 2104, across the era change of 2036.
\<close>

theorem ntp_roundtrip:
  assumes "2 ^ 31 - NTP_UNIX_DELTA \<le> ms div 1000" "ms div 1000 < 2 ^ 31 + 2 ^ 32 - NTP_UNIX_DELTA"
  shows "from_ntp (to_ntp ms) \<in> {ms - 1, ms}"
  by (rule from_to_ntp) (use assms in simp_all)

theorem ntp_roundtrip_witness:
  "from_ntp (to_ntp 2200000000123) \<in> {2200000000122, 2200000000123}"
  using ntp_roundtrip [of 2200000000123] by (simp add: NTP_UNIX_DELTA_def)

text \<open>
  Property C34. What a query accepts: a reply of at least 48 bytes from the address that was asked, from a
  server that is synchronised and of stratum 1 to 15, that echoes this very request's transmit time, has
  a transmit time of its own, and took no more than three seconds of network time; and the offset is
  then the one of RFC 4330. Everything else is an error.
\<close>

theorem query_accepts_only_matching_replies:
  assumes "query N server = Inr off"
  shows "\<exists>addr rest datagram sender reply t2 t3.
     resolve N (ntp_target server) = Inr (addr # rest) \<and>
     exchange N addr (request_packet (send_time_ms N server)) = Inr (datagram, sender) \<and>
     sa_ip sender = sa_ip addr \<and> reply = take 128 datagram \<and> 48 \<le> length reply \<and>
     reply ! 0 AND 7 = 4 \<and> drop_bit 6 (reply ! 0) \<noteq> 3 \<and> reply ! 1 \<in> {1..15} \<and>
     slice 24 32 reply = to_ntp (send_time_ms N server) \<and> (\<exists>b \<in> set (slice 40 48 reply). b \<noteq> 0) \<and>
     t2 = from_ntp (slice 32 40 reply) \<and> t3 = from_ntp (slice 40 48 reply) \<and>
     delay_ms (send_time_ms N server) t2 t3 (recv_time_ms N server) \<in> {0..3000} \<and>
     off = ((t2 - send_time_ms N server) + (t3 - recv_time_ms N server)) sdiv 2"
proof -
  from assms obtain addr rest datagram sender t2 t3 where q:
    "resolve N (ntp_target server) = Inr (addr # rest)"
    "exchange N addr (request_packet (send_time_ms N server)) = Inr (datagram, sender)" "sa_ip sender = sa_ip addr"
    "parse_reply (take 128 datagram) (request_packet (send_time_ms N server)) = Inr (t2, t3)"
    "0 \<le> delay_ms (send_time_ms N server) t2 t3 (recv_time_ms N server)"
    "delay_ms (send_time_ms N server) t2 t3 (recv_time_ms N server) \<le> MAX_ROUND_TRIP_MS"
    "off = offset_ms (send_time_ms N server) t2 t3 (recv_time_ms N server)" by (rule query_Inr)
  have echo: "slice 40 48 (request_packet t) = to_ntp t" for t
    by (simp add: slice_def request_packet_def)
  let ?reply = "take 128 datagram"
  from q(4) have "48 \<le> length ?reply \<and> ?reply ! 0 AND 7 = 4 \<and> drop_bit 6 (?reply ! 0) \<noteq> 3 \<and> ?reply ! 1 \<in> {1..15} \<and>
     slice 24 32 ?reply = to_ntp (send_time_ms N server) \<and> (\<exists>b \<in> set (slice 40 48 ?reply). b \<noteq> 0) \<and>
     t2 = from_ntp (slice 32 40 ?reply) \<and> t3 = from_ntp (slice 40 48 ?reply)"
    unfolding parse_reply_def echo list_all_iff by (auto split: if_splits)
  with q show ?thesis by (auto simp: MAX_ROUND_TRIP_MS_def offset_ms_def)
qed

text \<open>A network of servers that answer at once with the given Unix time in milliseconds.\<close>

definition sample_reply :: "int \<Rightarrow> u8 list \<Rightarrow> u8 list" where
  "sample_reply t request = [0x24, 2] @ replicate 22 0 @ drop 40 request @ to_ntp t @ to_ntp t"

definition sample_ntp_env :: "(string \<Rightarrow> int) \<Rightarrow> ntp_env" where
  "sample_ntp_env time_of =
     \<lparr> resolve = (\<lambda>target. Inr [\<lparr> sa_ip = target, sa_port = 123 \<rparr>]),
       exchange = (\<lambda>addr request. Inr (sample_reply (time_of (sa_ip addr)) request, addr)),
       send_time_ms = (\<lambda>_. 1700000000000), recv_time_ms = (\<lambda>_. 1700000000010) \<rparr>"

definition sample_times :: "string \<Rightarrow> int" where
  "sample_times target = (if target = ''c:123'' then 1800000000000 else 1700000006000)"

lemma sample_query:
  "query (sample_ntp_env sample_times) ''a'' = Inr 5995"
  "query (sample_ntp_env sample_times) ''b'' = Inr 5995"
  "query (sample_ntp_env sample_times) ''c'' = Inr 99999999995"
  by code_simp+

theorem query_accepts_only_matching_replies_witness:
  "let N = sample_ntp_env sample_times in
   query N ''a'' = Inr 5995 \<and>
   (\<exists>addr datagram sender. resolve N ''a:123'' = Inr [addr] \<and>
      exchange N addr (request_packet (send_time_ms N ''a'')) = Inr (datagram, sender) \<and> sa_ip sender = sa_ip addr \<and>
      48 \<le> length datagram \<and> slice 24 32 (take 128 datagram) = to_ntp (send_time_ms N ''a'') \<and>
      delay_ms (send_time_ms N ''a'') (from_ntp (slice 32 40 (take 128 datagram))) (from_ntp (slice 40 48 (take 128 datagram)))
        (recv_time_ms N ''a'') \<in> {0..3000})"
proof -
  have "ntp_target ''a'' = ''a:123''" by code_simp
  with query_accepts_only_matching_replies [OF sample_query(1)] sample_query(1) show ?thesis
    by (auto simp: sample_ntp_env_def Let_def)
qed

lemma measure_offset_majority:
  assumes "length (filter (\<lambda>s. \<exists>off. query N s = Inr off) servers)
     < 2 * length (filter (\<lambda>s. (\<exists>off. query N s = Inr off) \<and> honest N \<theta> s) servers)"
  shows "\<exists>off. measure_offset N servers = Some off \<and> \<bar>off - \<theta>\<bar> \<le> 1500"
proof -
  let ?ans = "filter (\<lambda>s. \<exists>off. query N s = Inr off) servers"
  define val where "val = (\<lambda>s. THE off. query N s = Inr off)"
  have offs: "List.map_filter (\<lambda>s. case query N s of Inr off \<Rightarrow> Some off | Inl _ \<Rightarrow> None) servers = map val ?ans"
    by (induction servers) (auto simp: map_filter_def val_def split: sum.splits)
  have "outside (\<theta> - 1500) (\<theta> + 1500) (map val ?ans) \<le> length (filter (\<lambda>s. \<not> honest N \<theta> s) ?ans)"
  proof -
    have "\<theta> - 1500 \<le> val s \<and> val s \<le> \<theta> + 1500" if "s \<in> set ?ans" "honest N \<theta> s" for s
      using that honest_query [OF that(2)] by (auto simp: val_def)
    then have "outside (\<theta> - 1500) (\<theta> + 1500) (map val xs) \<le> length (filter (\<lambda>s. \<not> honest N \<theta> s) xs)"
      if "set xs \<subseteq> set ?ans" for xs
      using that by (induction xs) (auto simp: outside_def)
    then show ?thesis by blast
  qed
  moreover have "length (filter (honest N \<theta>) ?ans) + length (filter (\<lambda>s. \<not> honest N \<theta> s) ?ans) = length ?ans"
    by (rule sum_length_filter_compl)
  moreover have "filter (honest N \<theta>) ?ans = filter (\<lambda>s. (\<exists>off. query N s = Inr off) \<and> honest N \<theta> s) servers"
    by (simp add: conj_commute)
  ultimately have "2 * outside (\<theta> - 1500) (\<theta> + 1500) (map val ?ans) < length (map val ?ans)"
    using assms by simp
  from median_within [OF this] show ?thesis by (auto simp: measure_offset_def offs)
qed

text \<open>
  Property C33. The measured offset is right to a second and a half as long as most of the answers are
  honest: if more than half of the servers that gave an answer have clocks that agree on the true offset,
  whatever the others say, the median is within 1500 ms of it.
\<close>

theorem measure_offset_accurate:
  assumes "length (filter (\<lambda>s. \<exists>off. query N s = Inr off) servers)
     < 2 * length (filter (\<lambda>s. (\<exists>off. query N s = Inr off) \<and> honest N \<theta> s) servers)"
  shows "\<exists>off. measure_offset N servers = Some off \<and> \<bar>off - \<theta>\<bar> \<le> 1500"
  by (rule measure_offset_majority [OF assms])

lemma sample_honest:
  assumes "time = 1700000006000" "sample_times (ntp_target s) = time"
  shows "honest (sample_ntp_env sample_times) 6000 s"
proof -
  have "parse_reply (take 128 (sample_reply 1700000006000 (request_packet 1700000000000))) (request_packet 1700000000000)
      = Inr (1700000006000, 1700000006000)" by code_simp
  with assms show ?thesis by (auto simp: honest_def sample_ntp_env_def)
qed

theorem measure_offset_accurate_witness:
  "\<exists>off. measure_offset (sample_ntp_env sample_times) [''a'', ''b'', ''c''] = Some off \<and> \<bar>off - 6000\<bar> \<le> 1500"
  by (rule measure_offset_accurate)
    (simp add: sample_query sample_honest [OF refl] ntp_target_def sample_times_def)

text \<open>
  The comment on \<^verbatim>\<open>measure\<close> says that a single wrong server cannot move the clock. With
  three answers it cannot, by the property above; with two answers the median is their mean, and the wrong one moves
  it by half of its own error.
\<close>

theorem median_of_two_is_moved:
  "median [true_offset, true_offset + 2 * err] = Some (true_offset + err)"
proof -
  have "sort [a, b] = [min a b, max a b]" for a b :: int by (simp add: min_def max_def)
  then have "median [a, b] = Some ((a + b) sdiv 2)" for a b
    by (simp add: median_def Let_def min_def max_def add.commute)
  moreover have "(2 * x) sdiv 2 = x" for x :: int using sdiv_two_between [of x "2 * x" x] by simp
  moreover have "true_offset + (true_offset + 2 * err) = 2 * (true_offset + err)" by simp
  ultimately show ?thesis by presburger
qed

end
