(* ===== verification/Config.thy ===== *)
theory Config
  imports Filesystem
begin

text \<open>
  \<^verbatim>\<open>agent/src/config.rs\<close>: the configuration file, the environment and command line overrides,
  and how they are resolved. The TOML encoding of the file is a parameter (a \<open>codec\<close>), as are the
  fresh identifier of \<^verbatim>\<open>Uuid::new_v4()\<close>, the process environment and the host name. Texts are
  UTF-8 bytes, so \<^verbatim>\<open>str::trim\<close> strips the encodings of the Unicode white space characters.
\<close>

section \<open>Text\<close>

text \<open>The characters with the property \<^verbatim>\<open>White_Space\<close>, in UTF-8.\<close>

definition white_space :: "string list" where
  "white_space =
     [[CHR 0x09], [CHR 0x0A], [CHR 0x0B], [CHR 0x0C], [CHR 0x0D], [CHR 0x20],
      [CHR 0xC2, CHR 0x85], [CHR 0xC2, CHR 0xA0], [CHR 0xE1, CHR 0x9A, CHR 0x80]]
     @ map (\<lambda>b. [CHR 0xE2, CHR 0x80, b])
         [CHR 0x80, CHR 0x81, CHR 0x82, CHR 0x83, CHR 0x84, CHR 0x85, CHR 0x86, CHR 0x87, CHR 0x88,
          CHR 0x89, CHR 0x8A, CHR 0xA8, CHR 0xA9, CHR 0xAF]
     @ [[CHR 0xE2, CHR 0x81, CHR 0x9F], [CHR 0xE3, CHR 0x80, CHR 0x80]]"

text \<open>Strip the encodings \<open>ws\<close> from the front, repeatedly.\<close>

function strip :: "string list \<Rightarrow> string \<Rightarrow> string" where
  "strip ws s =
     (case find (\<lambda>w. w \<noteq> [] \<and> take (length w) s = w) ws of
        None \<Rightarrow> s
      | Some w \<Rightarrow> strip ws (drop (length w) s))"
  by pat_completeness auto
termination
proof (relation "measure (\<lambda>(ws, s). length s)", simp)
  fix ws s w
  assume "find (\<lambda>w. w \<noteq> [] \<and> take (length w) s = w) ws = Some w"
  then have "w \<noteq> []" "take (length w) s = w" by (auto simp: find_Some_iff)
  then have "s \<noteq> []" "length w \<noteq> 0" by auto
  then show "((ws, drop (length w) s), (ws, s)) \<in> measure (\<lambda>(ws, s). length s)" by simp
qed

declare strip.simps [simp del]

definition trim :: "string \<Rightarrow> string" where
  "trim s = rev (strip (map rev white_space) (rev (strip white_space s)))"

definition to_ascii_lowercase :: "string \<Rightarrow> string" where
  "to_ascii_lowercase s = map (\<lambda>c. if 65 \<le> (of_char c :: nat) \<and> (of_char c :: nat) \<le> 90
      then char_of ((of_char c :: nat) + 32) else c) s"

section \<open>Data\<close>

record time_section =
  ntp_enabled_opt :: "bool option"
  ntp_servers_opt :: "string list option"

record agent_section =
  as_device_id :: string
  as_device_name :: string
  heartbeat_interval_seconds :: "nat option"
  event_retry_interval_seconds :: "nat option"

record controller_section =
  cs_url :: string
  cs_discovery_enabled :: "bool option"
  cs_discovery_port :: "u16 option"
  discovery_timeout_seconds :: "nat option"

record agent_file_config =
  fc_agent :: agent_section
  fc_controller :: controller_section
  fc_time :: time_section

definition default_file_config :: agent_file_config where
  "default_file_config =
     \<lparr> fc_agent = \<lparr> as_device_id = [], as_device_name = [], heartbeat_interval_seconds = None,
                    event_retry_interval_seconds = None \<rparr>,
       fc_controller = \<lparr> cs_url = [], cs_discovery_enabled = None, cs_discovery_port = None,
                         discovery_timeout_seconds = None \<rparr>,
       fc_time = \<lparr> ntp_enabled_opt = None, ntp_servers_opt = None \<rparr> \<rparr>"

text \<open>\<^verbatim>\<open>EnvOverrides\<close> and \<^verbatim>\<open>CliOverrides\<close> have the same fields.\<close>

record overrides =
  ov_controller_url :: "string option"
  ov_device_id :: "string option"
  ov_device_name :: "string option"
  ov_discovery_enabled :: "bool option"

definition no_overrides :: overrides where
  "no_overrides = \<lparr> ov_controller_url = None, ov_device_id = None, ov_device_name = None,
     ov_discovery_enabled = None \<rparr>"

record agent_config =
  device_id :: uuid
  device_id_generated :: bool
  device_name :: string
  heartbeat_interval :: nanos
  event_retry_interval :: nanos
  controller_url :: "string option"
  discovery_enabled :: bool
  discovery_port :: u16
  discovery_timeout :: nanos
  ntp_enabled :: bool
  ntp_servers :: "string list"

section \<open>Operations\<close>

definition non_empty :: "string option \<Rightarrow> string option" where
  "non_empty v = (case v of Some s \<Rightarrow> if trim s \<noteq> [] then Some s else None | None \<Rightarrow> None)"

definition parse_bool :: "string \<Rightarrow> bool option" where
  "parse_bool v =
     (let t = to_ascii_lowercase (trim v) in
      if t \<in> set [''1'', ''true'', ''yes'', ''on''] then Some True
      else if t \<in> set [''0'', ''false'', ''no'', ''off''] then Some False
      else None)"

definition from_process_env :: "(string \<Rightarrow> string option) \<Rightarrow> overrides" where
  "from_process_env var =
     \<lparr> ov_controller_url = non_empty (var ''TIMELORD_CONTROLLER_URL''),
       ov_device_id = non_empty (var ''TIMELORD_DEVICE_ID''),
       ov_device_name = non_empty (var ''TIMELORD_DEVICE_NAME''),
       ov_discovery_enabled = Option.bind (var ''TIMELORD_DISCOVERY_ENABLED'') parse_bool \<rparr>"

text \<open>\<^verbatim>\<open>Option::or\<close>\<close>

definition or_else :: "'a option \<Rightarrow> 'a option \<Rightarrow> 'a option" where
  "or_else a b = (case a of Some x \<Rightarrow> Some x | None \<Rightarrow> b)"

definition unwrap_or :: "'a option \<Rightarrow> 'a \<Rightarrow> 'a" where
  "unwrap_or a d = (case a of Some x \<Rightarrow> x | None \<Rightarrow> d)"

definition DEFAULT_NTP_SERVERS :: "string list" where
  "DEFAULT_NTP_SERVERS = [''time.cloudflare.com'', ''time.windows.com'', ''pool.ntp.org'']"

definition resolve_ntp_servers :: "string list option \<Rightarrow> string list" where
  "resolve_ntp_servers servers =
     (case servers of
        None \<Rightarrow> DEFAULT_NTP_SERVERS
      | Some ss \<Rightarrow> (let kept = filter (\<lambda>s. s \<noteq> []) (map trim ss)
                    in if kept = [] then DEFAULT_NTP_SERVERS else kept))"

definition device_id_text :: "agent_file_config \<Rightarrow> overrides \<Rightarrow> overrides \<Rightarrow> string option" where
  "device_id_text conf env cli =
     or_else (ov_device_id cli) (or_else (ov_device_id env)
       (non_empty (Some (as_device_id (fc_agent conf)))))"

text \<open>\<open>fresh\<close> is \<^verbatim>\<open>Uuid::new_v4()\<close>, \<open>hostname\<close> what the supplier returns.\<close>

definition resolve_config ::
  "('x) text_env_scheme \<Rightarrow> uuid \<Rightarrow> string \<Rightarrow> agent_file_config \<Rightarrow> overrides \<Rightarrow> overrides \<Rightarrow> agent_config" where
  "resolve_config E fresh hostname conf env cli =
     (let (did, generated) =
            (case Option.bind (device_id_text conf env cli) (uuid_parse_str E) of
               Some u \<Rightarrow> (u, False)
             | None \<Rightarrow> (fresh, True))
      in \<lparr> device_id = did,
           device_id_generated = generated,
           device_name = unwrap_or (or_else (ov_device_name cli) (or_else (ov_device_name env)
             (non_empty (Some (as_device_name (fc_agent conf)))))) hostname,
           heartbeat_interval = seconds (int (unwrap_or (heartbeat_interval_seconds (fc_agent conf)) 30)),
           event_retry_interval = seconds (int (unwrap_or (event_retry_interval_seconds (fc_agent conf)) 10)),
           controller_url = or_else (ov_controller_url cli) (or_else (ov_controller_url env)
             (non_empty (Some (cs_url (fc_controller conf))))),
           discovery_enabled = unwrap_or (or_else (ov_discovery_enabled cli)
             (or_else (ov_discovery_enabled env) (cs_discovery_enabled (fc_controller conf)))) True,
           discovery_port = unwrap_or (cs_discovery_port (fc_controller conf)) 45821,
           discovery_timeout = seconds (int (unwrap_or (discovery_timeout_seconds (fc_controller conf)) 5)),
           ntp_enabled = unwrap_or (ntp_enabled_opt (fc_time conf)) True,
           ntp_servers = resolve_ntp_servers (ntp_servers_opt (fc_time conf)) \<rparr>)"

datatype config_error = ConfigIo io_error | ConfigToml

definition load_file :: "agent_file_config codec \<Rightarrow> filesystem \<Rightarrow> path \<Rightarrow> config_error + agent_file_config" where
  "load_file C fs p =
     (case read_to_string fs p of
        Inr contents \<Rightarrow> (case from_text C contents of Some f \<Rightarrow> Inr f | None \<Rightarrow> Inl ConfigToml)
      | Inl NotFound \<Rightarrow> Inr default_file_config
      | Inl e \<Rightarrow> Inl (ConfigIo e))"

text \<open>\<^verbatim>\<open>create_dir_all\<close> of the parent, then a plain write.\<close>

definition save_file ::
  "agent_file_config codec \<Rightarrow> filesystem \<Rightarrow> path \<Rightarrow> agent_file_config \<Rightarrow> filesystem \<times> (config_error + unit)" where
  "save_file C fs p config =
     (case (if p = [] then None else mkdir_fault fs (butlast p)) of
        Some e \<Rightarrow> (fs, Inl (ConfigIo (IoOther e)))
      | None \<Rightarrow>
          (case fs_write fs p (to_text C config) of
             (fs', Inl e) \<Rightarrow> (fs', Inl (ConfigIo e))
           | (fs', Inr _) \<Rightarrow> (fs', Inr ())))"

definition persist_device_id ::
  "('x) text_env_scheme \<Rightarrow> agent_file_config codec \<Rightarrow> filesystem \<Rightarrow> path \<Rightarrow> uuid \<Rightarrow> filesystem \<times> (config_error + unit)" where
  "persist_device_id E C fs p u =
     (case load_file C fs p of
        Inl e \<Rightarrow> (fs, Inl e)
      | Inr conf \<Rightarrow> save_file C fs p (conf\<lparr>fc_agent := (fc_agent conf)\<lparr>as_device_id := uuid_to_string E u\<rparr>\<rparr>))"

definition persist_controller_url ::
  "agent_file_config codec \<Rightarrow> filesystem \<Rightarrow> path \<Rightarrow> string \<Rightarrow> filesystem \<times> (config_error + unit)" where
  "persist_controller_url C fs p url =
     (case load_file C fs p of
        Inl e \<Rightarrow> (fs, Inl e)
      | Inr conf \<Rightarrow> save_file C fs p (conf\<lparr>fc_controller := (fc_controller conf)\<lparr>cs_url := url\<rparr>\<rparr>))"

definition load_config ::
  "('x) text_env_scheme \<Rightarrow> agent_file_config codec \<Rightarrow> (string \<Rightarrow> string option) \<Rightarrow> string \<Rightarrow> uuid \<Rightarrow>
   filesystem \<Rightarrow> path \<Rightarrow> overrides \<Rightarrow> filesystem \<times> (config_error + agent_config)" where
  "load_config E C var hostname fresh fs p cli =
     (case load_file C fs p of
        Inl e \<Rightarrow> (fs, Inl e)
      | Inr conf \<Rightarrow>
          (let resolved = resolve_config E fresh hostname conf (from_process_env var) cli in
           if device_id_generated resolved then
             (case persist_device_id E C fs p (device_id resolved) of
                (fs', Inl e) \<Rightarrow> (fs', Inl e)
              | (fs', Inr _) \<Rightarrow> (fs', Inr resolved))
           else (fs, Inr resolved)))"

section \<open>Lemmas\<close>

definition uuid_text_visible :: "'x text_env_scheme \<Rightarrow> bool" where
  "uuid_text_visible E \<longleftrightarrow> (\<forall>u. trim (uuid_to_string E u) \<noteq> [])"

lemma load_after_save:
  assumes "codec_ok C" "read_fault fs p = None" "save_file C fs p config = (fs', Inr u)"
  shows "load_file C fs' p = Inr config" "read_fault fs' p = None"
  using assms
  by (auto simp: save_file_def load_file_def fs_write_def read_to_string_def codec_simps
      split: option.splits write_outcome.splits prod.splits sum.splits)

lemma resolve_no_override_id:
  "ov_device_id cli = None \<Longrightarrow> ov_device_id env = None \<Longrightarrow>
   device_id_text conf env cli = non_empty (Some (as_device_id (fc_agent conf)))"
  by (simp add: device_id_text_def or_else_def)

lemma resolve_known_id:
  assumes "Option.bind (device_id_text conf env cli) (uuid_parse_str E) = Some u"
  shows "resolve_config E fresh hostname conf env cli = resolve_config E fresh' hostname conf env cli"
    "device_id (resolve_config E fresh hostname conf env cli) = u"
    "\<not> device_id_generated (resolve_config E fresh hostname conf env cli)"
  using assms by (simp_all add: resolve_config_def)

lemma resolve_stored_id:
  assumes "text_env_ok E" "uuid_text_visible E" "ov_device_id cli = None" "ov_device_id env = None"
  shows "resolve_config E fresh hostname
       (conf\<lparr>fc_agent := (fc_agent conf)\<lparr>as_device_id := uuid_to_string E u\<rparr>\<rparr>) env cli
     = (resolve_config E fresh0 hostname conf env cli)\<lparr>device_id := u, device_id_generated := False\<rparr>"
  using assms
  by (simp add: resolve_config_def resolve_no_override_id non_empty_def uuid_text_visible_def
      uuid_roundtrip split: prod.split)

lemma load_config_generated:
  assumes "load_config E C var hostname fresh fs p cli = (fs', Inr cfg)" "device_id_generated cfg"
  obtains conf where "load_file C fs p = Inr conf" "cfg = resolve_config E fresh hostname conf (from_process_env var) cli"
    "device_id cfg = fresh"
    "save_file C fs p (conf\<lparr>fc_agent := (fc_agent conf)\<lparr>as_device_id := uuid_to_string E fresh\<rparr>\<rparr>) = (fs', Inr ())"
proof -
  from assms obtain conf where f: "load_file C fs p = Inr conf"
    "cfg = resolve_config E fresh hostname conf (from_process_env var) cli"
    "persist_device_id E C fs p (device_id cfg) = (fs', Inr ())"
    by (auto simp: load_config_def Let_def split: sum.splits if_splits prod.splits)
  have "device_id cfg = fresh" using assms(2) f(2) by (auto simp: resolve_config_def split: prod.splits option.splits)
  with f that show thesis by (auto simp: persist_device_id_def)
qed

section \<open>Properties\<close>

text \<open>
  The device keeps its identity: when no override names a device identifier, loading the
  configuration a second time gives the same configuration with the same identifier, generated or not the
  first time, whatever identifier a new generation would have drawn, and writes nothing.
\<close>

theorem device_identity_stable:
  assumes "text_env_ok E" "uuid_text_visible E" "codec_ok C" "read_fault fs p = None"
    "ov_device_id cli = None" "ov_device_id (from_process_env var) = None"
    "load_config E C var hostname fresh fs p cli = (fs', Inr cfg)"
  shows "load_config E C var hostname fresh' fs' p cli = (fs', Inr (cfg\<lparr>device_id_generated := False\<rparr>))"
proof (cases "device_id_generated cfg")
  case True
  from load_config_generated [OF assms(7) this] obtain conf where f: "load_file C fs p = Inr conf"
    "cfg = resolve_config E fresh hostname conf (from_process_env var) cli" "device_id cfg = fresh"
    "save_file C fs p (conf\<lparr>fc_agent := (fc_agent conf)\<lparr>as_device_id := uuid_to_string E fresh\<rparr>\<rparr>) = (fs', Inr ())" .
  from load_after_save(1) [OF assms(3,4) f(4)] show ?thesis
    using resolve_stored_id [OF assms(1,2,5,6), where conf = conf and u = fresh and fresh = fresh' and ?fresh0.0 = fresh and hostname = hostname] f(2,3)
    by (simp add: load_config_def)
next
  case False
  with assms(7) obtain conf where f: "load_file C fs p = Inr conf" "fs' = fs"
    "cfg = resolve_config E fresh hostname conf (from_process_env var) cli"
    by (auto simp: load_config_def Let_def split: sum.splits if_splits prod.splits)
  with False have "\<exists>u. Option.bind (device_id_text conf (from_process_env var) cli) (uuid_parse_str E) = Some u"
    by (auto simp: resolve_config_def split: option.splits)
  then obtain u where "Option.bind (device_id_text conf (from_process_env var) cli) (uuid_parse_str E) = Some u" ..
  from resolve_known_id(1) [OF this, of fresh' hostname fresh] False f show ?thesis
    by (simp add: load_config_def)
qed

text \<open>
  An override that is not a UUID costs the device its identity: although the file
  holds a valid identifier, loading the configuration generates a new one, overwrites the stored one with it,
  and does the same again at every later load.
\<close>

theorem bad_override_replaces_identity:
  assumes "codec_ok C" "read_fault fs p = None"
    "load_file C fs p = Inr conf"
    "or_else (ov_device_id cli) (ov_device_id (from_process_env var)) = Some bad" "uuid_parse_str E bad = None"
    "mkdir_fault fs (butlast p) = None" "write_result fs p = WriteOk" "p \<noteq> []"
  shows "\<exists>fs' cfg. load_config E C var hostname fresh fs p cli = (fs', Inr cfg) \<and> device_id cfg = fresh \<and>
     load_file C fs' p = Inr (conf\<lparr>fc_agent := (fc_agent conf)\<lparr>as_device_id := uuid_to_string E fresh\<rparr>\<rparr>) \<and>
     (\<exists>fs'' cfg'. load_config E C var hostname fresh' fs' p cli = (fs'', Inr cfg') \<and> device_id cfg' = fresh')"
proof -
  have did: "device_id_text f (from_process_env var) cli = Some bad" for f
    using assms(4) by (auto simp: device_id_text_def or_else_def split: option.splits)
  have res: "device_id (resolve_config E w hostname f (from_process_env var) cli) = w"
    "device_id_generated (resolve_config E w hostname f (from_process_env var) cli)" for w f
    using assms(5) by (simp_all add: resolve_config_def did)
  define store where "store = (\<lambda>w f (fs :: filesystem). fs\<lparr>files := (files fs)(p := Some (to_text C
      (f\<lparr>fc_agent := (fc_agent f)\<lparr>as_device_id := uuid_to_string E w\<rparr>\<rparr>)))\<rparr>)"
  have load: "load_config E C var hostname w g p cli =
      (store w f g, Inr (resolve_config E w hostname f (from_process_env var) cli))"
    if "load_file C g p = Inr f" "mkdir_fault g (butlast p) = None" "write_result g p = WriteOk" for w g f
    using that assms(8) by (simp add: load_config_def persist_device_id_def save_file_def fs_write_def res store_def)
  have again: "load_file C (store fresh conf fs) p = Inr (conf\<lparr>fc_agent := (fc_agent conf)\<lparr>as_device_id := uuid_to_string E fresh\<rparr>\<rparr>)"
    using assms(1,2) by (simp add: store_def load_file_def read_to_string_def codec_simps)
  have "mkdir_fault (store fresh conf fs) (butlast p) = None" "write_result (store fresh conf fs) p = WriteOk"
    using assms(6,7) by (simp_all add: store_def)
  from load [OF assms(3,6,7), of fresh] load [OF again this, of fresh'] again res show ?thesis by auto
qed

text \<open>
  Persisting a discovered controller URL changes that one setting: a later load
  without overrides reports it, and resolves every other setting as before.
\<close>

theorem persisted_url_is_used:
  assumes "codec_ok C" "read_fault fs p = None" "load_file C fs p = Inr conf" "trim url \<noteq> []"
    "persist_controller_url C fs p url = (fs', Inr u)"
    "ov_controller_url cli = None" "ov_controller_url env = None"
  shows "\<exists>conf'. load_file C fs' p = Inr conf' \<and>
     resolve_config E fresh hostname conf' env cli
       = (resolve_config E fresh hostname conf env cli)\<lparr>controller_url := Some url\<rparr>"
proof -
  let ?conf = "conf\<lparr>fc_controller := (fc_controller conf)\<lparr>cs_url := url\<rparr>\<rparr>"
  have "save_file C fs p ?conf = (fs', Inr u)" using assms(3,5) by (simp add: persist_controller_url_def)
  from load_after_save(1) [OF assms(1,2) this] have "load_file C fs' p = Inr ?conf" .
  moreover have "resolve_config E fresh hostname ?conf env cli
       = (resolve_config E fresh hostname conf env cli)\<lparr>controller_url := Some url\<rparr>"
    using assms(4,6,7)
    by (simp add: resolve_config_def device_id_text_def non_empty_def or_else_def split: prod.split)
  ultimately show ?thesis by blast
qed

section \<open>A concrete file format\<close>

definition serial_bool :: "bool serial" where
  "serial_bool = serial_enum [True, False]"

definition serial_file_config :: "agent_file_config serial" where
  "serial_file_config = serial_iso
     (\<lambda>f. ((as_device_id (fc_agent f), as_device_name (fc_agent f), heartbeat_interval_seconds (fc_agent f),
           event_retry_interval_seconds (fc_agent f)),
          (cs_url (fc_controller f), cs_discovery_enabled (fc_controller f), cs_discovery_port (fc_controller f),
           discovery_timeout_seconds (fc_controller f)),
          ntp_enabled_opt (fc_time f), ntp_servers_opt (fc_time f)))
     (\<lambda>((i, n, h, e), (u, d, p, t), en, sv).
        \<lparr> fc_agent = \<lparr> as_device_id = i, as_device_name = n, heartbeat_interval_seconds = h,
                       event_retry_interval_seconds = e \<rparr>,
          fc_controller = \<lparr> cs_url = u, cs_discovery_enabled = d, cs_discovery_port = p,
                            discovery_timeout_seconds = t \<rparr>,
          fc_time = \<lparr> ntp_enabled_opt = en, ntp_servers_opt = sv \<rparr> \<rparr>)
     (serial_prod
       (serial_prod serial_string (serial_prod serial_string
         (serial_prod (serial_option serial_nat) (serial_option serial_nat))))
       (serial_prod
         (serial_prod serial_string (serial_prod (serial_option serial_bool)
           (serial_prod (serial_option serial_word) (serial_option serial_nat))))
         (serial_prod (serial_option serial_bool) (serial_option (serial_list serial_string)))))"

definition sample_config_codec :: "agent_file_config codec" where
  "sample_config_codec = codec_of serial_file_config"

lemma serial_bool_ok [simp]: "serial_ok serial_bool"
  unfolding serial_bool_def by (rule serial_enum_ok) auto

lemma sample_config_codec_ok: "codec_ok sample_config_codec"
  unfolding sample_config_codec_def serial_file_config_def
  by (intro codec_of_ok serial_iso_ok) simp_all

lemma strip_visible:
  assumes "s \<noteq> []" "\<And>w. w \<in> set ws \<Longrightarrow> w \<noteq> [] \<Longrightarrow> hd w \<noteq> hd s"
  shows "strip ws s = s"
proof -
  have "find (\<lambda>w. w \<noteq> [] \<and> take (length w) s = w) ws = None"
  proof -
    have "take (length w) s \<noteq> w" if "w \<in> set ws" "w \<noteq> []" for w
      using assms(2) [OF that] assms(1) that(2) by (metis hd_take length_greater_0_conv)
    then show ?thesis by (auto simp: find_None_iff)
  qed
  then show ?thesis by (subst strip.simps) simp
qed

lemma digits_visible: "c \<in> set (enc_digits k n) \<Longrightarrow> 48 \<le> (of_char c :: nat) \<and> (of_char c :: nat) < 64"
  by (induction k arbitrary: n) (auto simp: of_char_digit)

lemma white_space_codes:
  "w \<in> set white_space \<Longrightarrow> (of_char (hd w) :: nat) < 48 \<or> 64 \<le> (of_char (hd w) :: nat)"
  "w \<in> set white_space \<Longrightarrow> (of_char (last w) :: nat) < 48 \<or> 64 \<le> (of_char (last w) :: nat)"
  by (auto simp: white_space_def)

lemma trim_digits: "k \<noteq> 0 \<Longrightarrow> trim (enc_digits k n) = enc_digits k n"
proof -
  assume "k \<noteq> 0"
  then have ne: "enc_digits k n \<noteq> []" by (metis length_0_conv length_enc_digits)
  have front: "strip white_space (enc_digits k n) = enc_digits k n"
    using ne digits_visible [of "hd (enc_digits k n)" k n] white_space_codes(1)
    by (intro strip_visible) fastforce+
  have "strip (map rev white_space) (rev (enc_digits k n)) = rev (enc_digits k n)"
  proof (rule strip_visible)
    fix w assume w: "w \<in> set (map rev white_space)" "w \<noteq> []"
    then obtain v where "v \<in> set white_space" "w = rev v" by auto
    with w white_space_codes(2) [of v] digits_visible [of "last (enc_digits k n)" k n] ne
    show "hd w \<noteq> hd (rev (enc_digits k n))" by (force simp: hd_rev)
  qed (use ne in simp)
  with front show ?thesis by (simp add: trim_def)
qed

lemma sample_uuid_text_visible: "uuid_text_visible sample_text_env"
  by (simp add: uuid_text_visible_def sample_text_env_def trim_digits) (metis length_enc_digits list.size(3) zero_neq_numeral)

definition sample_path :: path where
  "sample_path = [''agent.toml'']"

abbreviation "sample_load \<equiv> load_config sample_text_env sample_config_codec (\<lambda>_. None) ''kids-pc''"

lemma sample_first_load:
  "\<exists>fs' cfg. sample_load 7 empty_fs sample_path no_overrides = (fs', Inr cfg) \<and> device_id cfg = 7"
  by (simp add: load_config_def load_file_def read_to_string_def empty_fs_def persist_device_id_def save_file_def
      fs_write_def resolve_config_def device_id_text_def or_else_def non_empty_def default_file_config_def
      trim_def no_overrides_def from_process_env_def strip.simps Let_def)
    (simp add: white_space_def)

theorem device_identity_stable_witness:
  "\<exists>fs' cfg cfg'. sample_load 7 empty_fs sample_path no_overrides = (fs', Inr cfg) \<and>
     sample_load 9 fs' sample_path no_overrides = (fs', Inr cfg') \<and> device_id cfg = 7 \<and> device_id cfg' = 7"
proof -
  from sample_first_load obtain fs' cfg where l: "sample_load 7 empty_fs sample_path no_overrides = (fs', Inr cfg)"
    "device_id cfg = 7" by blast
  have "read_fault empty_fs sample_path = None" by (simp add: empty_fs_def)
  from device_identity_stable [OF sample_text_env_ok sample_uuid_text_visible sample_config_codec_ok this _ _ l(1), of 9] l
  show ?thesis by (simp add: no_overrides_def from_process_env_def non_empty_def)
qed

definition bad_id_override :: overrides where
  "bad_id_override = no_overrides\<lparr>ov_device_id := Some ''not-a-uuid''\<rparr>"

theorem bad_override_replaces_identity_witness:
  "\<exists>fs' cfg. sample_load 7 empty_fs sample_path bad_id_override = (fs', Inr cfg) \<and> device_id cfg = 7 \<and>
     (\<exists>fs'' cfg'. sample_load 9 fs' sample_path bad_id_override = (fs'', Inr cfg') \<and> device_id cfg' = 9)"
  using bad_override_replaces_identity [OF sample_config_codec_ok, of empty_fs sample_path default_file_config
      bad_id_override "\<lambda>_. None" "''not-a-uuid''" sample_text_env "''kids-pc''" 7 9]
  by (auto simp: empty_fs_def load_file_def read_to_string_def sample_path_def bad_id_override_def or_else_def
      sample_text_env_def)

theorem persisted_url_is_used_witness:
  "\<exists>fs' conf'. persist_controller_url sample_config_codec empty_fs sample_path ''http://10.0.0.5:8080'' = (fs', Inr ()) \<and>
     load_file sample_config_codec fs' sample_path = Inr conf' \<and>
     controller_url (resolve_config sample_text_env 7 ''kids-pc'' conf' no_overrides no_overrides)
       = Some ''http://10.0.0.5:8080''"
proof -
  have l: "load_file sample_config_codec empty_fs sample_path = Inr default_file_config"
    by (simp add: load_file_def read_to_string_def empty_fs_def)
  then have "snd (persist_controller_url sample_config_codec empty_fs sample_path ''http://10.0.0.5:8080'') = Inr ()"
    by (simp add: persist_controller_url_def save_file_def fs_write_def) (simp add: empty_fs_def sample_path_def fs_write_def)
  then obtain fs' where p: "persist_controller_url sample_config_codec empty_fs sample_path ''http://10.0.0.5:8080'' = (fs', Inr ())"
    by (metis prod.collapse)
  have "trim ''http://10.0.0.5:8080'' \<noteq> []" by code_simp
  from persisted_url_is_used [OF sample_config_codec_ok _ l this p, of no_overrides no_overrides sample_text_env 7 "''kids-pc''"] p
  show ?thesis by (auto simp: empty_fs_def no_overrides_def)
qed

end
