(* ===== verification/Discovery.thy ===== *)
theory Discovery
  imports Timelord_Prelude "HOL-Library.Product_Lexorder"
begin

text \<open>
  \<^verbatim>\<open>agent/src/discovery.rs\<close>: which addresses are probed, which answers count and which
  controller is chosen. IPv4 addresses are 32-bit words with the wrap-around of a release build. The list of
  network interfaces, the JSON decoding of a packet and what the socket receives are parameters;
  sending is fire and forget (a failed send is logged and ignored).
\<close>

unbundle bit_operations_syntax

section \<open>Data\<close>

definition EXCLUDED_INTERFACE_PREFIXES :: "string list" where
  "EXCLUDED_INTERFACE_PREFIXES = [''docker'', ''veth'', ''br-'', ''virbr'', ''cni'', ''tun'', ''tap'']"

definition MAX_SWEEP_HOSTS_PER_SUBNET :: nat where
  "MAX_SWEEP_HOSTS_PER_SUBNET = 1024"

definition MAX_PACKET_SIZE :: nat where
  "MAX_PACKET_SIZE = 4096"

definition PROTOCOL_NAME :: string where
  "PROTOCOL_NAME = ''timelord-discovery''"

definition PROTOCOL_VERSION :: u32 where
  "PROTOCOL_VERSION = 1"

definition TYPE_DISCOVER_CONTROLLER :: string where
  "TYPE_DISCOVER_CONTROLLER = ''DISCOVER_CONTROLLER''"

definition TYPE_CONTROLLER_AVAILABLE :: string where
  "TYPE_CONTROLLER_AVAILABLE = ''CONTROLLER_AVAILABLE''"

type_synonym ipv4 = u32

record discover_request_message =
  dr_protocol :: string
  dr_protocol_version :: u32
  dr_message_type :: string
  dr_request_id :: uuid
  dr_agent_version :: string
  dr_device_id :: uuid
  dr_hostname :: string

record controller_available_message =
  ca_protocol :: string
  ca_protocol_version :: u32
  ca_message_type :: string
  ca_request_id :: uuid
  ca_controller_id :: uuid
  ca_controller_name :: string
  ca_controller_url :: string
  ca_priority :: int

record discovered_controller =
  dc_controller_id :: uuid
  dc_controller_name :: string
  dc_controller_url :: string
  dc_priority :: int
  dc_response_time :: nanos

record sweep_subnet =
  sw_interface_name :: string
  sw_own_addr :: ipv4
  sw_hosts :: "ipv4 list"

datatype if_addr = V4 ipv4 ipv4 | V6

record net_interface =
  if_name :: string
  if_loopback :: bool
  if_address :: if_addr

section \<open>Operations\<close>

definition starts_with :: "string \<Rightarrow> string \<Rightarrow> bool" where
  "starts_with p s \<longleftrightarrow> take (length p) s = p"

definition validate_response ::
  "(string \<Rightarrow> controller_available_message option) \<Rightarrow> string \<Rightarrow> uuid \<Rightarrow> nanos \<Rightarrow> discovered_controller option" where
  "validate_response parse payload expected_request_id response_time =
     (case parse payload of
        None \<Rightarrow> None
      | Some m \<Rightarrow>
          if ca_protocol m \<noteq> PROTOCOL_NAME then None
          else if ca_protocol_version m \<noteq> PROTOCOL_VERSION then None
          else if ca_message_type m \<noteq> TYPE_CONTROLLER_AVAILABLE then None
          else if ca_request_id m \<noteq> expected_request_id then None
          else if \<not> (starts_with ''http://'' (ca_controller_url m) \<or> starts_with ''https://'' (ca_controller_url m))
          then None
          else Some \<lparr> dc_controller_id = ca_controller_id m, dc_controller_name = ca_controller_name m,
                      dc_controller_url = ca_controller_url m, dc_priority = ca_priority m,
                      dc_response_time = response_time \<rparr>)"

text \<open>\<^verbatim>\<open>a.cmp(b)\<close> is not \<^verbatim>\<open>Greater\<close>: \<open>a\<close> is at least as good as \<open>b\<close>.\<close>

definition no_worse :: "'x text_env_scheme \<Rightarrow> discovered_controller \<Rightarrow> discovered_controller \<Rightarrow> bool" where
  "no_worse E a b \<longleftrightarrow>
     (if dc_priority b \<noteq> dc_priority a then dc_priority b < dc_priority a
      else if dc_response_time a \<noteq> dc_response_time b then dc_response_time a < dc_response_time b
      else uuid_to_string E (dc_controller_id a) \<le> uuid_to_string E (dc_controller_id b))"

text \<open>\<^verbatim>\<open>Iterator::min_by\<close> keeps the earlier of two equal elements.\<close>

definition select_best ::
  "'x text_env_scheme \<Rightarrow> discovered_controller list \<Rightarrow> discovered_controller option" where
  "select_best E candidates =
     (case candidates of
        [] \<Rightarrow> None
      | c # cs \<Rightarrow> Some (foldl (\<lambda>a b. if no_worse E a b then a else b) c cs))"

definition hosts_in_subnet :: "ipv4 \<Rightarrow> ipv4 \<Rightarrow> ipv4 list" where
  "hosts_in_subnet ip netmask =
     (let network = ip AND netmask; broadcast = network OR NOT netmask in
      if broadcast \<le> network + 1 then []
      else map word_of_nat [unat (network + 1)..<unat broadcast])"

fun sweep_interfaces :: "net_interface list \<Rightarrow> sweep_subnet list" where
  "sweep_interfaces [] = []"
| "sweep_interfaces (iface # rest) =
     (if if_loopback iface then sweep_interfaces rest
      else if list_ex (\<lambda>p. starts_with p (if_name iface)) EXCLUDED_INTERFACE_PREFIXES then sweep_interfaces rest
      else
        (case if_address iface of
           V6 \<Rightarrow> sweep_interfaces rest
         | V4 ip netmask \<Rightarrow>
             (let all_hosts = hosts_in_subnet ip netmask in
              if length all_hosts > MAX_SWEEP_HOSTS_PER_SUBNET then sweep_interfaces rest
              else \<lparr> sw_interface_name = if_name iface, sw_own_addr = ip,
                     sw_hosts = filter (\<lambda>a. a \<noteq> ip) all_hosts \<rparr> # sweep_interfaces rest)))"

text \<open>\<open>ifs\<close> is what \<^verbatim>\<open>get_if_addrs\<close> returns.\<close>

definition local_sweep_subnets :: "string + net_interface list \<Rightarrow> sweep_subnet list" where
  "local_sweep_subnets ifs = (case ifs of Inl err \<Rightarrow> [] | Inr interfaces \<Rightarrow> sweep_interfaces interfaces)"

text \<open>
  The listening loop, on what happens at the socket, with all times since the end of the sweep: for each turn, the time at which it starts, and
  what comes next: a datagram with its time of arrival and the reading of the clock taken after it was received, or an error. The wait for a datagram that
  comes after the deadline ends in the timeout, as does a wait in which nothing happens. A datagram that does not fit the buffer is cut to its size; where
  the system reports it as an error instead, as Windows does, it is a \<open>RecvError\<close>.
\<close>

datatype socket_event = Packet string nanos nanos | RecvError string

fun listen ::
  "(string \<Rightarrow> controller_available_message option) \<Rightarrow> uuid \<Rightarrow> nanos \<Rightarrow> (nanos \<times> socket_event) list \<Rightarrow>
   discovered_controller list" where
  "listen parse request_id limit [] = []"
| "listen parse request_id limit ((at, ev) # rest) =
     (if limit - at \<le> 0 then []
      else
        (case ev of
           RecvError err \<Rightarrow> []
         | Packet datagram arrival elapsed \<Rightarrow>
             (if limit < arrival then []
              else
                (case validate_response parse (take MAX_PACKET_SIZE datagram) request_id elapsed of
                   Some c \<Rightarrow> c # listen parse request_id limit rest
                 | None \<Rightarrow> listen parse request_id limit rest))))"

text \<open>\<open>bind\<close> is the outcome of binding the socket; the result lists the addresses probed.\<close>

definition discover ::
  "(string \<Rightarrow> controller_available_message option) \<Rightarrow> string + net_interface list \<Rightarrow> string option \<Rightarrow> uuid \<Rightarrow>
   nanos \<Rightarrow> (nanos \<times> socket_event) list \<Rightarrow> ipv4 list \<times> (string + discovered_controller list)" where
  "discover parse ifs bind_error request_id limit events =
     (let targets = concat (map sw_hosts (local_sweep_subnets ifs)) in
      if targets = [] then ([], Inr [])
      else
        (case bind_error of
           Some e \<Rightarrow> ([], Inl e)
         | None \<Rightarrow> (targets, Inr (listen parse request_id limit events))))"

text \<open>The probe sent to each of those addresses.\<close>

definition discover_request :: "uuid \<Rightarrow> uuid \<Rightarrow> string \<Rightarrow> string \<Rightarrow> discover_request_message" where
  "discover_request request_id device hostname agent_version =
     \<lparr> dr_protocol = PROTOCOL_NAME, dr_protocol_version = PROTOCOL_VERSION, dr_message_type = TYPE_DISCOVER_CONTROLLER,
       dr_request_id = request_id, dr_agent_version = agent_version, dr_device_id = device, dr_hostname = hostname \<rparr>"

definition discover_probes ::
  "ipv4 list \<Rightarrow> 16 word \<Rightarrow> discover_request_message \<Rightarrow> ((ipv4 \<times> 16 word) \<times> discover_request_message) list" where
  "discover_probes targets discovery_port request = map (\<lambda>target. ((target, discovery_port), request)) targets"

section \<open>Subnets\<close>

lemma network_eq: "(ip :: ipv4) AND NOT (mask h) = push_bit h (drop_bit h ip)"
  by (rule bit_word_eqI) (auto simp: bit_simps)

lemma unat_network:
  "unat ((ip :: ipv4) AND NOT (mask h)) = unat ip div 2 ^ h * 2 ^ h"
proof -
  have "unat ip div 2 ^ h * 2 ^ h \<le> unat ip" by (metis div_mult_mod_eq le_add1)
  moreover have lt: "unat ip < 2 ^ 32" using unsigned_less [of ip, where 'a = nat] by simp
  ultimately have "unat ip div 2 ^ h * 2 ^ h < 2 ^ 32" by linarith
  with lt show ?thesis
    unfolding network_eq
    by (simp only: unsigned_push_bit_eq unsigned_drop_bit_eq)
      (simp add: take_bit_eq_mod push_bit_eq_mult drop_bit_eq_div)
qed

lemma subnet_fits:
  assumes "h \<le> 32"
  shows "unat (ip :: ipv4) div 2 ^ h * 2 ^ h + 2 ^ h \<le> 2 ^ 32"
proof -
  have p: "(2::nat) ^ 32 = 2 ^ (32 - h) * 2 ^ h" using assms by (simp flip: power_add)
  have "unat ip < 2 ^ 32" using unsigned_less [of ip, where 'a = nat] by simp
  then have "unat ip div 2 ^ h < 2 ^ (32 - h)" unfolding p by (simp add: less_mult_imp_div_less)
  then have "Suc (unat ip div 2 ^ h) * 2 ^ h \<le> 2 ^ (32 - h) * 2 ^ h" by (intro mult_le_mono1) simp
  then show ?thesis unfolding p by simp
qed

lemma unat_broadcast:
  assumes "h \<le> 32"
  shows "unat ((ip :: ipv4) AND NOT (mask h) OR mask h) = unat ip div 2 ^ h * 2 ^ h + (2 ^ h - 1)"
proof -
  let ?n = "ip AND NOT (mask h)"
  have "?n OR mask h = ?n + mask h"
    by (rule disjunctive_add [symmetric]) (auto simp: bit_simps)
  moreover have "unat (mask h :: ipv4) = 2 ^ h - 1"
  proof -
    have "unat (mask h :: ipv4) = unat (word_of_nat (mask h) :: ipv4)" by (simp add: of_nat_mask_eq)
    also have "\<dots> = take_bit 32 (mask h)" by (simp only: unsigned_of_nat) simp
    also have "\<dots> = 2 ^ h - 1"
    proof -
      have "(2::nat) ^ h \<le> 2 ^ 32" using assms by (intro power_increasing) simp_all
      then have "(2::nat) ^ h - 1 < 2 ^ 32" by (simp add: less_le_trans)
      then show ?thesis by (simp add: take_bit_eq_mod mask_eq_exp_minus_1)
    qed
    finally show ?thesis .
  qed
  moreover have "unat ?n + (2 ^ h - 1) < 2 ^ 32"
    unfolding unat_network using subnet_fits [OF assms, of ip] by (simp add: less_le_trans)
  ultimately show ?thesis by (simp add: unat_word_ariths unat_network)
qed

lemma hosts_in_subnet_prefix:
  assumes "h \<le> 32" "2 \<le> h"
  shows "hosts_in_subnet ip (NOT (mask h)) =
     map word_of_nat [unat ip div 2 ^ h * 2 ^ h + 1..<unat ip div 2 ^ h * 2 ^ h + (2 ^ h - 1)]"
proof -
  let ?n = "ip AND NOT (mask h)" and ?N = "unat ip div 2 ^ h * 2 ^ h"
  have four: "(4::nat) \<le> 2 ^ h" using power_increasing [OF assms(2), of "2::nat"] by simp
  have n: "unat ?n = ?N" by (rule unat_network)
  have b: "unat (?n OR mask h) = ?N + (2 ^ h - 1)" by (rule unat_broadcast [OF assms(1)])
  have s: "unat (?n + 1) = ?N + 1"
    using subnet_fits [OF assms(1), of ip] four n by (simp add: unat_word_ariths)
  have "\<not> ?n OR mask h \<le> ?n + 1" unfolding word_le_nat_alt b s using four by simp
  then show ?thesis unfolding hosts_in_subnet_def Let_def by (simp add: b s)
qed

lemma same_subnet_iff:
  "(a :: ipv4) AND NOT (mask h) = ip AND NOT (mask h) \<longleftrightarrow> unat a div 2 ^ h = unat ip div 2 ^ h"
proof -
  have "a AND NOT (mask h) = ip AND NOT (mask h) \<longleftrightarrow> unat a div 2 ^ h * 2 ^ h = unat ip div 2 ^ h * 2 ^ h"
    by (metis unat_network unsigned_word_eqI)
  then show ?thesis by simp
qed

lemma div_eq_range:
  fixes x q d :: nat
  assumes "0 < d"
  shows "x div d = q \<longleftrightarrow> q * d \<le> x \<and> x < q * d + d"
  using assms by (metis add.commute div_nat_eqI mult.commute mult_Suc dividend_less_times_div times_div_less_eq_dividend)

section \<open>Choosing\<close>

lemma no_worse_refl: "no_worse E a a"
  by (simp add: no_worse_def)

lemma no_worse_total: "no_worse E a b \<or> no_worse E b a"
  by (auto simp: no_worse_def)

lemma no_worse_trans: "no_worse E a b \<Longrightarrow> no_worse E b c \<Longrightarrow> no_worse E a c"
  by (auto simp: no_worse_def split: if_splits)

lemma foldl_best:
  "let m = foldl (\<lambda>a b. if no_worse E a b then a else b) c cs in
     m \<in> insert c (set cs) \<and> (\<forall>d \<in> insert c (set cs). no_worse E m d)"
proof (induction cs arbitrary: c)
  case Nil
  then show ?case by (simp add: no_worse_refl)
next
  case (Cons x xs)
  let ?c = "if no_worse E c x then c else x"
  let ?m = "foldl (\<lambda>a b. if no_worse E a b then a else b) ?c xs"
  have IH: "?m \<in> insert ?c (set xs)" "\<forall>d \<in> insert ?c (set xs). no_worse E ?m d"
    using Cons.IH [of ?c] by (simp_all add: Let_def)
  have "no_worse E ?c c" "no_worse E ?c x" using no_worse_total [of E c x] no_worse_refl by auto
  with IH have "no_worse E ?m c" "no_worse E ?m x" by (auto intro: no_worse_trans)
  with IH show ?case by (auto simp: Let_def)
qed

lemma select_best_Some:
  assumes "select_best E cs = Some c"
  shows "c \<in> set cs \<and> (\<forall>d \<in> set cs. no_worse E c d)"
  using assms foldl_best [of E "hd cs" "tl cs"] by (cases cs) (auto simp: select_best_def Let_def)

lemma no_worse_antisym:
  assumes "text_env_ok E" "no_worse E a b" "no_worse E b a"
  shows "dc_controller_id a = dc_controller_id b"
  using assms(2,3) by (auto simp: no_worse_def uuid_to_string_inject [OF assms(1)] dest: antisym split: if_splits)

section \<open>Sweeping and listening\<close>

definition swept :: "net_interface \<Rightarrow> ipv4 \<Rightarrow> bool" where
  "swept iface a \<longleftrightarrow> \<not> if_loopback iface \<and> (\<forall>p \<in> set EXCLUDED_INTERFACE_PREFIXES. \<not> starts_with p (if_name iface)) \<and>
     (\<exists>ip netmask. if_address iface = V4 ip netmask \<and> length (hosts_in_subnet ip netmask) \<le> 1024 \<and>
        a \<in> set (hosts_in_subnet ip netmask) \<and> a \<noteq> ip)"

lemma sweep_interfaces_targets:
  "a \<in> set (concat (map sw_hosts (sweep_interfaces ifaces))) \<longleftrightarrow> (\<exists>iface \<in> set ifaces. swept iface a)"
  by (induction ifaces)
    (auto simp: swept_def list_ex_iff MAX_SWEEP_HOSTS_PER_SUBNET_def Let_def split: if_addr.splits if_splits)

definition valid_answer ::
  "(string \<Rightarrow> controller_available_message option) \<Rightarrow> uuid \<Rightarrow> discovered_controller \<Rightarrow> bool" where
  "valid_answer parse rid c \<longleftrightarrow>
     (\<exists>p m. parse p = Some m \<and> ca_protocol m = ''timelord-discovery'' \<and> ca_protocol_version m = 1 \<and>
        ca_message_type m = ''CONTROLLER_AVAILABLE'' \<and> ca_request_id m = rid \<and>
        dc_controller_id c = ca_controller_id m \<and> dc_controller_url c = ca_controller_url m \<and>
        (starts_with ''http://'' (dc_controller_url c) \<or> starts_with ''https://'' (dc_controller_url c)))"

fun usable :: "nanos \<Rightarrow> nanos \<times> socket_event \<Rightarrow> bool" where
  "usable limit (at, Packet p t e) \<longleftrightarrow> at < limit \<and> t \<le> limit"
| "usable limit (at, RecvError e) \<longleftrightarrow> False"

fun answer_of :: "(string \<Rightarrow> controller_available_message option) \<Rightarrow> uuid \<Rightarrow> nanos \<times> socket_event \<Rightarrow> discovered_controller option" where
  "answer_of parse rid (at, Packet p t e) = validate_response parse (take 4096 p) rid e"
| "answer_of parse rid (at, RecvError e) = None"

lemma listen_eq:
  "listen parse rid limit events = List.map_filter (answer_of parse rid) (takeWhile (usable limit) events)"
  by (induction parse rid limit events rule: listen.induct)
    (auto simp: map_filter_simps MAX_PACKET_SIZE_def split: socket_event.splits option.splits)

lemma validate_response_Some:
  assumes "validate_response parse p rid e = Some c"
  obtains m where "parse p = Some m" "ca_protocol m = PROTOCOL_NAME" "ca_protocol_version m = PROTOCOL_VERSION"
    "ca_message_type m = TYPE_CONTROLLER_AVAILABLE" "ca_request_id m = rid"
    "starts_with ''http://'' (dc_controller_url c) \<or> starts_with ''https://'' (dc_controller_url c)"
    "c = \<lparr> dc_controller_id = ca_controller_id m, dc_controller_name = ca_controller_name m,
           dc_controller_url = ca_controller_url m, dc_priority = ca_priority m, dc_response_time = e \<rparr>"
  using assms by (auto simp: validate_response_def split: option.splits if_splits)

section \<open>Properties\<close>

text \<open>
  The hosts of a subnet: for a network of \<open>h \<ge> 2\<close> host bits, the addresses swept are exactly those
  that share the interface's network prefix, without the network address and the broadcast address,
  each once and in ascending order; there are \<open>2 ^ h - 2\<close> of them.
\<close>

theorem subnet_hosts_exact:
  assumes "2 \<le> h" "h \<le> 32"
  shows "set (hosts_in_subnet ip (NOT (mask h))) =
       {a. a AND NOT (mask h) = ip AND NOT (mask h)} - {ip AND NOT (mask h), ip OR mask h} \<and>
     length (hosts_in_subnet ip (NOT (mask h))) = 2 ^ h - 2 \<and>
     sorted (map unat (hosts_in_subnet ip (NOT (mask h)))) \<and> distinct (hosts_in_subnet ip (NOT (mask h)))"
proof -
  let ?N = "unat ip div 2 ^ h * 2 ^ h" and ?hs = "hosts_in_subnet ip (NOT (mask h))"
  let ?r = "[?N + 1..<?N + (2 ^ h - 1)]"
  have hs: "?hs = map word_of_nat ?r" by (rule hosts_in_subnet_prefix [OF assms(2,1)])
  have four: "(4::nat) \<le> 2 ^ h" using power_increasing [OF assms(1), of "2::nat"] by simp
  have small: "n < 2 ^ 32" if "n \<in> set ?r" for n using that subnet_fits [OF assms(2), of ip] by auto
  have un: "map unat ?hs = ?r"
    unfolding hs map_map
  proof (rule map_idI)
    fix n assume "n \<in> set ?r"
    from small [OF this] have "n mod 2 ^ LENGTH(32) = n" by simp
    then show "(unat \<circ> (word_of_nat :: nat \<Rightarrow> ipv4)) n = n" by (simp only: comp_apply unat_of_nat)
  qed
  have mem: "a \<in> set ?hs \<longleftrightarrow> ?N < unat a \<and> unat a < ?N + (2 ^ h - 1)" for a
  proof -
    have "a \<in> set ?hs \<longleftrightarrow> unat a \<in> set (map unat ?hs)" by (auto simp: image_iff) (metis unsigned_word_eqI)
    also have "\<dots> \<longleftrightarrow> ?N < unat a \<and> unat a < ?N + (2 ^ h - 1)" unfolding un by auto
    finally show ?thesis .
  qed
  have net: "a = ip AND NOT (mask h) \<longleftrightarrow> unat a = ?N" for a
    by (metis unat_network unsigned_word_eqI)
  have "ip OR mask h = ip AND NOT (mask h) OR mask h"
    by (rule bit_word_eqI) (auto simp: bit_simps)
  then have bro: "a = ip OR mask h \<longleftrightarrow> unat a = ?N + (2 ^ h - 1)" for a
    by (metis unat_broadcast [OF assms(2)] unsigned_word_eqI)
  have sub: "a AND NOT (mask h) = ip AND NOT (mask h) \<longleftrightarrow> ?N \<le> unat a \<and> unat a < ?N + 2 ^ h" for a
    unfolding same_subnet_iff by (rule div_eq_range) simp
  have "set ?hs = {a. a AND NOT (mask h) = ip AND NOT (mask h)} - {ip AND NOT (mask h), ip OR mask h}"
  proof -
    have "a \<in> set ?hs \<longleftrightarrow> a AND NOT (mask h) = ip AND NOT (mask h) \<and> a \<noteq> ip AND NOT (mask h) \<and> a \<noteq> ip OR mask h" for a
      unfolding mem sub unfolding net bro using four by auto
    then show ?thesis by blast
  qed
  moreover have "length ?hs = 2 ^ h - 2" unfolding hs by simp
  moreover have "sorted (map unat ?hs)" "distinct (map unat ?hs)" unfolding un by simp_all
  moreover from this have "distinct ?hs" by (simp only: distinct_map)
  ultimately show ?thesis by blast
qed

theorem subnet_hosts_exact_witness:
  "length (hosts_in_subnet 0x0A0000A0 (NOT (mask 8))) = 254"
  using subnet_hosts_exact [of 8 "0x0A0000A0"] by simp

text \<open>
  Property C37. The controller chosen among several answers has the highest priority, among those the fastest
  answer, among those the smallest identifier; there is a choice as soon as there is an answer,
  and it does not depend on the order in which the answers of different controllers arrived.
\<close>

theorem select_best_optimal:
  assumes "text_env_ok E"
  shows "(select_best E cs = None \<longleftrightarrow> cs = []) \<and>
     (\<forall>c. select_best E cs = Some c \<longrightarrow> c \<in> set cs \<and>
        (\<forall>d \<in> set cs. (- dc_priority c, dc_response_time c) \<le> (- dc_priority d, dc_response_time d) \<and>
           ((dc_priority c, dc_response_time c) = (dc_priority d, dc_response_time d) \<longrightarrow>
              uuid_to_string E (dc_controller_id c) \<le> uuid_to_string E (dc_controller_id d)))) \<and>
     (\<forall>ds. distinct (map dc_controller_id cs) \<and> mset ds = mset cs \<longrightarrow> select_best E ds = select_best E cs)"
proof (intro conjI allI impI)
  show "select_best E cs = None \<longleftrightarrow> cs = []" by (cases cs) (simp_all add: select_best_def)
next
  fix c assume "select_best E cs = Some c"
  from select_best_Some [OF this]
  show "c \<in> set cs" "\<forall>d \<in> set cs. (- dc_priority c, dc_response_time c) \<le> (- dc_priority d, dc_response_time d) \<and>
           ((dc_priority c, dc_response_time c) = (dc_priority d, dc_response_time d) \<longrightarrow>
              uuid_to_string E (dc_controller_id c) \<le> uuid_to_string E (dc_controller_id d))"
    by (auto simp: no_worse_def split: if_splits)
next
  fix ds assume ds: "distinct (map dc_controller_id cs) \<and> mset ds = mset cs"
  then have set_eq: "set ds = set cs" by (metis mset_eq_setD)
  show "select_best E ds = select_best E cs"
  proof (cases "select_best E cs")
    case None
    with ds show ?thesis by (cases cs) (simp_all add: select_best_def)
  next
    case (Some c)
    then have "ds \<noteq> []" using ds by (auto simp: select_best_def)
    then obtain d where d: "select_best E ds = Some d" by (cases ds) (auto simp: select_best_def)
    have "no_worse E c d" "no_worse E d c" "c \<in> set cs" "d \<in> set cs"
      using select_best_Some [OF Some] select_best_Some [OF d] set_eq by auto
    with no_worse_antisym [OF assms] ds have "c = d" by (metis distinct_map_eqD)
    with d Some show ?thesis by simp
  qed
qed

definition sample_controller :: "uuid \<Rightarrow> int \<Rightarrow> nanos \<Rightarrow> discovered_controller" where
  "sample_controller u pr t =
     \<lparr> dc_controller_id = u, dc_controller_name = ''home'', dc_controller_url = ''http://10.0.0.5:8080'',
       dc_priority = pr, dc_response_time = t \<rparr>"

theorem select_best_optimal_witness:
  "select_best sample_text_env [sample_controller 1 0 5, sample_controller 2 9 20, sample_controller 3 9 10]
     = Some (sample_controller 3 9 10) \<and>
   select_best sample_text_env [sample_controller 3 9 10, sample_controller 2 9 20, sample_controller 1 0 5]
     = Some (sample_controller 3 9 10)"
proof -
  let ?cs = "[sample_controller 1 0 5, sample_controller 2 9 20, sample_controller 3 9 10]"
  have "select_best sample_text_env ?cs = Some (sample_controller 3 9 10)"
    by (simp add: select_best_def no_worse_def sample_controller_def)
  moreover have "distinct (map dc_controller_id ?cs)" by (simp add: sample_controller_def)
  then have "select_best sample_text_env (rev ?cs) = select_best sample_text_env ?cs"
    using select_best_optimal [OF sample_text_env_ok, of ?cs] mset_rev by blast
  ultimately show ?thesis by simp
qed

text \<open>
  Property C36. A discovery probes exactly the other hosts of the small local IPv4 networks (never
  loopback, container or tunnel interfaces, never a subnet of more than 1024 hosts, never the machine itself), and reports
  exactly the valid answers to this request that arrive by the deadline and before a
  socket error, one entry for each in order of arrival (a controller that answers twice is listed twice). An answer to another request, of another
  protocol or version, or with a URL that is not HTTP is never among them.
\<close>

theorem discover_exact:
  "case discover parse (Inr ifaces) None rid limit events of
     (targets, Inl e) \<Rightarrow> False
   | (targets, Inr found) \<Rightarrow>
       set targets = {a. \<exists>iface \<in> set ifaces. swept iface a} \<and>
       found = (if targets = [] then []
                else List.map_filter (answer_of parse rid) (takeWhile (usable limit) events)) \<and>
       (\<forall>c \<in> set found. valid_answer parse rid c)"
proof -
  have valid: "valid_answer parse rid c"
    if "answer_of parse rid x = Some c" for x c
  proof -
    from that obtain p e where "validate_response parse p rid e = Some c"
      by (metis answer_of.simps option.distinct(1) socket_event.exhaust surj_pair)
    then show ?thesis
      by (rule validate_response_Some)
        (auto simp: valid_answer_def PROTOCOL_NAME_def PROTOCOL_VERSION_def TYPE_CONTROLLER_AVAILABLE_def)
  qed
  let ?targets = "concat (map sw_hosts (local_sweep_subnets (Inr ifaces)))"
  have t: "set ?targets = {a. \<exists>iface \<in> set ifaces. swept iface a}"
    unfolding local_sweep_subnets_def sum.case using sweep_interfaces_targets by blast
  have v: "\<forall>c \<in> set (List.map_filter (answer_of parse rid) (takeWhile (usable limit) events)).
      valid_answer parse rid c"
  proof
    fix c assume "c \<in> set (List.map_filter (answer_of parse rid) (takeWhile (usable limit) events))"
    then obtain x where "answer_of parse rid x = Some c" by (auto simp: map_filter_def)
    then show "valid_answer parse rid c"
      by (rule valid)
  qed
  show ?thesis
  proof (cases "?targets = []")
    case True
    with t show ?thesis by (simp add: discover_def)
  next
    case False
    with t v show ?thesis
      by (simp only: discover_def Let_def listen_eq if_False option.case prod.case sum.case simp_thms)
  qed
qed

definition sample_parse :: "string \<Rightarrow> controller_available_message option" where
  "sample_parse p =
     (if p = [] then None
      else Some \<lparr> ca_protocol = ''timelord-discovery'', ca_protocol_version = 1,
             ca_message_type = ''CONTROLLER_AVAILABLE'', ca_request_id = (if p = ''mine'' then 42 else 43),
             ca_controller_id = 9, ca_controller_name = ''home'', ca_controller_url = ''http://10.0.0.5:8080'',
             ca_priority = 0 \<rparr>)"

definition sample_interfaces :: "net_interface list" where
  "sample_interfaces =
     [\<lparr> if_name = ''lo'', if_loopback = True, if_address = V4 0x7F000001 0xFF000000 \<rparr>,
      \<lparr> if_name = ''eth0'', if_loopback = False, if_address = V4 5 0xFFFFFFFC \<rparr>]"

theorem discover_exact_witness:
  "discover sample_parse (Inr sample_interfaces) None 42 (seconds 5)
      [(0, Packet ''other'' 1 1), (2, Packet ''mine'' 3 3), (4, Packet ''mine'' 5 5), (6, Packet ''mine'' (seconds 6) (seconds 6))]
     = ([6], Inr [sample_controller 9 0 3, sample_controller 9 0 5]) \<and>
   valid_answer sample_parse 42 (sample_controller 9 0 3)"
proof -
  have "discover sample_parse (Inr sample_interfaces) None 42 (seconds 5)
      [(0, Packet ''other'' 1 1), (2, Packet ''mine'' 3 3), (4, Packet ''mine'' 5 5), (6, Packet ''mine'' (seconds 6) (seconds 6))]
     = ([6], Inr [sample_controller 9 0 3, sample_controller 9 0 5])" by code_simp
  with discover_exact [where parse = sample_parse and ifaces = sample_interfaces and rid = 42 and limit = "seconds 5"
      and events = "[(0, Packet ''other'' 1 1), (2, Packet ''mine'' 3 3), (4, Packet ''mine'' 5 5), (6, Packet ''mine'' (seconds 6) (seconds 6))]"]
  show ?thesis by simp
qed

end
