(* ===== verification/Client.thy ===== *)
theory Client
  imports Messages
begin

text \<open>
  \<^verbatim>\<open>agent/src/controller_client.rs\<close>: the HTTP client for the controller's agent API. The transport (reqwest) and
  the JSON encodings are parameters: \<open>client_env\<close> sends a request and gives an error or a response,
  and holds an encoder or a decoder per body type. Requests, URLs, query parameters, timeouts and the
  reading of a response are the client's own.
\<close>

section \<open>Decimal numbers\<close>

fun show_nat :: "nat \<Rightarrow> string" where
  "show_nat n = (if n < 10 then [char_of (48 + n)] else show_nat (n div 10) @ [char_of (48 + n mod 10)])"

declare show_nat.simps [simp del]

definition show_int :: "int \<Rightarrow> string" where
  "show_int i = (if i < 0 then ''-'' @ show_nat (nat (- i)) else show_nat (nat i))"

section \<open>Data\<close>

definition REQUEST_TIMEOUT :: nanos where
  "REQUEST_TIMEOUT = seconds 10"

datatype client_error = RequestError string | ApiError u16 string

definition is_device_not_found :: "client_error \<Rightarrow> bool" where
  "is_device_not_found e = (case e of ApiError status _ \<Rightarrow> status = 404 | RequestError _ \<Rightarrow> False)"

text \<open>\<^verbatim>\<open>Display\<close>\<close>

definition error_text :: "client_error \<Rightarrow> string" where
  "error_text e =
     (case e of
        RequestError t \<Rightarrow> ''request error: '' @ t
      | ApiError status body \<Rightarrow> ''controller returned HTTP '' @ show_nat (unat status) @ '': '' @ body)"

datatype http_method = GET | POST

record http_request =
  rq_method :: http_method
  rq_url :: string
  rq_query :: "(string \<times> string) list"
  rq_json :: "string option"
  rq_timeout :: nanos

text \<open>The body is \<open>None\<close> when reading it fails.\<close>

record http_response =
  rs_status :: u16
  rs_body :: "string option"

record client_env = text_env +
  send_request :: "http_request \<Rightarrow> string + http_response"
  enc_register :: "register_request \<Rightarrow> string"
  dec_register :: "string \<Rightarrow> register_response option"
  enc_heartbeat :: "heartbeat_request \<Rightarrow> string"
  dec_heartbeat :: "string \<Rightarrow> heartbeat_response option"
  dec_schedule :: "string \<Rightarrow> schedule option"
  dec_messages :: "string \<Rightarrow> agent_message list option"
  enc_submission :: "event_submission_request \<Rightarrow> string"
  dec_submission :: "string \<Rightarrow> event_submission_response option"
  dec_system_info :: "string \<Rightarrow> system_info_response option"

record controller_client =
  base_url :: string

section \<open>Operations\<close>

text \<open>\<^verbatim>\<open>trim_end_matches('/')\<close>\<close>

definition client_new :: "string \<Rightarrow> controller_client" where
  "client_new url = \<lparr> base_url = rev (dropWhile (\<lambda>c. c = CHR ''/'') (rev url)) \<rparr>"

definition is_success :: "u16 \<Rightarrow> bool" where
  "is_success status \<longleftrightarrow> 200 \<le> status \<and> status < 300"

definition parse_response :: "(string \<Rightarrow> 'a option) \<Rightarrow> http_response \<Rightarrow> client_error + 'a" where
  "parse_response decode r =
     (if is_success (rs_status r) then
        (case rs_body r of
           None \<Rightarrow> Inl (RequestError ''error reading response body'')
         | Some t \<Rightarrow>
             (case decode t of
                Some v \<Rightarrow> Inr v
              | None \<Rightarrow> Inl (RequestError ''error decoding response body'')))
      else Inl (ApiError (rs_status r) (case rs_body r of Some t \<Rightarrow> t | None \<Rightarrow> [])))"

definition call :: "client_env \<Rightarrow> http_request \<Rightarrow> (string \<Rightarrow> 'a option) \<Rightarrow> client_error + 'a" where
  "call H rq decode =
     (case send_request H rq of
        Inl e \<Rightarrow> Inl (RequestError e)
      | Inr r \<Rightarrow> parse_response decode r)"

definition agent_url :: "client_env \<Rightarrow> controller_client \<Rightarrow> uuid \<Rightarrow> string \<Rightarrow> string" where
  "agent_url H c u what = base_url c @ ''/api/v1/agents/'' @ uuid_to_string H u @ what"

definition post_request :: "string \<Rightarrow> string \<Rightarrow> http_request" where
  "post_request url json =
     \<lparr> rq_method = POST, rq_url = url, rq_query = [], rq_json = Some json, rq_timeout = REQUEST_TIMEOUT \<rparr>"

definition system_info :: "client_env \<Rightarrow> controller_client \<Rightarrow> client_error + system_info_response" where
  "system_info H c =
     call H \<lparr> rq_method = GET, rq_url = base_url c @ ''/api/v1/system/info'', rq_query = [], rq_json = None,
              rq_timeout = REQUEST_TIMEOUT \<rparr> (dec_system_info H)"

definition client_register ::
  "client_env \<Rightarrow> controller_client \<Rightarrow> register_request \<Rightarrow> client_error + register_response" where
  "client_register H c rq =
     call H (post_request (base_url c @ ''/api/v1/agents/register'') (enc_register H rq)) (dec_register H)"

definition client_heartbeat ::
  "client_env \<Rightarrow> controller_client \<Rightarrow> uuid \<Rightarrow> heartbeat_request \<Rightarrow> client_error + heartbeat_response" where
  "client_heartbeat H c u rq =
     call H (post_request (agent_url H c u ''/heartbeat'') (enc_heartbeat H rq)) (dec_heartbeat H)"

definition poll_schedule ::
  "client_env \<Rightarrow> controller_client \<Rightarrow> uuid \<Rightarrow> string option \<Rightarrow> nat \<Rightarrow> client_error + schedule option" where
  "poll_schedule H c u known wait_secs =
     (let rq = \<lparr> rq_method = GET, rq_url = agent_url H c u ''/schedule'',
                 rq_query = (''waitSeconds'', show_nat wait_secs) #
                   (case known of Some r \<Rightarrow> [(''revision'', r)] | None \<Rightarrow> []),
                 rq_json = None, rq_timeout = seconds (int wait_secs) + REQUEST_TIMEOUT \<rparr>
      in case send_request H rq of
           Inl e \<Rightarrow> Inl (RequestError e)
         | Inr r \<Rightarrow>
             if rs_status r = 204 then Inr None
             else (case parse_response (dec_schedule H) r of Inl e \<Rightarrow> Inl e | Inr s \<Rightarrow> Inr (Some s)))"

definition poll_messages ::
  "client_env \<Rightarrow> controller_client \<Rightarrow> uuid \<Rightarrow> int \<Rightarrow> nat \<Rightarrow> client_error + agent_message list" where
  "poll_messages H c u after wait_secs =
     call H \<lparr> rq_method = GET, rq_url = agent_url H c u ''/messages'',
              rq_query = [(''after'', show_int after), (''waitSeconds'', show_nat wait_secs)],
              rq_json = None, rq_timeout = seconds (int wait_secs) + REQUEST_TIMEOUT \<rparr> (dec_messages H)"

definition submit_events ::
  "client_env \<Rightarrow> controller_client \<Rightarrow> uuid \<Rightarrow> event_submission_request \<Rightarrow> client_error + event_submission_response" where
  "submit_events H c u rq =
     call H (post_request (agent_url H c u ''/events'') (enc_submission H rq)) (dec_submission H)"

section \<open>Lemmas\<close>

lemma base_url_no_slash:
  assumes "base_url (client_new url) \<noteq> []"
  shows "last (base_url (client_new url)) \<noteq> CHR ''/''"
  using assms hd_dropWhile [of "\<lambda>c. c = CHR ''/''" "rev url"]
  by (simp only: client_new_def controller_client.simps last_rev rev_is_Nil_conv not_False_eq_True)

end
