(* ===== verification/Host.thy ===== *)
theory Host
  imports Client
begin

text \<open>
  What the agent tells the controller about its host (\<^verbatim>\<open>agent/src/agent.rs\<close>: \<open>os_info\<close>, \<open>is_link_local\<close>,
  \<open>local_ip_addresses\<close>, \<open>network_interfaces\<close>). The two enumerations of the operating system
  (\<^verbatim>\<open>list_afinet_netifas\<close>, \<^verbatim>\<open>NetworkInterface::show\<close>) are arguments; either may fail. The texts of the
  addresses are those of Rust's \<^verbatim>\<open>std::net\<close>.
\<close>

unbundle bit_operations_syntax

section \<open>Addresses\<close>

datatype ip_addr = IpV4 u32 | IpV6 "128 word"

definition octets :: "u32 \<Rightarrow> nat list" where
  "octets v4 = map (\<lambda>i. unat (take_bit 8 (drop_bit i v4))) [24, 16, 8, 0]"

definition segments :: "128 word \<Rightarrow> nat list" where
  "segments v6 = map (\<lambda>i. unat (take_bit 16 (drop_bit i v6))) [112, 96, 80, 64, 48, 32, 16, 0]"

fun is_loopback :: "ip_addr \<Rightarrow> bool" where
  "is_loopback (IpV4 v4) \<longleftrightarrow> octets v4 ! 0 = 127"
| "is_loopback (IpV6 v6) \<longleftrightarrow> v6 = 1"

fun is_link_local :: "ip_addr \<Rightarrow> bool" where
  "is_link_local (IpV4 v4) \<longleftrightarrow> (let o4 = octets v4 in o4 ! 0 = 169 \<and> o4 ! 1 = 254)"
| "is_link_local (IpV6 v6) \<longleftrightarrow> segments v6 ! 0 AND 0xffc0 = 0xfe80"

text \<open>The text of an address: dotted decimals, and groups of hexadecimals with the first longest run of at
  least two zero groups left out.\<close>

fun show_hex :: "nat \<Rightarrow> string" where
  "show_hex n = (let d = (''0123456789abcdef'' ! (n mod 16)) in if n < 16 then [d] else show_hex (n div 16) @ [d])"

declare show_hex.simps [simp del]

fun separated :: "string \<Rightarrow> string list \<Rightarrow> string" where
  "separated sep [] = []"
| "separated sep [x] = x"
| "separated sep (x # xs) = x @ sep @ separated sep xs"

definition show_ipv4 :: "u32 \<Rightarrow> string" where
  "show_ipv4 v4 = separated ''.'' (map show_nat (octets v4))"

text \<open>The spans are pairs of a start and a length.\<close>

fun zero_run :: "nat \<Rightarrow> nat \<times> nat \<Rightarrow> nat \<times> nat \<Rightarrow> nat list \<Rightarrow> nat \<times> nat" where
  "zero_run i current longest [] = longest"
| "zero_run i current longest (g # gs) =
     (if g = 0 then
        (let run = (if snd current = 0 then (i, 1) else (fst current, snd current + 1))
         in zero_run (Suc i) run (if snd longest < snd run then run else longest) gs)
      else zero_run (Suc i) (0, 0) longest gs)"

definition show_ipv6 :: "128 word \<Rightarrow> string" where
  "show_ipv6 v6 =
     (if drop_bit 32 v6 = 0xffff then ''::ffff:'' @ show_ipv4 (ucast v6)
      else
        (let groups = segments v6; (start, len) = zero_run 0 (0, 0) (0, 0) groups;
             part = (\<lambda>gs. separated '':'' (map show_hex gs))
         in if len > 1 then part (take start groups) @ ''::'' @ part (drop (start + len) groups)
            else part groups))"

fun show_ip :: "ip_addr \<Rightarrow> string" where
  "show_ip (IpV4 v4) = show_ipv4 v4"
| "show_ip (IpV6 v6) = show_ipv6 v6"

section \<open>The report\<close>

record os_adapter =
  oa_name :: string
  oa_mac_addr :: "string option"
  oa_addr :: "ip_addr list"

record host =
  ho_windows :: bool  \<comment> \<open>\<^verbatim>\<open>cfg(windows)\<close>\<close>
  ho_os :: string  \<comment> \<open>\<^verbatim>\<open>std::env::consts::OS\<close>\<close>
  ho_arch :: string  \<comment> \<open>\<^verbatim>\<open>std::env::consts::ARCH\<close>\<close>
  ho_netifas :: "string + (string \<times> ip_addr) list"
  ho_adapters :: "string + os_adapter list"

definition os_info :: "host \<Rightarrow> string \<times> string" where
  "os_info h = (if ho_windows h then (''Windows'', []) else (ho_os h, []))"

definition local_ip_addresses :: "host \<Rightarrow> string list" where
  "local_ip_addresses h =
     (case ho_netifas h of
        Inr interfaces \<Rightarrow>
          map (\<lambda>(name, ip). name @ '': '' @ show_ip ip)
            (filter (\<lambda>(_, ip). \<not> is_loopback ip \<and> \<not> is_link_local ip) interfaces)
      | Inl _ \<Rightarrow> [])"

definition network_interfaces :: "host \<Rightarrow> network_interface_info list" where
  "network_interfaces h =
     (case ho_adapters h of
        Inr interfaces \<Rightarrow>
          map (\<lambda>iface. \<lparr> ni_name = oa_name iface, ni_mac_address = oa_mac_addr iface,
                 ni_addresses = map show_ip (oa_addr iface) \<rparr>)
            (sort_key oa_name interfaces)
      | Inl _ \<Rightarrow> [])"

section \<open>Which addresses are reported\<close>

lemma octet_value:
  "unat (take_bit 8 (drop_bit i (v4 :: u32))) = unat v4 div 2 ^ i mod 256"
  using unsigned_less [of v4, where ?'a = nat]
  by (simp only: unsigned_take_bit_eq unsigned_drop_bit_eq) (simp add: take_bit_eq_mod drop_bit_eq_div)

lemma segment_value:
  "unat (take_bit 16 (drop_bit i (v6 :: 128 word))) = unat v6 div 2 ^ i mod 65536"
  using unsigned_less [of v6, where ?'a = nat]
  by (simp only: unsigned_take_bit_eq unsigned_drop_bit_eq) (simp add: take_bit_eq_mod drop_bit_eq_div)

lemma mask_top_ten: "n < 65536 \<Longrightarrow> (n AND 0xffc0 = 0xfe80) = (n div 64 = (0x3fa :: nat))"
proof -
  assume n: "n < 65536"
  have mask: "(0xffc0 :: nat) = push_bit 6 (mask 10)" by (simp add: mask_eq_exp_minus_1 push_bit_eq_mult)
  have "n AND 0xffc0 = push_bit 6 (take_bit 10 (drop_bit 6 n))"
    unfolding mask by (rule bit_eqI) (auto simp: bit_simps)
  also have "\<dots> = n div 64 * 64"
    using n by (simp add: push_bit_eq_mult take_bit_eq_mod drop_bit_eq_div less_mult_imp_div_less)
  finally show ?thesis by auto
qed

text \<open>The ranges the standards reserve: 127.0.0.0/8 and ::1 for loopback, 169.254.0.0/16 and fe80::/10 for
  link-local addresses.\<close>

fun routable :: "ip_addr \<Rightarrow> bool" where
  "routable (IpV4 v4) \<longleftrightarrow> unat v4 \<notin> {0x7f000000 .. 0x7fffffff} \<union> {0xa9fe0000 .. 0xa9feffff}"
| "routable (IpV6 v6) \<longleftrightarrow> v6 \<noteq> 1 \<and>
     unat v6 \<notin> {0xfe800000000000000000000000000000 .. 0xfebfffffffffffffffffffffffffffff}"

lemma octets_nth: "octets v4 ! 0 = unat v4 div 2 ^ 24" "octets v4 ! Suc 0 = unat v4 div 2 ^ 16 mod 256"
  using unsigned_less [of v4, where ?'a = nat] by (simp_all add: octets_def octet_value)

lemma segments_nth: "segments v6 ! 0 = unat v6 div 2 ^ 112"
  using unsigned_less [of v6, where ?'a = nat] by (simp add: segments_def segment_value)

lemma quotient_range: "b \<noteq> 0 \<Longrightarrow> n div b = q \<longleftrightarrow> n \<in> {q * b .. q * b + (b - 1)}" for n b q :: nat
proof (intro iffI)
  assume b: "b \<noteq> 0" and "n div b = q"
  then show "n \<in> {q * b .. q * b + (b - 1)}"
    using div_mult_mod_eq [of n b] mod_less_divisor [of b n] by (simp only: atLeastAtMost_iff) linarith
next
  assume "b \<noteq> 0" "n \<in> {q * b .. q * b + (b - 1)}"
  then show "n div b = q" by (auto intro!: div_nat_eqI simp: mult.commute)
qed

lemma routable_iff: "routable ip \<longleftrightarrow> \<not> is_loopback ip \<and> \<not> is_link_local ip"
proof (cases ip)
  case (IpV4 v4)
  have "n div 2 ^ 24 = 169 \<and> n div 2 ^ 16 mod 256 = 254 \<longleftrightarrow> n div 2 ^ 16 = 0xa9fe" for n :: nat
  proof -
    have "n div 2 ^ 24 = n div 2 ^ 16 div 256" by (simp add: div_mult2_eq [symmetric])
    moreover have "m div 256 = 169 \<and> m mod 256 = 254 \<longleftrightarrow> m = 0xa9fe" for m :: nat
    proof (intro iffI)
      assume "m div 256 = 169 \<and> m mod 256 = 254"
      then show "m = 0xa9fe" using div_mult_mod_eq [of m 256] by linarith
    qed simp
    ultimately show ?thesis by simp
  qed
  from this [of "unat v4"] IpV4 show ?thesis
    using quotient_range [of "2 ^ 24" "unat v4" 127] quotient_range [of "2 ^ 16" "unat v4" "0xa9fe"]
    by (simp add: octets_nth)
next
  case (IpV6 v6)
  have "unat v6 div 2 ^ 112 < 65536" using unsigned_less [of v6, where ?'a = nat] by simp
  with IpV6 show ?thesis
    using quotient_range [of "2 ^ 118" "unat v6" "0x3fa"]
    by (simp add: segments_nth mask_top_ten div_mult2_eq [symmetric])
qed

lemma local_ip_addresses_routable:
  "ho_netifas h = Inr netifas \<Longrightarrow>
   local_ip_addresses h = map (\<lambda>(name, ip). name @ '': '' @ show_ip ip) (filter (routable \<circ> snd) netifas)"
  by (simp add: local_ip_addresses_def routable_iff comp_def case_prod_unfold)

definition sample_host :: host where
  "sample_host =
     \<lparr> ho_windows = False, ho_os = ''linux'', ho_arch = ''x86_64'',
       ho_netifas = Inr [(''lo'', IpV4 0x7f000001), (''eth0'', IpV4 0x0a000005), (''eth0'', IpV6 0xfe800000000000000000000000000001),
                         (''wlan0'', IpV6 0x20010db8000000000000000000000001), (''usb0'', IpV4 0xa9fe0102)],
       ho_adapters = Inr [\<lparr> oa_name = ''lo'', oa_mac_addr = None, oa_addr = [IpV4 0x7f000001, IpV6 1] \<rparr>,
                          \<lparr> oa_name = ''eth0'', oa_mac_addr = Some ''aa:bb'', oa_addr = [IpV4 0x0a000005] \<rparr>] \<rparr>"

text \<open>
  The addresses reported are, in the order the operating system lists them, those outside the
  loopback and link-local ranges; the adapters reported are all adapters, by name, those of one name in the
  operating system's order.
\<close>

theorem host_report_exact:
  assumes "ho_netifas h = Inr netifas" and "ho_adapters h = Inr adapters"
  shows "local_ip_addresses h = map (\<lambda>(name, ip). name @ '': '' @ show_ip ip) (filter (routable \<circ> snd) netifas) \<and>
    sorted (map ni_name (network_interfaces h)) \<and>
    map (\<lambda>i. (ni_mac_address i, ni_addresses i)) (filter (\<lambda>i. ni_name i = n) (network_interfaces h)) =
      map (\<lambda>a. (oa_mac_addr a, map show_ip (oa_addr a))) (filter (\<lambda>a. oa_name a = n) adapters)"
proof (intro conjI)
  show "local_ip_addresses h = map (\<lambda>(name, ip). name @ '': '' @ show_ip ip) (filter (routable \<circ> snd) netifas)"
    by (rule local_ip_addresses_routable [OF assms(1)])
  show "sorted (map ni_name (network_interfaces h))"
    using sorted_sort_key [of oa_name adapters] by (simp add: network_interfaces_def assms(2) comp_def)
  show "map (\<lambda>i. (ni_mac_address i, ni_addresses i)) (filter (\<lambda>i. ni_name i = n) (network_interfaces h)) =
      map (\<lambda>a. (oa_mac_addr a, map show_ip (oa_addr a))) (filter (\<lambda>a. oa_name a = n) adapters)"
    by (simp add: network_interfaces_def assms(2) filter_map comp_def sort_key_stable)
qed

theorem host_report_exact_witness:
  "local_ip_addresses sample_host = [''eth0: 10.0.0.5'', ''wlan0: 2001:db8::1''] \<and>
   sorted (map ni_name (network_interfaces sample_host))"
proof -
  have "local_ip_addresses sample_host =
      map (\<lambda>(name, ip). name @ '': '' @ show_ip ip) (filter (routable \<circ> snd) (projr (ho_netifas sample_host)))"
    "sorted (map ni_name (network_interfaces sample_host))"
    using host_report_exact [of sample_host "projr (ho_netifas sample_host)" "projr (ho_adapters sample_host)" "''lo''"]
    by (simp_all add: sample_host_def)
  moreover have "filter (routable \<circ> snd) (projr (ho_netifas sample_host)) =
      [(''eth0'', IpV4 0x0a000005), (''wlan0'', IpV6 0x20010db8000000000000000000000001)]"
    by (simp add: sample_host_def)
  moreover have "show_ip (IpV4 0x0a000005) = ''10.0.0.5''"
    by (simp add: show_ipv4_def octets_def octet_value show_nat.simps char_of_def bit_0)
  moreover have "show_ip (IpV6 0x20010db8000000000000000000000001) = ''2001:db8::1''"
    by (simp add: show_ipv6_def segments_def segment_value show_hex.simps)
  ultimately show ?thesis by simp
qed

end
