(* ===== verification/Agent.thy ===== *)
theory Agent
  imports Recorder Messages Clock Config Discovery Client Host
begin

text \<open>
  The asynchronous half of the agent, \<^verbatim>\<open>agent/src/agent.rs\<close>: its shared state, the operations the
  loops perform on it, and the loops themselves, one definition per turn. A turn is what runs
  between two suspension points; what the network answers, what time it is and which identifiers are drawn are
  arguments of the turn (\<open>moment\<close>). A loop that retries until it succeeds takes the list of outcomes of its
  attempts and returns \<open>None\<close> while it is still retrying. A \<^verbatim>\<open>Notify\<close> is its stored permit.
\<close>

section \<open>Data\<close>

definition EVENT_BATCH_SIZE :: nat where "EVENT_BATCH_SIZE = 100"
definition SCHEDULE_SYNC_GRACE :: nanos where "SCHEDULE_SYNC_GRACE = seconds 90"
definition SLEEP_DETECT_SLACK :: nanos where "SLEEP_DETECT_SLACK = seconds 30"
definition SCHEDULE_POLL_WAIT_SECS :: nat where "SCHEDULE_POLL_WAIT_SECS = 30"
definition ENFORCEMENT_MAX_WAIT :: nanos where "ENFORCEMENT_MAX_WAIT = seconds 60"
definition SHUTDOWN_COOLDOWN :: nanos where "SHUTDOWN_COOLDOWN = seconds 300"
definition CLOCK_RESYNC_INTERVAL :: nanos where "CLOCK_RESYNC_INTERVAL = seconds (15 * 60)"
definition CLOCK_RETRY_INTERVAL :: nanos where "CLOCK_RETRY_INTERVAL = seconds 30"
definition CLOCK_RETRY_INTERVAL_KNOWN :: nanos where "CLOCK_RETRY_INTERVAL_KNOWN = seconds (5 * 60)"
definition CLOCK_JUMP_THRESHOLD :: nanos where "CLOCK_JUMP_THRESHOLD = seconds 5"

record schedule_sync =
  confirmed :: bool
  since :: nanos

record agent =
  ag_config :: agent_config
  ag_toml_path :: path
  ag_queue :: event_queue
  ag_connected :: bool
  ag_snapshot :: session_snapshot
  ag_stopping :: bool
  ag_flush :: bool
  ag_schedule :: "schedule option"
  ag_schedule_path :: path
  ag_schedule_changed :: bool
  ag_messages :: message_store
  ag_messages_path :: path
  ag_sync :: schedule_sync
  ag_clock :: trusted_clock
  ag_clock_resync :: bool

text \<open>\<open>sys\<close> is \<^verbatim>\<open>Utc::now()\<close>, \<open>mono\<close> is \<^verbatim>\<open>Instant::now()\<close>, \<open>draw\<close> the identifiers drawn, \<open>faults\<close> the statements on the queue's
  database that fail now.\<close>

record moment =
  sys :: datetime
  mono :: nanos
  draw :: "nat \<Rightarrow> uuid"
  faults :: queue_faults

record agent_env =
  ae_queue :: queue_env
  ae_schedule_codec :: "schedule codec"
  ae_message_codec :: "message_store codec"
  ae_config_codec :: "agent_file_config codec"
  ae_version :: string
  ae_host :: "moment \<Rightarrow> host"
  ae_clock :: "datetime \<Rightarrow> bool"  \<comment> \<open>the readings of the system clock that can occur\<close>
  ae_disk :: "filesystem \<Rightarrow> bool"  \<comment> \<open>the behaviours of the disk that can occur\<close>

definition queue_at :: "agent_env \<Rightarrow> moment \<Rightarrow> queue_env" where
  "queue_at E m = (ae_queue E)\<lparr>q_fault := faults m\<rparr>"

definition uuid_text :: "agent_env \<Rightarrow> uuid \<Rightarrow> string" where
  "uuid_text E = uuid_to_string (ae_queue E)"

section \<open>The agent\<close>

definition agent_new ::
  "agent_env \<Rightarrow> filesystem \<Rightarrow> nanos \<Rightarrow> agent_config \<Rightarrow> path \<Rightarrow> event_queue \<Rightarrow> session_snapshot \<Rightarrow> agent" where
  "agent_new E fs start config toml q snap =
     (let schedule_path = with_file_name toml ''schedule.json'';
          messages_path = with_file_name toml ''messages.json''
      in \<lparr> ag_config = config, ag_toml_path = toml, ag_queue = q, ag_connected = False, ag_snapshot = snap,
           ag_stopping = False, ag_flush = False,
           ag_schedule = load_schedule (ae_schedule_codec E) fs schedule_path, ag_schedule_path = schedule_path,
           ag_schedule_changed = False,
           ag_messages = load_messages (ae_message_codec E) fs messages_path, ag_messages_path = messages_path,
           ag_sync = \<lparr> confirmed = False, since = start \<rparr>,
           ag_clock = clock_new (ntp_enabled config), ag_clock_resync = False \<rparr>)"

definition agent_now :: "moment \<Rightarrow> agent \<Rightarrow> datetime" where
  "agent_now m a = trusted_now (ag_clock a) (sys m)"

definition schedule_revision :: "agent \<Rightarrow> string option" where
  "schedule_revision a = map_option revision (ag_schedule a)"

definition mark_schedule_synced :: "agent \<Rightarrow> agent" where
  "mark_schedule_synced a =
     (if \<not> confirmed (ag_sync a)
      then a\<lparr>ag_sync := (ag_sync a)\<lparr>confirmed := True\<rparr>, ag_schedule_changed := True\<rparr>
      else a)"

definition invalidate_schedule_sync :: "moment \<Rightarrow> agent \<Rightarrow> agent" where
  "invalidate_schedule_sync m a =
     a\<lparr>ag_clock_resync := True, ag_sync := \<lparr> confirmed = False, since = mono m \<rparr>\<rparr>"

definition enforcement_view :: "moment \<Rightarrow> nanos \<Rightarrow> agent \<Rightarrow> schedule option \<times> nanos option" where
  "enforcement_view m grace a =
     (let unsynced_for = max 0 (mono m - since (ag_sync a)) in
      if enforcement_ready (confirmed (ag_sync a) \<and> is_ready (ag_clock a)) unsynced_for grace
      then (ag_schedule a, None)
      else (None, Some (max 0 (grace - unsynced_for))))"

definition schedule_for_notices :: "moment \<Rightarrow> agent \<Rightarrow> schedule option" where
  "schedule_for_notices m a = fst (enforcement_view m SCHEDULE_SYNC_GRACE a)"

definition apply_schedule :: "agent_env \<Rightarrow> schedule option \<Rightarrow> agent \<times> filesystem \<Rightarrow> agent \<times> filesystem" where
  "apply_schedule E incoming = (\<lambda>(a, fs).
     if ag_schedule a = incoming then (a, fs)
     else (a\<lparr>ag_schedule := incoming, ag_schedule_changed := True\<rparr>,
           fst (save_schedule (ae_schedule_codec E) fs (ag_schedule_path a) incoming)))"

definition live_messages :: "moment \<Rightarrow> agent \<Rightarrow> agent_message list" where
  "live_messages m a = live (ag_messages a) (agent_now m a)"

definition messages_cursor :: "agent \<Rightarrow> int" where
  "messages_cursor a = last_seq (ag_messages a)"

definition apply_messages ::
  "agent_env \<Rightarrow> moment \<Rightarrow> agent_message list \<Rightarrow> agent \<times> filesystem \<Rightarrow> agent \<times> filesystem" where
  "apply_messages E m incoming = (\<lambda>(a, fs).
     case store_apply (ag_messages a) incoming (agent_now m a) of
       (s, changed) \<Rightarrow>
         (a\<lparr>ag_messages := s\<rparr>,
          if changed then fst (save_messages (ae_message_codec E) fs (ag_messages_path a) s) else fs))"

definition begin_shutdown :: "agent \<Rightarrow> agent" where
  "begin_shutdown a = a\<lparr>ag_stopping := True\<rparr>"

definition request_flush :: "agent \<Rightarrow> agent" where
  "request_flush a = a\<lparr>ag_flush := True\<rparr>"

text \<open>A failed enqueue is logged.\<close>

definition agent_enqueue :: "agent_env \<Rightarrow> moment \<Rightarrow> queued_event \<Rightarrow> agent \<Rightarrow> agent" where
  "agent_enqueue E m event a = a\<lparr>ag_queue := fst (enqueue (queue_at E m) (ag_queue a) event (sys m))\<rparr>"

definition note_disconnected :: "agent_env \<Rightarrow> moment \<Rightarrow> string \<Rightarrow> agent \<Rightarrow> agent" where
  "note_disconnected E m reason a =
     (let a' = a\<lparr>ag_connected := False\<rparr> in
      if ag_connected a then agent_enqueue E m (controller_disconnected (draw m 0) (sys m) reason) a' else a')"

definition note_connected :: "agent_env \<Rightarrow> moment \<Rightarrow> string \<Rightarrow> agent \<Rightarrow> agent" where
  "note_connected E m url a =
     (let a' = a\<lparr>ag_connected := True\<rparr> in
      if \<not> ag_connected a
      then request_flush (agent_enqueue E m (controller_connected (draw m 0) (sys m) url) a') else a')"

section \<open>Finding and registering with a controller\<close>

text \<open>What a round of discovery meets on the network.\<close>

record discovery_io =
  dio_parse :: "string \<Rightarrow> controller_available_message option"
  dio_interfaces :: "string + net_interface list"
  dio_bind_error :: "string option"
  dio_request_id :: uuid
  dio_events :: "(nanos \<times> socket_event) list"

type_synonym discovery_round = "moment \<times> discovery_io"

fun resolve_controller_url ::
  "agent_env \<Rightarrow> bool \<Rightarrow> discovery_round list \<Rightarrow> agent \<times> filesystem \<Rightarrow> (agent \<times> filesystem) \<times> string option" and
  discovery_rounds ::
  "agent_env \<Rightarrow> discovery_round list \<Rightarrow> agent \<times> filesystem \<Rightarrow> (agent \<times> filesystem) \<times> string option" where
  "resolve_controller_url E force_rediscover rounds (a, fs) =
     (case (if force_rediscover then None else controller_url (ag_config a)) of
        Some url \<Rightarrow> ((a, fs), Some url)
      | None \<Rightarrow> discovery_rounds E rounds (a, fs))"
| "discovery_rounds E [] (a, fs) = ((a, fs), None)"
| "discovery_rounds E ((m, io) # rest) (a, fs) =
     (let a1 = agent_enqueue E m (controller_discovery_started (draw m 0) (sys m)) a in
      case snd (discover (dio_parse io) (dio_interfaces io) (dio_bind_error io) (dio_request_id io)
             (discovery_timeout (ag_config a)) (dio_events io)) of
        Inl err \<Rightarrow>
          discovery_rounds E rest (agent_enqueue E m (controller_discovery_failed (draw m 1) (sys m) err) a1, fs)
      | Inr found \<Rightarrow>
          if found \<noteq> [] then
            (let best = the (select_best (ae_queue E) found)
             in ((agent_enqueue E m (controller_discovered (uuid_text E) (draw m 1) (sys m) (dc_controller_id best)
                    (dc_controller_name best) (dc_controller_url best)) a1,
                  fst (persist_controller_url (ae_config_codec E) fs (ag_toml_path a) (dc_controller_url best))),
                 Some (dc_controller_url best)))
          else
            discovery_rounds E rest (agent_enqueue E m
              (controller_discovery_failed (draw m 1) (sys m) ''no controller responded'') a1, fs))"

definition build_register_request :: "agent_env \<Rightarrow> moment \<Rightarrow> agent \<Rightarrow> register_request" where
  "build_register_request E m a =
     (let h = ae_host E m; (operating_system, operating_system_version) = os_info h
      in \<lparr> rq_device_id = device_id (ag_config a), rq_device_name = device_name (ag_config a),
           rq_hostname = device_name (ag_config a), rq_agent_version = ae_version E,
           rq_operating_system = operating_system, rq_operating_system_version = operating_system_version,
           rq_architecture = ho_arch h, rq_local_ip_addresses = local_ip_addresses h,
           rq_network_interfaces = network_interfaces h \<rparr>)"

fun register_agent ::
  "agent_env \<Rightarrow> controller_client \<Rightarrow> (moment \<times> client_env) list \<Rightarrow> agent \<times> filesystem \<Rightarrow>
   (agent \<times> filesystem) \<times> uuid option" where
  "register_agent E c [] (a, fs) = ((a, fs), None)"
| "register_agent E c ((m, H) # rest) (a, fs) =
     (case client_register H c (build_register_request E m a) of
        Inr response \<Rightarrow>
          (let a1 = (agent_enqueue E m (registration_succeeded (uuid_text E) (draw m 0) (sys m) (rr_device_id response)) a)
                      \<lparr>ag_connected := True\<rparr>;
               (a2, fs') = apply_schedule E (rr_schedule response) (a1, fs)
           in ((request_flush (mark_schedule_synced a2), fs'), Some (rr_device_id response)))
      | Inl err \<Rightarrow>
          register_agent E c rest
            (agent_enqueue E m (registration_failed (draw m 0) (sys m) (error_text err)) a, fs))"

section \<open>Heartbeats and polls\<close>

type_synonym client_handle = "controller_client \<times> uuid"

definition build_heartbeat_request :: "agent_env \<Rightarrow> moment \<Rightarrow> client_handle \<Rightarrow> agent \<Rightarrow> heartbeat_request" where
  "build_heartbeat_request E m ch a =
     \<lparr> hq_event_id = draw m 3, hq_occurred_at = sys m, hq_agent_version = ae_version E, hq_uptime_seconds = 0,
       hq_service_state = ''RUNNING'', hq_current_user = sn_username (ag_snapshot a),
       hq_session_state = sn_state (ag_snapshot a), hq_idle_seconds = None,
       hq_controller_url = Some (base_url (fst ch)) \<rparr>"

text \<open>One turn of \<^verbatim>\<open>heartbeat_loop\<close>; \<open>regs\<close> are the attempts to register again, if it comes to that.\<close>

definition heartbeat_turn ::
  "agent_env \<Rightarrow> moment \<Rightarrow> client_env \<Rightarrow> (moment \<times> client_env) list \<Rightarrow> client_handle \<Rightarrow> agent \<times> filesystem \<Rightarrow>
   (agent \<times> filesystem) \<times> client_handle" where
  "heartbeat_turn E m H regs ch = (\<lambda>(a, fs).
     case client_heartbeat H (fst ch) (snd ch) (build_heartbeat_request E m ch a) of
       Inr response \<Rightarrow>
         (let (a1, fs') = apply_schedule E (hr_schedule response) (note_connected E m (base_url (fst ch)) a, fs)
          in ((agent_enqueue E m (heartbeat_sent (draw m 2) (sys m)) (mark_schedule_synced a1), fs'), ch))
     | Inl err \<Rightarrow>
         if is_device_not_found err then
           (case register_agent E (fst ch) regs (note_disconnected E m ''device not found; re-registering'' a, fs) of
              (s, Some new_id) \<Rightarrow> (s, (fst ch, new_id))
            | (s, None) \<Rightarrow> (s, ch))
         else ((note_disconnected E m (error_text err) a, fs), ch))"

definition schedule_poll_turn ::
  "agent_env \<Rightarrow> client_env \<Rightarrow> client_handle \<Rightarrow> agent \<times> filesystem \<Rightarrow> agent \<times> filesystem" where
  "schedule_poll_turn E H ch = (\<lambda>(a, fs).
     case poll_schedule H (client_new (base_url (fst ch))) (snd ch) (schedule_revision a) SCHEDULE_POLL_WAIT_SECS of
       Inr sched \<Rightarrow> (let (a1, fs') = apply_schedule E sched (a, fs) in (mark_schedule_synced a1, fs'))
     | Inl err \<Rightarrow> (a, fs))"

definition message_poll_turn ::
  "agent_env \<Rightarrow> moment \<Rightarrow> client_env \<Rightarrow> client_handle \<Rightarrow> agent \<times> filesystem \<Rightarrow> agent \<times> filesystem" where
  "message_poll_turn E m H ch = (\<lambda>(a, fs).
     case poll_messages H (client_new (base_url (fst ch))) (snd ch) (messages_cursor a) SCHEDULE_POLL_WAIT_SECS of
       Inr incoming \<Rightarrow> apply_messages E m incoming (a, fs)
     | Inl err \<Rightarrow> (a, fs))"

section \<open>Delivering events\<close>

text \<open>
  The queue is read, the batch submitted, and the rows marked; other tasks run in between. An error while reading ends the turn. A row that cannot be decoded
  would panic instead and end the task; \<open>Soundness\<close> shows that no reachable queue has one.
\<close>

definition read_due :: "agent_env \<Rightarrow> moment \<Rightarrow> agent \<Rightarrow> pending_delivery list" where
  "read_due E m a =
     (case due_batch (queue_at E m) (ag_queue a) (sys m) EVENT_BATCH_SIZE of Inl err \<Rightarrow> [] | Inr rows \<Rightarrow> rows)"

definition mark_result ::
  "queue_env \<Rightarrow> datetime \<Rightarrow> event_queue \<Rightarrow> pending_delivery \<times> event_result \<Rightarrow> event_queue" where
  "mark_result Q now q = (\<lambda>(delivery, result).
     case er_status result of
       Accepted \<Rightarrow> fst (mark_delivered Q q (pd_row_id delivery))
     | Duplicate \<Rightarrow> fst (mark_delivered Q q (pd_row_id delivery))
     | Rejected \<Rightarrow> fst (mark_failed Q q (pd_row_id delivery) (pd_attempt_count delivery) now))"

definition finish_delivery ::
  "agent_env \<Rightarrow> moment \<Rightarrow> client_env \<Rightarrow> client_handle \<Rightarrow> pending_delivery list \<Rightarrow> agent \<Rightarrow> agent" where
  "finish_delivery E m H ch pending a =
     (if pending = [] then a
      else
        (case submit_events H (fst ch) (snd ch) \<lparr> sr_events = map (\<lambda>p. to_event_item (pd_event p)) pending \<rparr> of
           Inr response \<Rightarrow>
             (let a1 = note_connected E m (base_url (fst ch)) a
              in a1\<lparr>ag_queue := foldl (mark_result (queue_at E m) (sys m)) (ag_queue a1)
                     (zip pending (es_results response))\<rparr>)
         | Inl err \<Rightarrow>
             (let a1 = note_disconnected E m (error_text err) a
              in a1\<lparr>ag_queue := foldl (\<lambda>q p. fst (mark_failed (queue_at E m) q (pd_row_id p) (pd_attempt_count p) (sys m)))
                     (ag_queue a1) pending\<rparr>)))"

definition deliver_due_batch ::
  "agent_env \<Rightarrow> moment \<Rightarrow> client_env \<Rightarrow> client_handle \<Rightarrow> agent \<Rightarrow> agent" where
  "deliver_due_batch E m H ch a = finish_delivery E m H ch (read_due E m a) a"

text \<open>What wakes the delivery loop. Every wake is followed by a delivery; after the stop it is the last.\<close>

datatype delivery_wake = RetryTick | FlushRequested | StopRequested

definition delivery_wake_turn :: "delivery_wake \<Rightarrow> agent \<Rightarrow> agent" where
  "delivery_wake_turn w a = (case w of FlushRequested \<Rightarrow> a\<lparr>ag_flush := False\<rparr> | _ \<Rightarrow> a)"

section \<open>Keeping the clock\<close>

record clock_loop =
  cl_last_system :: datetime
  cl_last_tick :: nanos
  cl_next_sync :: nanos

definition clock_loop_start :: "moment \<Rightarrow> clock_loop" where
  "clock_loop_start m = \<lparr> cl_last_system = sys m, cl_last_tick = mono m, cl_next_sync = mono m \<rparr>"

text \<open>The head of the loop: measure when the time has come. \<open>m'\<close> is the moment after measuring.\<close>

definition clock_measure_turn ::
  "moment \<Rightarrow> moment \<Rightarrow> ntp_env \<Rightarrow> clock_loop \<times> agent \<Rightarrow> clock_loop \<times> agent" where
  "clock_measure_turn m m' N = (\<lambda>(cl, a).
     if mono m \<ge> cl_next_sync cl then
       (let (clock, next) =
          (case measure_offset N (ntp_servers (ag_config a)) of
             Some offset \<Rightarrow> (set_offset_ms offset (ag_clock a), mono m' + CLOCK_RESYNC_INTERVAL)
           | None \<Rightarrow> (ag_clock a,
               mono m' + (if is_ready (ag_clock a) then CLOCK_RETRY_INTERVAL_KNOWN else CLOCK_RETRY_INTERVAL)))
        in (\<lparr> cl_last_system = sys m', cl_last_tick = mono m', cl_next_sync = next \<rparr>,
            a\<lparr>ag_clock := clock, ag_schedule_changed := True\<rparr>))
     else (cl, a))"

datatype clock_wake = SyncDue | ResyncRequested | WatchTick

definition clock_wake_turn :: "moment \<Rightarrow> clock_wake \<Rightarrow> clock_loop \<times> agent \<Rightarrow> clock_loop \<times> agent" where
  "clock_wake_turn m w = (\<lambda>(cl, a).
     case w of
       SyncDue \<Rightarrow> (cl, a)
     | ResyncRequested \<Rightarrow> (cl\<lparr>cl_next_sync := mono m\<rparr>, a\<lparr>ag_clock_resync := False\<rparr>)
     | WatchTick \<Rightarrow>
         (let drift = (sys m - cl_last_system cl) - (mono m - cl_last_tick cl)
          in (\<lparr> cl_last_system = sys m, cl_last_tick = mono m,
                cl_next_sync = (if \<bar>drift\<bar> > CLOCK_JUMP_THRESHOLD then mono m else cl_next_sync cl) \<rparr>, a)))"

section \<open>Enforcing the schedule\<close>

datatype power_outcome = PowerDone | PowerFailed string | PowerPanicked

definition report_outcome ::
  "agent_env \<Rightarrow> moment \<Rightarrow> string \<Rightarrow> power_outcome \<Rightarrow> agent \<Rightarrow> agent" where
  "report_outcome E m act outcome a =
     (case outcome of
        PowerDone \<Rightarrow> agent_enqueue E m (power_action_completed (draw m 0) (sys m) act) a
      | PowerFailed err \<Rightarrow> agent_enqueue E m (power_action_failed (draw m 0) (sys m) act err) a
      | PowerPanicked \<Rightarrow> a)"

text \<open>
  \<^verbatim>\<open>enforce\<close> is cut where the task hands over to the operating system and waits: before the call it decides, reports the
  request and remembers a shutdown; after it, at \<open>m'\<close>, it reports the outcome. The result says which action was
  asked of the operating system, if any.
\<close>

definition request_action ::
  "agent_env \<Rightarrow> moment \<Rightarrow> schedule \<Rightarrow> agent \<times> nanos option \<Rightarrow> (agent \<times> nanos option) \<times> power_action option" where
  "request_action E m s = (\<lambda>(a, last_request).
     let act = event_name (action s);
         a1 = agent_enqueue E m (power_action_requested (draw m 0) (sys m) act ''schedule off window'') a
     in case action s of
          Sleep \<Rightarrow> ((a1, last_request), Some Sleep)
        | Shutdown \<Rightarrow>
            if (case last_request of Some t \<Rightarrow> mono m - t < SHUTDOWN_COOLDOWN | None \<Rightarrow> False)
            then ((a, last_request), None)
            else ((a1, Some (mono m)), Some Shutdown))"

definition finish_action :: "agent_env \<Rightarrow> moment \<Rightarrow> power_outcome \<Rightarrow> power_action \<Rightarrow> agent \<Rightarrow> agent" where
  "finish_action E m' outcome act a =
     (let a1 = report_outcome E m' (event_name act) outcome a
      in case act of Sleep \<Rightarrow> a1 | Shutdown \<Rightarrow> request_flush a1)"

text \<open>
  A turn of the loop: what it sees, what it does before the call and after it, and how long it then waits. The code reads the trusted time and a moment later, without
  waiting in between, whether the schedule may be enforced; here both are read at one moment.
\<close>

definition enforcement_look :: "moment \<Rightarrow> agent \<Rightarrow> schedule option \<times> nanos" where
  "enforcement_look m a =
     (let now = agent_now m a;
          (sched, held_for) = enforcement_view m SCHEDULE_SYNC_GRACE a;
          wait = (case held_for of Some hold \<Rightarrow> min ENFORCEMENT_MAX_WAIT hold | None \<Rightarrow> ENFORCEMENT_MAX_WAIT)
      in case sched of
           None \<Rightarrow> (None, wait)
         | Some s \<Rightarrow>
             (case active_window s now of
                Some w \<Rightarrow> (Some s, wait)
              | None \<Rightarrow>
                  (None, case next_off_at s now of Some next \<Rightarrow> min wait (max 0 (next - now)) | None \<Rightarrow> wait)))"

definition enforcement_start ::
  "agent_env \<Rightarrow> moment \<Rightarrow> agent \<times> nanos option \<Rightarrow> (agent \<times> nanos option) \<times> power_action option \<times> nanos" where
  "enforcement_start E m st =
     (case enforcement_look m (fst st) of
        (None, wait) \<Rightarrow> (st, None, wait)
      | (Some s, wait) \<Rightarrow> (case request_action E m s st of (st1, act) \<Rightarrow> (st1, act, wait)))"

definition enforcement_return :: "agent_env \<Rightarrow> moment \<Rightarrow> power_outcome \<Rightarrow> power_action \<Rightarrow> agent \<Rightarrow> agent" where
  "enforcement_return E m' outcome act a =
     (let a1 = finish_action E m' outcome act a
      in if act = Sleep then invalidate_schedule_sync m' a1 else a1)"

record enforcement_result =
  en_agent :: agent
  en_last_request :: "nanos option"
  en_wait :: nanos
  en_action :: "power_action option"

definition enforcement_turn ::
  "agent_env \<Rightarrow> moment \<Rightarrow> moment \<Rightarrow> power_outcome \<Rightarrow> agent \<times> nanos option \<Rightarrow> enforcement_result" where
  "enforcement_turn E m m' outcome st =
     (case enforcement_start E m st of
        ((a1, last'), act, wait) \<Rightarrow>
          \<lparr> en_agent = (case act of None \<Rightarrow> a1 | Some k \<Rightarrow> enforcement_return E m' outcome k a1),
            en_last_request = last', en_wait = wait, en_action = act \<rparr>)"

text \<open>After the wait: \<open>planned\<close> is the system time the loop meant to wake at.\<close>

datatype enforcement_wake = TimerElapsed | ScheduleChanged

definition enforcement_wake_turn :: "moment \<Rightarrow> enforcement_wake \<Rightarrow> datetime \<Rightarrow> agent \<Rightarrow> agent" where
  "enforcement_wake_turn m w planned a =
     (let a1 = (case w of ScheduleChanged \<Rightarrow> a\<lparr>ag_schedule_changed := False\<rparr> | TimerElapsed \<Rightarrow> a)
      in if sys m - planned > SLEEP_DETECT_SLACK then invalidate_schedule_sync m a1 else a1)"

end
