(* ===== verification/System.thy ===== *)
theory System
  imports Agent
begin

text \<open>
  The agent as \<^verbatim>\<open>run_blocking\<close> puts it together: the platform thread with its recorder, and the tasks
  that share the agent (resolving and registering first, then the heartbeat, poll, delivery and enforcement
  loops; the clock loop from the start). \<open>sys_step\<close> is one turn of any one of them, so a run is an arbitrary interleaving.
  Each step reports what matters for enforcement: that the controller confirmed a schedule, that the
  confirmation was dropped, that a power action was asked for. \<open>sys_run\<close> collects the reports, newest first. The relation allows at least what
  the code does: turns are also possible after a stop was requested.

  A task can be interrupted wherever it waits for somebody else, so its turn is cut there: a delivery between
  reading the due events and the controller's answer, an enforcement between asking the operating system for
  the power action and the operating system's return. The action counts as taken when it is asked for.
\<close>

section \<open>State\<close>

datatype phase = Resolving | Registering controller_client | Running

record system =
  sy_agent :: agent
  sy_fs :: filesystem
  sy_recorder :: usage_recorder
  sy_phase :: phase
  sy_client :: "client_handle option"
  sy_pending :: "pending_delivery list"
  sy_clock :: clock_loop
  sy_last_request :: "nanos option"
  sy_acting :: "(power_action \<times> nanos) option"  \<comment> \<open>the action the operating system is busy with, and the wait after it\<close>
  sy_planned :: "datetime option"

datatype observation =
    Confirmed "schedule option"
  | Invalidated nanos
  | Acted power_action nanos datetime bool  \<comment> \<open>action, monotonic time, trusted time, clock ready\<close>

text \<open>\<^verbatim>\<open>run_blocking\<close> up to the point where the tasks are started.\<close>

definition boot ::
  "agent_env \<Rightarrow> moment \<Rightarrow> filesystem \<Rightarrow> agent_config \<Rightarrow> path \<Rightarrow> event_queue \<Rightarrow> usage_recorder \<Rightarrow> system" where
  "boot E m fs config toml q r =
     (let a = agent_new E fs (mono m) config toml q (r_snapshot r);
          a1 = agent_enqueue E m (agent_started (draw m 0) (sys m) (ae_version E) ''STARTUP'') a;
          a2 = agent_enqueue E m (system_boot (draw m 1) (sys m)) a1
      in \<lparr> sy_agent = a2, sy_fs = fs, sy_recorder = r, sy_phase = Resolving, sy_client = None,
           sy_pending = [], sy_clock = clock_loop_start m, sy_last_request = None,
           sy_acting = None, sy_planned = None \<rparr>)"

text \<open>The platform thread handles a notification; queue and snapshot are shared with the agent.\<close>

definition notify_turn ::
  "recorder_env \<Rightarrow> call_values \<Rightarrow> session_event \<Rightarrow> string option \<Rightarrow> system \<Rightarrow> system" where
  "notify_turn R c ev username s =
     (let r = fst (handle R c ev username ((sy_recorder s)\<lparr>r_event_queue := Some (ag_queue (sy_agent s))\<rparr>));
          a = sy_agent s
      in s\<lparr>sy_recorder := r,
           sy_agent := a\<lparr>ag_queue := (case r_event_queue r of Some q \<Rightarrow> q | None \<Rightarrow> ag_queue a),
                         ag_snapshot := r_snapshot r\<rparr>\<rparr>)"

text \<open>The end of \<^verbatim>\<open>run_blocking\<close>.\<close>

definition stop_turn :: "agent_env \<Rightarrow> moment \<Rightarrow> bool \<Rightarrow> agent \<Rightarrow> agent" where
  "stop_turn E m shutdown_requested a =
     (let a1 = (if shutdown_requested then agent_enqueue E m (system_shutdown (draw m 0) (sys m)) a else a)
      in begin_shutdown (agent_enqueue E m (agent_stopping (draw m 1) (sys m) (ae_version E)) a1))"

section \<open>Steps\<close>

text \<open>Which statements of a notification fail is new each time, and so is which operations on files fail (the step \<open>disk\<close>).\<close>

definition recorder_at :: "recorder_env \<Rightarrow> queue_faults \<Rightarrow> store_faults \<Rightarrow> recorder_env" where
  "recorder_at R f g = R\<lparr>re_queue := (re_queue R)\<lparr>q_fault := f\<rparr>, re_store := (re_store R)\<lparr>s_fault := g\<rparr>\<rparr>"

abbreviation "with_agent s af \<equiv> s\<lparr>sy_agent := fst af, sy_fs := snd af\<rparr>"

inductive sys_step :: "agent_env \<Rightarrow> recorder_env \<Rightarrow> system \<Rightarrow> observation list \<Rightarrow> system \<Rightarrow> bool"
  for E :: agent_env and R :: recorder_env where
  discovery: "sy_phase s = Resolving \<Longrightarrow>
     resolve_controller_url E False [(m, io)] (sy_agent s, sy_fs s) = (af, url) \<Longrightarrow>
     ae_clock E (sys m) \<Longrightarrow>
     sys_step E R s [] ((with_agent s af)
       \<lparr>sy_phase := (case url of Some u \<Rightarrow> Registering (client_new u) | None \<Rightarrow> Resolving)\<rparr>)"
| registration: "sy_phase s = Registering c \<Longrightarrow>
     client_register H c (build_register_request E m (sy_agent s)) = Inr response \<Longrightarrow>
     register_agent E c [(m, H)] (sy_agent s, sy_fs s) = (af, Some u) \<Longrightarrow>
     ae_clock E (sys m) \<Longrightarrow>
     sys_step E R s [Confirmed (rr_schedule response)]
       ((with_agent s af)\<lparr>sy_phase := Running, sy_client := Some (c, u)\<rparr>)"
| registration_failure: "sy_phase s = Registering c \<Longrightarrow>
     client_register H c (build_register_request E m (sy_agent s)) = Inl err \<Longrightarrow>
     register_agent E c [(m, H)] (sy_agent s, sy_fs s) = (af, None) \<Longrightarrow>
     ae_clock E (sys m) \<Longrightarrow>
     sys_step E R s [] (with_agent s af)"
| heartbeat: "sy_phase s = Running \<Longrightarrow> sy_client s = Some ch \<Longrightarrow>
     client_heartbeat H (fst ch) (snd ch) (build_heartbeat_request E m ch (sy_agent s)) = Inr response \<Longrightarrow>
     heartbeat_turn E m H [] ch (sy_agent s, sy_fs s) = (af, ch') \<Longrightarrow>
     ae_clock E (sys m) \<Longrightarrow>
     sys_step E R s [Confirmed (hr_schedule response)] ((with_agent s af)\<lparr>sy_client := Some ch'\<rparr>)"
| heartbeat_failure: "sy_phase s = Running \<Longrightarrow> sy_client s = Some ch \<Longrightarrow>
     client_heartbeat H (fst ch) (snd ch) (build_heartbeat_request E m ch (sy_agent s)) = Inl err \<Longrightarrow>
     heartbeat_turn E m H [] ch (sy_agent s, sy_fs s) = (af, ch') \<Longrightarrow>
     ae_clock E (sys m) \<Longrightarrow>
     sys_step E R s [] ((with_agent s af)
       \<lparr>sy_phase := (if is_device_not_found err then Registering (fst ch) else Running), sy_client := Some ch'\<rparr>)"
| schedule_poll: "sy_client s = Some ch \<Longrightarrow>
     poll_schedule H (client_new (base_url (fst ch))) (snd ch) (schedule_revision (sy_agent s)) SCHEDULE_POLL_WAIT_SECS
       = Inr sched \<Longrightarrow>
     sys_step E R s [Confirmed sched] (with_agent s (schedule_poll_turn E H ch (sy_agent s, sy_fs s)))"
| message_poll: "sy_client s = Some ch \<Longrightarrow>
     ae_clock E (sys m) \<Longrightarrow>
     sys_step E R s [] (with_agent s (message_poll_turn E m H ch (sy_agent s, sy_fs s)))"
| delivery_read: "sy_client s \<noteq> None \<Longrightarrow> sy_pending s = [] \<Longrightarrow>
     (w = FlushRequested \<Longrightarrow> ag_flush (sy_agent s)) \<Longrightarrow> (w = StopRequested \<Longrightarrow> ag_stopping (sy_agent s)) \<Longrightarrow>
     ae_clock E (sys m) \<Longrightarrow>
     sys_step E R s [] (s\<lparr>sy_agent := delivery_wake_turn w (sy_agent s), sy_pending := read_due E m (sy_agent s)\<rparr>)"
| delivery_finish: "sy_client s = Some ch \<Longrightarrow>
     ae_clock E (sys m) \<Longrightarrow>
     sys_step E R s [] (s\<lparr>sy_agent := finish_delivery E m H ch (sy_pending s) (sy_agent s), sy_pending := []\<rparr>)"
| clock_measure: "tc_enabled (ag_clock (sy_agent s)) \<Longrightarrow>
     clock_measure_turn m m' N (sy_clock s, sy_agent s) = (cl, a) \<Longrightarrow>
     ae_clock E (sys m) \<Longrightarrow>
     sys_step E R s [] (s\<lparr>sy_clock := cl, sy_agent := a\<rparr>)"
| clock_wake: "tc_enabled (ag_clock (sy_agent s)) \<Longrightarrow> (w = ResyncRequested \<Longrightarrow> ag_clock_resync (sy_agent s)) \<Longrightarrow>
     clock_wake_turn m w (sy_clock s, sy_agent s) = (cl, a) \<Longrightarrow>
     ae_clock E (sys m) \<Longrightarrow>
     sys_step E R s [] (s\<lparr>sy_clock := cl, sy_agent := a\<rparr>)"
| enforcement: "sy_client s \<noteq> None \<Longrightarrow> sy_planned s = None \<Longrightarrow> sy_acting s = None \<Longrightarrow>
     enforcement_start E m (sy_agent s, sy_last_request s) = ((a, last'), act, wait) \<Longrightarrow>
     ae_clock E (sys m) \<Longrightarrow>
     sys_step E R s
       (case act of
          None \<Rightarrow> []
        | Some k \<Rightarrow> [Acted k (mono m) (agent_now m (sy_agent s)) (is_ready (ag_clock (sy_agent s)))])
       (s\<lparr>sy_agent := a, sy_last_request := last', sy_acting := map_option (\<lambda>k. (k, wait)) act,
          sy_planned := (case act of None \<Rightarrow> Some (sys (m' :: moment) + wait) | Some _ \<Rightarrow> None)\<rparr>)"
| enforcement_done: "sy_acting s = Some (k, wait) \<Longrightarrow>
     ae_clock E (sys m') \<Longrightarrow>
     sys_step E R s (if k = Sleep then [Invalidated (mono m')] else [])
       (s\<lparr>sy_agent := enforcement_return E m' outcome k (sy_agent s), sy_acting := None,
          sy_planned := Some (sys m' + wait)\<rparr>)"
| enforcement_wake: "sy_planned s = Some planned \<Longrightarrow>
     (w = ScheduleChanged \<Longrightarrow> ag_schedule_changed (sy_agent s)) \<Longrightarrow>
     ae_clock E (sys m) \<Longrightarrow>
     sys_step E R s (if sys m - planned > SLEEP_DETECT_SLACK then [Invalidated (mono m)] else [])
       (s\<lparr>sy_agent := enforcement_wake_turn m w planned (sy_agent s), sy_planned := None\<rparr>)"
| notification: "ae_clock E (clock_now c) \<Longrightarrow>
     sys_step E R s [] (notify_turn (recorder_at R f g) c ev username s)"
| stopping: "ae_clock E (sys m) \<Longrightarrow>
     sys_step E R s [] (s\<lparr>sy_agent := stop_turn E m requested (sy_agent s)\<rparr>)"
| disk: "files fs = files (sy_fs s) \<Longrightarrow> ae_disk E fs \<Longrightarrow> sys_step E R s [] (s\<lparr>sy_fs := fs\<rparr>)"

inductive sys_run :: "agent_env \<Rightarrow> recorder_env \<Rightarrow> system \<Rightarrow> observation list \<Rightarrow> system \<Rightarrow> bool"
  for E :: agent_env and R :: recorder_env where
  start: "sys_run E R s [] s"
| step: "sys_run E R s0 os s \<Longrightarrow> sys_step E R s new s' \<Longrightarrow> sys_run E R s0 (new @ os) s'"

section \<open>What the reports say\<close>

text \<open>Whether the controller has confirmed a schedule since the last invalidation, and when that was.\<close>

fun gate :: "nanos \<Rightarrow> observation list \<Rightarrow> bool \<times> nanos" where
  "gate t0 [] = (False, t0)"
| "gate t0 (Confirmed _ # os) = (True, snd (gate t0 os))"
| "gate t0 (Invalidated t # os) = (False, t)"
| "gate t0 (Acted _ _ _ _ # os) = gate t0 os"

text \<open>The schedule the controller last confirmed, or the cached one.\<close>

fun known_schedule :: "schedule option \<Rightarrow> observation list \<Rightarrow> schedule option" where
  "known_schedule s0 [] = s0"
| "known_schedule s0 (Confirmed s # os) = s"
| "known_schedule s0 (_ # os) = known_schedule s0 os"

text \<open>Every action was asked for under a schedule that may be enforced, inside one of its off windows.\<close>

fun justified :: "nanos \<Rightarrow> schedule option \<Rightarrow> observation list \<Rightarrow> bool" where
  "justified t0 s0 [] = True"
| "justified t0 s0 (Acted act t now ready # os) =
     (justified t0 s0 os \<and>
      (case known_schedule s0 os of
         None \<Rightarrow> False
       | Some s \<Rightarrow> action s = act \<and> active_window s now \<noteq> None) \<and>
      (fst (gate t0 os) \<and> ready \<or> t - snd (gate t0 os) \<ge> seconds 90))"
| "justified t0 s0 (_ # os) = justified t0 s0 os"

definition enforcement_state :: "nanos \<Rightarrow> schedule option \<Rightarrow> observation list \<Rightarrow> agent \<Rightarrow> bool" where
  "enforcement_state t0 s0 os a \<longleftrightarrow>
     (confirmed (ag_sync a), since (ag_sync a)) = gate t0 os \<and> ag_schedule a = known_schedule s0 os"

fun shutdown_times :: "observation list \<Rightarrow> nanos list" where
  "shutdown_times [] = []"
| "shutdown_times (Acted Shutdown t _ _ # os) = t # shutdown_times os"
| "shutdown_times (_ # os) = shutdown_times os"

fun is_action :: "observation \<Rightarrow> bool" where
  "is_action (Acted _ _ _ _) = True"
| "is_action _ = False"

section \<open>What each operation keeps\<close>

lemma queue_at_laws [simp]:
  "queue_rep (queue_at E m) es q \<longleftrightarrow> queue_rep (ae_queue E) es q" "queue_env_ok (queue_at E m) \<longleftrightarrow> queue_env_ok (ae_queue E)"
  "q_fault (queue_at E m) = faults m"
  by (simp_all add: queue_at_def)

lemma agent_enqueue_keeps [simp]:
  "ag_sync (agent_enqueue E m e a) = ag_sync a" "ag_schedule (agent_enqueue E m e a) = ag_schedule a"
  "ag_clock (agent_enqueue E m e a) = ag_clock a" "ag_config (agent_enqueue E m e a) = ag_config a"
  "ag_schedule_path (agent_enqueue E m e a) = ag_schedule_path a"
  "ag_messages (agent_enqueue E m e a) = ag_messages a"
  "ag_messages_path (agent_enqueue E m e a) = ag_messages_path a"
  "ag_connected (agent_enqueue E m e a) = ag_connected a"
  by (simp_all add: agent_enqueue_def)

lemma request_flush_keeps [simp]:
  "ag_sync (request_flush a) = ag_sync a" "ag_schedule (request_flush a) = ag_schedule a"
  "ag_clock (request_flush a) = ag_clock a" "ag_queue (request_flush a) = ag_queue a"
  "ag_schedule_path (request_flush a) = ag_schedule_path a"
  "ag_messages (request_flush a) = ag_messages a" "ag_messages_path (request_flush a) = ag_messages_path a"
  by (simp_all add: request_flush_def)

lemma note_connected_keeps [simp]:
  "ag_sync (note_connected E m u a) = ag_sync a" "ag_schedule (note_connected E m u a) = ag_schedule a"
  "ag_clock (note_connected E m u a) = ag_clock a"
  "ag_schedule_path (note_connected E m u a) = ag_schedule_path a"
  "ag_messages (note_connected E m u a) = ag_messages a"
  "ag_messages_path (note_connected E m u a) = ag_messages_path a"
  by (simp_all add: note_connected_def Let_def)

lemma note_disconnected_keeps [simp]:
  "ag_sync (note_disconnected E m u a) = ag_sync a" "ag_schedule (note_disconnected E m u a) = ag_schedule a"
  "ag_clock (note_disconnected E m u a) = ag_clock a"
  "ag_schedule_path (note_disconnected E m u a) = ag_schedule_path a"
  "ag_messages (note_disconnected E m u a) = ag_messages a"
  "ag_messages_path (note_disconnected E m u a) = ag_messages_path a"
  by (simp_all add: note_disconnected_def Let_def)

lemma mark_schedule_synced_sel [simp]:
  "confirmed (ag_sync (mark_schedule_synced a))" "since (ag_sync (mark_schedule_synced a)) = since (ag_sync a)"
  "ag_schedule (mark_schedule_synced a) = ag_schedule a"
  "ag_schedule_path (mark_schedule_synced a) = ag_schedule_path a"
  "ag_messages (mark_schedule_synced a) = ag_messages a"
  "ag_messages_path (mark_schedule_synced a) = ag_messages_path a"
  by (simp_all add: mark_schedule_synced_def)

lemma invalidate_schedule_sync_sel [simp]:
  "ag_sync (invalidate_schedule_sync m a) = \<lparr> confirmed = False, since = mono m \<rparr>"
  "ag_schedule (invalidate_schedule_sync m a) = ag_schedule a"
  "ag_clock (invalidate_schedule_sync m a) = ag_clock a"
  by (simp_all add: invalidate_schedule_sync_def)

lemma apply_schedule_sel [simp]:
  "ag_schedule (fst (apply_schedule E sc af)) = sc" "ag_sync (fst (apply_schedule E sc af)) = ag_sync (fst af)"
  "ag_schedule_path (fst (apply_schedule E sc af)) = ag_schedule_path (fst af)"
  "ag_messages (fst (apply_schedule E sc af)) = ag_messages (fst af)"
  "ag_messages_path (fst (apply_schedule E sc af)) = ag_messages_path (fst af)"
  by (simp_all add: apply_schedule_def split: prod.split)

lemma apply_messages_sel [simp]:
  "ag_schedule (fst (apply_messages E m ms af)) = ag_schedule (fst af)"
  "ag_sync (fst (apply_messages E m ms af)) = ag_sync (fst af)"
  by (simp_all add: apply_messages_def split: prod.split)

lemma report_outcome_keeps [simp]:
  "ag_sync (report_outcome E m act out a) = ag_sync a" "ag_schedule (report_outcome E m act out a) = ag_schedule a"
  "ag_clock (report_outcome E m act out a) = ag_clock a"
  by (simp_all add: report_outcome_def split: power_outcome.split)

lemma resolve_keeps:
  assumes "resolve_controller_url E force [(m, io)] (a, fs) = (af, url)"
  shows "ag_sync (fst af) = ag_sync a" "ag_schedule (fst af) = ag_schedule a"
  using assms by (auto simp: Let_def split: option.splits sum.splits if_splits)

lemma register_once:
  assumes "client_register H c (build_register_request E m a) = Inr response"
    "register_agent E c [(m, H)] (a, fs) = (af, u)"
  shows "ag_sync (fst af) = (ag_sync a)\<lparr>confirmed := True\<rparr>" "ag_schedule (fst af) = rr_schedule response"
  using assms
  by (auto simp: Let_def mark_schedule_synced_def apply_schedule_def split: if_splits prod.splits
      intro: schedule_sync.equality)

lemma register_once_failed:
  assumes "client_register H c (build_register_request E m a) = Inl err"
    "register_agent E c [(m, H)] (a, fs) = (af, u)"
  shows "ag_sync (fst af) = ag_sync a" "ag_schedule (fst af) = ag_schedule a"
  using assms by auto

lemma synced_eq: "ag_sync (mark_schedule_synced a) = (ag_sync a)\<lparr>confirmed := True\<rparr>"
  by (simp add: mark_schedule_synced_def)

lemma heartbeat_once:
  assumes "client_heartbeat H (fst ch) (snd ch) (build_heartbeat_request E m ch a) = Inr response"
    "heartbeat_turn E m H regs ch (a, fs) = (af, ch')"
  shows "ag_sync (fst af) = (ag_sync a)\<lparr>confirmed := True\<rparr>" "ag_schedule (fst af) = hr_schedule response"
proof -
  let ?r = "apply_schedule E (hr_schedule response) (note_connected E m (base_url (fst ch)) a, fs)"
  have "af = (agent_enqueue E m (heartbeat_sent (draw m 2) (sys m)) (mark_schedule_synced (fst ?r)), snd ?r)"
    using assms by (auto simp: heartbeat_turn_def Let_def split: prod.splits)
  then show "ag_sync (fst af) = (ag_sync a)\<lparr>confirmed := True\<rparr>" "ag_schedule (fst af) = hr_schedule response"
    by (simp_all add: synced_eq)
qed

lemma heartbeat_once_failed:
  assumes "client_heartbeat H (fst ch) (snd ch) (build_heartbeat_request E m ch a) = Inl err"
    "heartbeat_turn E m H [] ch (a, fs) = (af, ch')"
  shows "ag_sync (fst af) = ag_sync a" "ag_schedule (fst af) = ag_schedule a"
  using assms by (auto simp: heartbeat_turn_def split: if_splits)

lemma schedule_poll_once:
  assumes "poll_schedule H (client_new (base_url (fst ch))) (snd ch) (schedule_revision a) SCHEDULE_POLL_WAIT_SECS = Inr sc"
  shows "ag_sync (fst (schedule_poll_turn E H ch (a, fs))) = (ag_sync a)\<lparr>confirmed := True\<rparr>"
    "ag_schedule (fst (schedule_poll_turn E H ch (a, fs))) = sc"
proof -
  let ?r = "apply_schedule E sc (a, fs)"
  have "schedule_poll_turn E H ch (a, fs) = (mark_schedule_synced (fst ?r), snd ?r)"
    using assms by (simp add: schedule_poll_turn_def Let_def split: prod.splits)
  then show "ag_sync (fst (schedule_poll_turn E H ch (a, fs))) = (ag_sync a)\<lparr>confirmed := True\<rparr>"
    "ag_schedule (fst (schedule_poll_turn E H ch (a, fs))) = sc"
    by (simp_all add: synced_eq)
qed

lemma message_poll_keeps:
  "ag_sync (fst (message_poll_turn E m H ch (a, fs))) = ag_sync a"
  "ag_schedule (fst (message_poll_turn E m H ch (a, fs))) = ag_schedule a"
  by (simp_all add: message_poll_turn_def split: sum.split)

lemma delivery_wake_turn_keeps [simp]:
  "ag_sync (delivery_wake_turn w a) = ag_sync a" "ag_schedule (delivery_wake_turn w a) = ag_schedule a"
  "ag_queue (delivery_wake_turn w a) = ag_queue a" "ag_clock (delivery_wake_turn w a) = ag_clock a"
  by (simp_all add: delivery_wake_turn_def split: delivery_wake.split)

lemma finish_delivery_keeps [simp]:
  "ag_sync (finish_delivery E m H ch ps a) = ag_sync a" "ag_schedule (finish_delivery E m H ch ps a) = ag_schedule a"
  by (simp_all add: finish_delivery_def Let_def split: sum.split)

lemma clock_turns_keep:
  "clock_measure_turn m m' N (cl, a) = (cl', a') \<Longrightarrow> ag_sync a' = ag_sync a \<and> ag_schedule a' = ag_schedule a"
  "clock_wake_turn m w (cl, a) = (cl', a') \<Longrightarrow> ag_sync a' = ag_sync a \<and> ag_schedule a' = ag_schedule a"
  by (auto simp: clock_measure_turn_def clock_wake_turn_def Let_def split: if_splits prod.splits option.splits clock_wake.splits)

lemma stop_turn_keeps [simp]:
  "ag_sync (stop_turn E m b a) = ag_sync a" "ag_schedule (stop_turn E m b a) = ag_schedule a"
  by (simp_all add: stop_turn_def Let_def begin_shutdown_def)

lemma notify_turn_keeps [simp]:
  "ag_sync (sy_agent (notify_turn R c ev u s)) = ag_sync (sy_agent s)"
  "ag_schedule (sy_agent (notify_turn R c ev u s)) = ag_schedule (sy_agent s)"
  "sy_client (notify_turn R c ev u s) = sy_client s" "sy_last_request (notify_turn R c ev u s) = sy_last_request s"
  by (simp_all add: notify_turn_def Let_def)

section \<open>What a step does to the enforcement state\<close>

inductive_cases sys_stepE: "sys_step E R s new s'"

lemma request_action_acts:
  assumes "request_action E m sc (a, lr) = ((a', lr'), act)"
  shows "act = (case action sc of
           Sleep \<Rightarrow> Some Sleep
         | Shutdown \<Rightarrow> if (case lr of Some t \<Rightarrow> mono m - t < SHUTDOWN_COOLDOWN | None \<Rightarrow> False) then None else Some Shutdown)"
    "lr' = (if act = Some Shutdown then Some (mono m) else lr)" "act = None \<Longrightarrow> a' = a"
    "ag_sync a' = ag_sync a" "ag_schedule a' = ag_schedule a" "ag_clock a' = ag_clock a"
  using assms
  by (cases "action sc"; auto simp: request_action_def Let_def split: if_splits option.splits)+

lemma enforcement_view_ready:
  assumes "enforcement_view m SCHEDULE_SYNC_GRACE a = (Some sc, held)"
  shows "ag_schedule a = Some sc"
    "confirmed (ag_sync a) \<and> is_ready (ag_clock a) \<or> mono m - since (ag_sync a) \<ge> seconds 90" "held = None"
  using assms
  by (auto simp: enforcement_view_def enforcement_ready_def SCHEDULE_SYNC_GRACE_def seconds_def Let_def split: if_splits)

lemma enforcement_look_Some:
  assumes "enforcement_look m a = (Some sc, wait)"
  shows "fst (enforcement_view m SCHEDULE_SYNC_GRACE a) = Some sc" "active_window sc (agent_now m a) \<noteq> None"
  using assms by (auto simp: enforcement_look_def Let_def split: option.splits prod.splits)

text \<open>A turn of the enforcement loop that asks for an action has a reason to, and remembers it.\<close>

lemma enforcement_start_acts:
  assumes "enforcement_start E m (a, lr) = ((a', lr'), Some act, wait)"
  shows "\<exists>sc. ag_schedule a = Some sc \<and> action sc = act \<and> active_window sc (agent_now m a) \<noteq> None"
    "confirmed (ag_sync a) \<and> is_ready (ag_clock a) \<or> mono m - since (ag_sync a) \<ge> seconds 90"
    "act = Shutdown \<longrightarrow> lr' = Some (mono m) \<and> (\<forall>t. lr = Some t \<longrightarrow> mono m - t \<ge> SHUTDOWN_COOLDOWN)"
    "act = Sleep \<longrightarrow> lr' = lr"
proof -
  obtain sc where look: "enforcement_look m a = (Some sc, wait)"
    and req: "request_action E m sc (a, lr) = ((a', lr'), Some act)"
    using assms by (auto simp: enforcement_start_def split: option.splits prod.splits)
  note does = request_action_acts(1,2) [OF req]
  have act: "action sc = act" using does(1) by (auto split: power_action.splits if_splits)
  from enforcement_look_Some [OF look] obtain held where view: "enforcement_view m SCHEDULE_SYNC_GRACE a = (Some sc, held)"
    by (cases "enforcement_view m SCHEDULE_SYNC_GRACE a") auto
  note ready = enforcement_view_ready [OF view]
  show "\<exists>sc. ag_schedule a = Some sc \<and> action sc = act \<and> active_window sc (agent_now m a) \<noteq> None"
    using ready(1) act enforcement_look_Some(2) [OF look] by blast
  show "confirmed (ag_sync a) \<and> is_ready (ag_clock a) \<or> mono m - since (ag_sync a) \<ge> seconds 90"
    by (rule ready(2))
  show "act = Shutdown \<longrightarrow> lr' = Some (mono m) \<and> (\<forall>t. lr = Some t \<longrightarrow> mono m - t \<ge> SHUTDOWN_COOLDOWN)"
    using does act by (auto split: if_splits option.splits)
  show "act = Sleep \<longrightarrow> lr' = lr" using does(2) by simp
qed

lemma enforcement_start_keeps:
  assumes "enforcement_start E m (a, lr) = ((a', lr'), act, wait)"
  shows "ag_sync a' = ag_sync a" "ag_schedule a' = ag_schedule a" "ag_clock a' = ag_clock a"
    "act = None \<Longrightarrow> a' = a" "act = None \<Longrightarrow> lr' = lr"
  using assms request_action_acts [of E m _ a lr a' lr' act]
  by (auto simp: enforcement_start_def split: option.splits prod.splits)

lemma enforcement_return_sel [simp]:
  "ag_schedule (enforcement_return E m' outcome k a) = ag_schedule a"
  "ag_clock (enforcement_return E m' outcome k a) = ag_clock a"
  "ag_sync (enforcement_return E m' outcome k a) =
     (if k = Sleep then \<lparr> confirmed = False, since = mono m' \<rparr> else ag_sync a)"
  by (cases k; simp add: enforcement_return_def finish_action_def Let_def)+

lemma enforcement_turn_acts:
  assumes "enforcement_turn E m m' outcome (a, lr) = r" "en_action r = Some act"
  shows "\<exists>sc. ag_schedule a = Some sc \<and> action sc = act \<and> active_window sc (agent_now m a) \<noteq> None"
    "confirmed (ag_sync a) \<and> is_ready (ag_clock a) \<or> mono m - since (ag_sync a) \<ge> seconds 90"
    "act = Shutdown \<longrightarrow> en_last_request r = Some (mono m) \<and> (\<forall>t. lr = Some t \<longrightarrow> mono m - t \<ge> SHUTDOWN_COOLDOWN)"
proof -
  obtain a' lr' wait where "enforcement_start E m (a, lr) = ((a', lr'), Some act, wait)" "en_last_request r = lr'"
    using assms by (auto simp: enforcement_turn_def split: prod.splits)
  with enforcement_start_acts [OF this(1)]
  show "\<exists>sc. ag_schedule a = Some sc \<and> action sc = act \<and> active_window sc (agent_now m a) \<noteq> None"
    "confirmed (ag_sync a) \<and> is_ready (ag_clock a) \<or> mono m - since (ag_sync a) \<ge> seconds 90"
    "act = Shutdown \<longrightarrow> en_last_request r = Some (mono m) \<and> (\<forall>t. lr = Some t \<longrightarrow> mono m - t \<ge> SHUTDOWN_COOLDOWN)"
    by simp_all
qed

lemma enforcement_wake_keeps [simp]:
  "ag_schedule (enforcement_wake_turn m w planned a) = ag_schedule a"
  "ag_sync (enforcement_wake_turn m w planned a) =
     (if sys m - planned > SLEEP_DETECT_SLACK then \<lparr> confirmed = False, since = mono m \<rparr> else ag_sync a)"
  by (simp_all add: enforcement_wake_turn_def Let_def split: enforcement_wake.split)

lemma sys_step_enforcement_state:
  "sys_step E R s new s' \<Longrightarrow> enforcement_state t0 s0 os (sy_agent s) \<Longrightarrow> enforcement_state t0 s0 (new @ os) (sy_agent s')"
proof (induction rule: sys_step.induct)
  case (discovery s m io af url)
  then show ?case using resolve_keeps [OF discovery(2)] by (simp add: enforcement_state_def)
next
  case (registration s c H m response af u)
  then show ?case using register_once [OF registration(2,3)] by (auto simp: enforcement_state_def prod_eq_iff)
next
  case (registration_failure s c H m err af)
  then show ?case using register_once_failed [OF registration_failure(2,3)] by (simp add: enforcement_state_def)
next
  case (heartbeat s ch H m response af ch')
  then show ?case using heartbeat_once [OF heartbeat(3,4)] by (auto simp: enforcement_state_def prod_eq_iff)
next
  case (heartbeat_failure s ch H m err af ch')
  then show ?case using heartbeat_once_failed [OF heartbeat_failure(3,4)] by (simp add: enforcement_state_def)
next
  case (schedule_poll s ch H sched)
  then show ?case using schedule_poll_once [OF schedule_poll(2)] by (auto simp: enforcement_state_def prod_eq_iff)
next
  case (clock_measure s m m' N cl a)
  then show ?case using clock_turns_keep(1) [OF clock_measure(2)] by (simp add: enforcement_state_def)
next
  case (clock_wake s w m cl a)
  then show ?case using clock_turns_keep(2) [OF clock_wake(3)] by (simp add: enforcement_state_def)
next
  case (enforcement s m a last' act wait m')
  then show ?case using enforcement_start_keeps(1,2) [OF enforcement(4)]
    by (cases act) (auto simp: enforcement_state_def)
next
  case (enforcement_done s k wait m' outcome)
  then show ?case by (auto simp: enforcement_state_def)
qed (simp_all add: enforcement_state_def message_poll_keeps)

lemma sys_step_justified:
  assumes "sys_step E R s new s'" "enforcement_state t0 s0 os (sy_agent s)" "justified t0 s0 os"
  shows "justified t0 s0 (new @ os)"
  using assms(1)
proof cases
  case (enforcement m a last' act wait m')
  show ?thesis
  proof (cases act)
    case (Some k)
    from enforcement_start_acts(1,2) [OF enforcement(6) [unfolded Some]] assms(2,3) enforcement(1) Some show ?thesis
      by (auto simp: enforcement_state_def prod_eq_iff)
  qed (use enforcement assms in simp)
qed (use assms in simp_all)

lemma sys_run_justified:
  assumes "sys_run E R s0 os s" "enforcement_state t0 sc0 [] (sy_agent s0)"
  shows "enforcement_state t0 sc0 os (sy_agent s) \<and> justified t0 sc0 os"
  using assms
  by (induction rule: sys_run.induct) (auto intro: sys_step_enforcement_state sys_step_justified)

text \<open>The enforcement loop's memory of its last shutdown request.\<close>

definition request_state :: "observation list \<Rightarrow> system \<Rightarrow> bool" where
  "request_state os s \<longleftrightarrow>
     sy_last_request s = (case shutdown_times os of [] \<Rightarrow> None | t # _ \<Rightarrow> Some t) \<and>
     sorted_wrt (\<lambda>later earlier. later - earlier \<ge> SHUTDOWN_COOLDOWN) (shutdown_times os)"

lemma SHUTDOWN_COOLDOWN_pos: "SHUTDOWN_COOLDOWN > 0"
  by (simp add: SHUTDOWN_COOLDOWN_def seconds_def)

lemma request_state_enforcement:
  assumes "enforcement_start E m (sy_agent s, sy_last_request s) = ((a, lr'), Some act, wait)" "request_state os s"
    "sy_last_request s' = lr'"
  shows "request_state (Acted act (mono m) now ready # os) s'"
proof (cases act)
  case Sleep
  then show ?thesis using enforcement_start_acts(4) [OF assms(1)] assms(2,3) by (simp add: request_state_def)
next
  case Shutdown
  note acts = enforcement_start_acts(3) [OF assms(1), rule_format, OF Shutdown]
  have "mono m - t \<ge> SHUTDOWN_COOLDOWN" if "t \<in> set (shutdown_times os)" for t
  proof (cases "shutdown_times os")
    case (Cons t1 ts)
    with acts assms(2) have "mono m - t1 \<ge> SHUTDOWN_COOLDOWN" by (simp add: request_state_def)
    moreover have "t = t1 \<or> t1 - t \<ge> SHUTDOWN_COOLDOWN"
      using that Cons assms(2) by (auto simp: request_state_def)
    ultimately show ?thesis using SHUTDOWN_COOLDOWN_pos by linarith
  qed (use that in simp)
  then show ?thesis using Shutdown acts assms(2,3) by (simp add: request_state_def)
qed

lemma sys_step_request_state:
  assumes "sys_step E R s new s'" "request_state os s"
  shows "request_state (new @ os) s'"
  using assms(1)
proof cases
  case (enforcement m a last' act wait m')
  show ?thesis
  proof (cases act)
    case None
    then show ?thesis using enforcement assms(2) enforcement_start_keeps(5) [OF enforcement(6)]
      by (simp add: request_state_def)
  next
    case (Some k)
    from request_state_enforcement [OF enforcement(6) [unfolded Some] assms(2), of s'] enforcement(1,2) Some
    show ?thesis by simp
  qed
qed (use assms(2) in \<open>simp_all add: request_state_def\<close>)

lemma sys_run_request_state:
  "sys_run E R s0 os s \<Longrightarrow> request_state [] s0 \<Longrightarrow> request_state os s"
  by (induction rule: sys_run.induct) (auto intro: sys_step_request_state)

text \<open>Only a confirmed registration makes a client, and only with a client is anything enforced.\<close>

fun confirmed_first :: "observation list \<Rightarrow> bool" where
  "confirmed_first [] = True"
| "confirmed_first (ob # os) = (confirmed_first os \<and> (is_action ob \<longrightarrow> (\<exists>sc. Confirmed sc \<in> set os)))"

lemma confirmed_first_append:
  "list_all (\<lambda>ob. \<not> is_action ob) new \<Longrightarrow> confirmed_first (new @ os) = confirmed_first os"
  by (induction new) auto

lemma confirmed_first_later:
  "\<exists>sc. Confirmed sc \<in> set os \<Longrightarrow> confirmed_first (new @ os) = confirmed_first os"
  by (induction new) auto

lemma confirmed_first_action:
  "confirmed_first (later @ Acted act t now ready # earlier) \<Longrightarrow> \<exists>sc. Confirmed sc \<in> set earlier"
  by (induction later) auto

lemma sys_step_client:
  assumes "sys_step E R s new s'"
  shows "sy_client s' \<noteq> None \<Longrightarrow> sy_client s \<noteq> None \<or> (\<exists>sc. new = [Confirmed sc])"
  using assms by (cases rule: sys_step.cases) auto

lemma sys_run_confirmed_first:
  "sys_run E R s0 os s \<Longrightarrow> sy_client s0 = None \<Longrightarrow>
     confirmed_first os \<and> (sy_client s \<noteq> None \<longrightarrow> (\<exists>sc. Confirmed sc \<in> set os))"
proof (induction rule: sys_run.induct)
  case (step s0 os s new s')
  then have IH: "confirmed_first os" "sy_client s \<noteq> None \<Longrightarrow> \<exists>sc. Confirmed sc \<in> set os" by auto
  show ?case
  proof (cases "sy_client s")
    case None
    have "list_all (\<lambda>ob. \<not> is_action ob) new"
      using step.hyps(2) None by (cases rule: sys_step.cases) auto
    moreover have "sy_client s' \<noteq> None \<Longrightarrow> \<exists>sc. Confirmed sc \<in> set (new @ os)"
      using sys_step_client [OF step.hyps(2)] None by fastforce
    ultimately show ?thesis using IH(1) by (simp add: confirmed_first_append)
  next
    case (Some ch)
    then show ?thesis using IH by (auto simp: confirmed_first_later)
  qed
qed simp

lemma boot_sel:
  "ag_sync (sy_agent (boot E m fs config toml q r)) = \<lparr> confirmed = False, since = mono m \<rparr>"
  "ag_schedule (sy_agent (boot E m fs config toml q r)) =
     load_schedule (ae_schedule_codec E) fs (with_file_name toml ''schedule.json'')"
  "sy_last_request (boot E m fs config toml q r) = None" "sy_client (boot E m fs config toml q r) = None"
  by (simp_all add: boot_def agent_new_def Let_def)

section \<open>A concrete system\<close>

text \<open>A device with a known controller, which answers the registration with a schedule that shuts it down.\<close>

definition sample_schedule :: schedule where
  "sample_schedule = \<lparr> revision = ''r1'', action = Shutdown, timezone = ''UTC'',
     windows = [\<lparr> off_at = 0, on_at = seconds 3600 \<rparr>] \<rparr>"

definition sample_agent_env :: agent_env where
  "sample_agent_env = \<lparr> ae_queue = sample_queue_env, ae_schedule_codec = sample_schedule_codec,
     ae_message_codec = sample_message_codec, ae_config_codec = sample_config_codec,
     ae_version = ''1.0.0'', ae_host = (\<lambda>_. sample_host), ae_clock = (\<lambda>t. 0 \<le> t \<and> t \<le> seconds 86400),
     ae_disk = (\<lambda>fs. fs = empty_fs\<lparr>files := files fs\<rparr>) \<rparr>"

definition sample_moment :: "nanos \<Rightarrow> moment" where
  "sample_moment t = \<lparr> sys = t, mono = t, draw = of_nat, faults = \<lambda>_. None \<rparr>"

lemma sample_queue_at [simp]: "queue_at sample_agent_env (sample_moment t) = sample_queue_env"
  by (simp add: queue_at_def sample_agent_env_def sample_moment_def sample_queue_env_def)

lemma sample_clock: "0 \<le> t \<Longrightarrow> t \<le> seconds 86400 \<Longrightarrow> ae_clock sample_agent_env (sys (sample_moment t))"
  by (simp add: sample_agent_env_def sample_moment_def)

definition sample_config :: agent_config where
  "sample_config = \<lparr> device_id = 7, device_id_generated = False, device_name = ''kids-pc'',
     heartbeat_interval = seconds 60, event_retry_interval = seconds 5,
     controller_url = Some ''http://10.0.0.5:8080'', discovery_enabled = True, discovery_port = 45888,
     discovery_timeout = seconds 5, ntp_enabled = False, ntp_servers = [] \<rparr>"

text \<open>A controller that registers any device, with the given schedule, and refuses everything else.\<close>

definition sample_controller_net :: "schedule option \<Rightarrow> client_env" where
  "sample_controller_net sc =
     \<lparr> uuid_to_string = uuid_to_string sample_text_env, uuid_parse_str = uuid_parse_str sample_text_env,
       to_rfc3339 = to_rfc3339 sample_text_env, parse_rfc3339 = parse_rfc3339 sample_text_env,
       send_request = (\<lambda>_. Inr \<lparr> rs_status = 200, rs_body = Some [] \<rparr>),
       enc_register = (\<lambda>_. []),
       dec_register = (\<lambda>_. Some \<lparr> rr_device_id = 7, rr_controller_id = 1, rr_registered_at = 0,
         rr_heartbeat_interval_seconds = 60, rr_accepted = True, rr_schedule = sc \<rparr>),
       enc_heartbeat = (\<lambda>_. []), dec_heartbeat = (\<lambda>_. None), dec_schedule = (\<lambda>_. None),
       dec_messages = (\<lambda>_. None), enc_submission = (\<lambda>_. []), dec_submission = (\<lambda>_. None),
       dec_system_info = (\<lambda>_. None) \<rparr>"

definition sample_boot :: system where
  "sample_boot = boot sample_agent_env (sample_moment 0) empty_fs sample_config sample_path queue_init new_recorder"

lemma register_keeps_clock:
  "ag_clock (fst (fst (register_agent E c [(m, H)] af))) = ag_clock (fst af)"
  by (cases af) (simp add: Let_def apply_schedule_def request_flush_def mark_schedule_synced_def split: sum.split prod.split)

lemma enforcement_start_due:
  assumes "ag_schedule a = Some sc" "confirmed (ag_sync a) \<and> is_ready (ag_clock a) \<or> mono m - since (ag_sync a) \<ge> seconds 90"
    "active_window sc (agent_now m a) \<noteq> None" "action sc = Shutdown \<Longrightarrow> (\<And>t. lr = Some t \<Longrightarrow> mono m - t \<ge> SHUTDOWN_COOLDOWN)"
  shows "\<exists>a' lr'. enforcement_start E m (a, lr) = ((a', lr'), Some (action sc), ENFORCEMENT_MAX_WAIT)"
proof -
  have view: "enforcement_view m SCHEDULE_SYNC_GRACE a = (Some sc, None)"
    using assms by (auto simp: enforcement_view_def enforcement_ready_def SCHEDULE_SYNC_GRACE_def Let_def)
  obtain a' lr' act' where req: "request_action E m sc (a, lr) = ((a', lr'), act')" by (metis prod.exhaust)
  from request_action_acts(1) [OF req] assms(4) have "act' = Some (action sc)"
    by (cases "action sc"; cases lr) (simp_all add: not_less)
  then show ?thesis using view req assms(3) by (auto simp: enforcement_start_def enforcement_look_def Let_def)
qed

lemma enforcement_turn_action:
  "en_action (enforcement_turn E m m' outcome st) = fst (snd (enforcement_start E m st))"
  "en_wait (enforcement_turn E m m' outcome st) = snd (snd (enforcement_start E m st))"
  by (simp_all add: enforcement_turn_def split: prod.split)

lemma sample_boot_sel:
  "sy_phase sample_boot = Resolving" "ag_config (sy_agent sample_boot) = sample_config"
  "ag_clock (sy_agent sample_boot) = clock_new False" "sy_planned sample_boot = None"
  "sy_acting sample_boot = None" "sy_last_request sample_boot = None"
  by (simp_all add: sample_boot_def boot_def agent_new_def Let_def sample_config_def)

lemma sample_registers:
  "\<exists>s. sys_run sample_agent_env sample_recorder_env sample_boot [Confirmed (Some sample_schedule)] s \<and>
     sy_phase s = Running \<and> sy_client s \<noteq> None \<and> sy_planned s = None \<and> sy_acting s = None \<and> sy_last_request s = None \<and>
     ag_clock (sy_agent s) = clock_new False \<and> ag_schedule (sy_agent s) = Some sample_schedule \<and>
     confirmed (ag_sync (sy_agent s))"
proof -
  let ?m = "sample_moment 0" and ?io = "\<lparr> dio_parse = \<lambda>_. None, dio_interfaces = Inr [], dio_bind_error = None,
    dio_request_id = 0, dio_events = [] \<rparr>" and ?H = "sample_controller_net (Some sample_schedule)"
  let ?url = "''http://10.0.0.5:8080''" and ?E = sample_agent_env
  let ?s1 = "(with_agent sample_boot (sy_agent sample_boot, sy_fs sample_boot))
     \<lparr>sy_phase := (case Some ?url of Some u \<Rightarrow> Registering (client_new u) | None \<Rightarrow> Resolving)\<rparr>"
  have "sys_step ?E sample_recorder_env sample_boot [] ?s1"
    by (rule discovery [of _ _ ?m ?io]) (simp_all add: sample_boot_sel sample_clock seconds_def, simp add: sample_config_def)
  then have run1: "sys_run ?E sample_recorder_env sample_boot [] ?s1"
    using sys_run.step [OF sys_run.start] by force
  let ?c = "client_new ?url"
  obtain af u where reg: "register_agent ?E ?c [(?m, ?H)] (sy_agent ?s1, sy_fs ?s1) = (af, Some u)"
    by (simp add: client_register_def call_def parse_response_def is_success_def sample_controller_net_def
        split_def Let_def)
  have response: "client_register ?H ?c (build_register_request ?E ?m (sy_agent ?s1)) =
      Inr \<lparr> rr_device_id = 7, rr_controller_id = 1, rr_registered_at = 0,
         rr_heartbeat_interval_seconds = 60, rr_accepted = True, rr_schedule = Some sample_schedule \<rparr>"
    by (simp add: client_register_def call_def parse_response_def is_success_def sample_controller_net_def)
  let ?s2 = "(with_agent ?s1 af)\<lparr>sy_phase := Running, sy_client := Some (?c, u)\<rparr>"
  from registration [OF _ response reg] have "sys_step ?E sample_recorder_env ?s1 [Confirmed (Some sample_schedule)] ?s2"
    by (simp add: sample_clock seconds_def)
  from sys_run.step [OF run1 this]
  have "sys_run ?E sample_recorder_env sample_boot [Confirmed (Some sample_schedule)] ?s2" by simp
  moreover have "ag_clock (fst af) = clock_new False"
    using register_keeps_clock [of ?E ?c ?m ?H "(sy_agent ?s1, sy_fs ?s1)"] reg by (simp add: sample_boot_sel)
  moreover note register_once [OF response reg]
  ultimately show ?thesis by (intro exI [of _ ?s2]) (simp add: sample_boot_sel)
qed

text \<open>It registers, is shut down a minute later and, still running, again after the cooldown.\<close>

abbreviation "sample_shutdown t \<equiv> Acted Shutdown t t True"

definition sample_ready :: "nanos option \<Rightarrow> system \<Rightarrow> bool" where
  "sample_ready lr s \<longleftrightarrow> sy_client s \<noteq> None \<and> sy_planned s = None \<and> sy_acting s = None \<and> sy_last_request s = lr \<and>
     ag_clock (sy_agent s) = clock_new False \<and> ag_schedule (sy_agent s) = Some sample_schedule \<and>
     confirmed (ag_sync (sy_agent s))"

lemma sample_shuts_down:
  assumes run: "sys_run sample_agent_env sample_recorder_env sample_boot os s" and ready: "sample_ready lr s"
    and t: "0 \<le> t" "t < seconds 3600" "\<And>u. lr = Some u \<Longrightarrow> t - u \<ge> SHUTDOWN_COOLDOWN"
  shows "\<exists>s'. sys_run sample_agent_env sample_recorder_env sample_boot (sample_shutdown t # os) s' \<and>
    sample_ready (Some t) s'"
proof -
  let ?E = sample_agent_env and ?R = sample_recorder_env and ?m = "sample_moment t" and ?a = "sy_agent s"
  have now: "agent_now ?m ?a = t" "is_ready (ag_clock ?a)"
    using ready by (simp_all add: sample_ready_def agent_now_def trusted_now_def is_ready_def clock_new_def
        sample_moment_def millis_def)
  have "active_window sample_schedule t \<noteq> None"
    using t by (simp add: active_window_def sample_schedule_def in_window_def)
  then have "\<exists>a' lr'. enforcement_start ?E ?m (?a, sy_last_request s) = ((a', lr'), Some (action sample_schedule), ENFORCEMENT_MAX_WAIT)"
    using ready now t(3) by (intro enforcement_start_due) (auto simp: sample_ready_def sample_moment_def)
  then obtain a' lr' where act: "enforcement_start ?E ?m (?a, sy_last_request s) = ((a', lr'), Some Shutdown, ENFORCEMENT_MAX_WAIT)"
    by (auto simp: sample_schedule_def)
  let ?s = "s\<lparr>sy_agent := a', sy_last_request := lr', sy_acting := Some (Shutdown, ENFORCEMENT_MAX_WAIT), sy_planned := None\<rparr>"
  let ?s1 = "?s\<lparr>sy_agent := enforcement_return ?E ?m PowerDone Shutdown a', sy_acting := None, sy_planned := Some (t + ENFORCEMENT_MAX_WAIT)\<rparr>"
  let ?m' = "sample_moment (t + ENFORCEMENT_MAX_WAIT)"
  let ?s2 = "?s1\<lparr>sy_agent := enforcement_wake_turn ?m' TimerElapsed (t + ENFORCEMENT_MAX_WAIT) (sy_agent ?s1), sy_planned := None\<rparr>"
  have clock: "ae_clock ?E (sys ?m)" "ae_clock ?E (sys ?m')"
    using t(1,2) by (auto intro!: sample_clock simp: seconds_def ENFORCEMENT_MAX_WAIT_def)
  have "sys_step ?E ?R s [sample_shutdown t] ?s"
    using enforcement [OF _ _ _ act clock(1), of ?R] now ready by (simp add: sample_ready_def sample_moment_def)
  note run = sys_run.step [OF run this]
  have "sys_step ?E ?R ?s [] ?s1"
    using enforcement_done [of ?s Shutdown ENFORCEMENT_MAX_WAIT, OF _ clock(1), of ?R PowerDone] by (simp add: sample_moment_def)
  note run = sys_run.step [OF run this]
  have "sys_step ?E ?R ?s1 [] ?s2"
    using enforcement_wake [of ?s1 "t + ENFORCEMENT_MAX_WAIT" TimerElapsed, OF _ _ clock(2), of ?R]
    by (simp add: sample_moment_def SLEEP_DETECT_SLACK_def seconds_def)
  from sys_run.step [OF run this]
  have "sys_run ?E ?R sample_boot (sample_shutdown t # os) ?s2" by simp
  moreover have "sample_ready (Some t) ?s2"
    using ready enforcement_start_acts(3) [OF act] enforcement_start_keeps [OF act]
    by (simp add: sample_ready_def enforcement_wake_turn_def sample_moment_def SLEEP_DETECT_SLACK_def seconds_def Let_def)
  ultimately show ?thesis by blast
qed

lemma sample_system_run:
  "\<exists>s. sys_run sample_agent_env sample_recorder_env sample_boot
     [sample_shutdown (seconds 400), sample_shutdown (seconds 60), Confirmed (Some sample_schedule)] s"
proof -
  from sample_registers obtain s where
    "sys_run sample_agent_env sample_recorder_env sample_boot [Confirmed (Some sample_schedule)] s" "sample_ready None s"
    by (auto simp: sample_ready_def)
  from sample_shuts_down [OF this, of "seconds 60"] obtain s1 where
    "sys_run sample_agent_env sample_recorder_env sample_boot
       [sample_shutdown (seconds 60), Confirmed (Some sample_schedule)] s1" "sample_ready (Some (seconds 60)) s1"
    by (auto simp: seconds_def)
  from sample_shuts_down [OF this, of "seconds 400"] show ?thesis by (auto simp: seconds_def SHUTDOWN_COOLDOWN_def)
qed

section \<open>Properties\<close>

text \<open>
  Property C1. In every interleaving of the agent's tasks since it was started, every power action was asked for
  inside an off window, at the trusted time, of the schedule the controller confirmed last (of the cached one if it
  has not confirmed any), and the action is that schedule's. It was asked for only when the controller had confirmed a schedule
  since the agent was started or last resumed and the clock had been checked, or 90 seconds had
  passed since then.
\<close>

theorem power_actions_justified:
  assumes "sys_run E R (boot E m fs config toml q r) os s"
  shows "justified (mono m) (load_schedule (ae_schedule_codec E) fs (with_file_name toml ''schedule.json'')) os"
  using sys_run_justified [OF assms] by (simp add: enforcement_state_def boot_sel)

theorem power_actions_justified_witness:
  "\<exists>os s. sys_run sample_agent_env sample_recorder_env sample_boot os s \<and>
     os = [sample_shutdown (seconds 400), sample_shutdown (seconds 60), Confirmed (Some sample_schedule)] \<and>
     justified 0 None os"
proof -
  from sample_system_run obtain s where
    run: "sys_run sample_agent_env sample_recorder_env sample_boot
       [sample_shutdown (seconds 400), sample_shutdown (seconds 60), Confirmed (Some sample_schedule)] s"
    by blast
  have "load_schedule (ae_schedule_codec sample_agent_env) empty_fs (with_file_name sample_path ''schedule.json'') = None"
    by (simp add: load_schedule_def read_to_string_def empty_fs_def)
  with power_actions_justified [OF run [unfolded sample_boot_def]] run show ?thesis
    by (simp only: sample_moment_def moment.simps) blast
qed

text \<open>
  Property C21. In every interleaving, two shutdown requests are at least five minutes apart, however often the
  loop wakes up inside the off window.
\<close>

theorem shutdown_requests_spaced:
  assumes "sys_run E R (boot E m fs config toml q r) os s"
  shows "sorted_wrt (\<lambda>later earlier. later - earlier \<ge> seconds 300) (shutdown_times os)"
  using sys_run_request_state [OF assms] by (simp add: request_state_def boot_sel SHUTDOWN_COOLDOWN_def)

theorem shutdown_requests_spaced_witness:
  "\<exists>os s. sys_run sample_agent_env sample_recorder_env sample_boot os s \<and>
     shutdown_times os = [seconds 400, seconds 60] \<and> seconds 400 - seconds 60 \<ge> seconds 300"
proof -
  from sample_system_run obtain s where
    run: "sys_run sample_agent_env sample_recorder_env sample_boot
       [sample_shutdown (seconds 400), sample_shutdown (seconds 60), Confirmed (Some sample_schedule)] s"
    by blast
  from shutdown_requests_spaced [OF run [unfolded sample_boot_def]]
  have "seconds 400 - seconds 60 \<ge> seconds 300" by simp
  with run show ?thesis by fastforce
qed

text \<open>
  Property C22. A schedule is never enforced before the first registration has succeeded, in every interleaving: each
  power action was preceded by a schedule the controller confirmed in this run. So a device that is
  restarted while the controller cannot be reached does not enforce its cached schedule at all, however long it waits:
  \<^verbatim>\<open>run_blocking\<close> starts the enforcement loop only after \<^verbatim>\<open>register\<close> returns.
\<close>

theorem no_enforcement_before_registration:
  assumes "sys_run E R (boot E m fs config toml q r) (later @ Acted act t now ready # earlier) s"
  shows "\<exists>sc. Confirmed sc \<in> set earlier"
  using sys_run_confirmed_first [OF assms] confirmed_first_action by (simp add: boot_sel) blast

theorem no_enforcement_before_registration_witness:
  "\<exists>later earlier s. sys_run sample_agent_env sample_recorder_env sample_boot
       (later @ sample_shutdown (seconds 60) # earlier) s \<and> (\<exists>sc. Confirmed sc \<in> set earlier)"
proof -
  from sample_system_run obtain s where
    run: "sys_run sample_agent_env sample_recorder_env sample_boot
       ([sample_shutdown (seconds 400)] @ sample_shutdown (seconds 60) # [Confirmed (Some sample_schedule)]) s"
    by auto
  from no_enforcement_before_registration [OF run [unfolded sample_boot_def]] run show ?thesis by blast
qed

end
