(* ===== verification/Persistence.thy ===== *)
theory Persistence
  imports System
begin

text \<open>
  The agent's files over a whole run: as long as the disk does what it is asked, the cache files hold the
  schedule and the messages the agent has in memory after every step, so the next start continues with
  them. \<open>cache_view\<close> is the part of the agent this depends on; most operations keep it.
\<close>

section \<open>A disk without faults\<close>

definition faultless :: "filesystem \<Rightarrow> bool" where
  "faultless fs \<longleftrightarrow>
     (\<forall>p. read_fault fs p = None \<and> write_result fs p = WriteOk \<and> rename_fault fs p = None \<and> remove_fault fs p = None)"

definition disk_reliable :: "agent_env \<Rightarrow> bool" where
  "disk_reliable E \<longleftrightarrow> (\<forall>fs. ae_disk E fs \<longrightarrow> faultless fs)"

lemma faultless_files [simp]: "faultless (fs\<lparr>files := g\<rparr>) = faultless fs"
  by (simp add: faultless_def)

lemma read_faultless:
  "faultless fs \<Longrightarrow> read_to_string fs p = (case files fs p of None \<Rightarrow> Inl NotFound | Some t \<Rightarrow> Inr t)"
  by (simp add: read_to_string_def faultless_def)

lemma write_via_temp_faultless:
  assumes "faultless fs" "json_file p"
  shows "write_via_temp fs p bytes =
    (fs\<lparr>files := (files fs)(p := Some bytes, with_extension p ''json.tmp'' := None)\<rparr>, Inr ())"
  using assms temp_path_differs [OF assms(2)]
  by (auto simp: write_via_temp_def fs_write_def fs_rename_def faultless_def Let_def fun_upd_twist)

lemma save_schedule_faultless:
  assumes "faultless fs" "json_file p"
  shows "\<exists>g. fst (save_schedule C fs p sched) = fs\<lparr>files := g\<rparr> \<and>
      (\<forall>q. q \<noteq> p \<and> q \<noteq> with_extension p ''json.tmp'' \<longrightarrow> g q = files fs q)"
    "codec_ok C \<Longrightarrow> load_schedule C (fst (save_schedule C fs p sched)) p = sched"
proof -
  have removed: "fst (save_schedule C fs p None) = fs\<lparr>files := (files fs)(p := None)\<rparr>"
    using assms(1) by (auto simp: save_schedule_def fs_remove_file_def faultless_def fun_upd_idem split: option.split)
  have written: "fst (save_schedule C fs p (Some s)) =
      fs\<lparr>files := (files fs)(p := Some (to_text C s), with_extension p ''json.tmp'' := None)\<rparr>" for s
    using write_via_temp_faultless [OF assms] by (simp add: save_schedule_def)
  show "\<exists>g. fst (save_schedule C fs p sched) = fs\<lparr>files := g\<rparr> \<and>
      (\<forall>q. q \<noteq> p \<and> q \<noteq> with_extension p ''json.tmp'' \<longrightarrow> g q = files fs q)"
    by (cases sched) (force simp: removed written)+
  show "codec_ok C \<Longrightarrow> load_schedule C (fst (save_schedule C fs p sched)) p = sched"
    using assms(1) temp_path_differs [OF assms(2)]
    by (cases sched) (auto simp: removed written load_schedule_def read_to_string_def faultless_def codec_simps)
qed

lemma save_messages_faultless:
  assumes "faultless fs" "json_file p"
  shows "\<exists>g. fst (save_messages C fs p s) = fs\<lparr>files := g\<rparr> \<and>
      (\<forall>q. q \<noteq> p \<and> q \<noteq> with_extension p ''json.tmp'' \<longrightarrow> g q = files fs q)"
    "codec_ok C \<Longrightarrow> load_messages C (fst (save_messages C fs p s)) p = s"
  using assms(1) temp_path_differs [OF assms(2)]
  by (auto simp: save_messages_def write_via_temp_faultless [OF assms] load_messages_def read_to_string_def
      faultless_def codec_simps)

lemma persist_url_faultless:
  assumes "faultless fs"
  shows "\<exists>g. fst (persist_controller_url C fs p url) = fs\<lparr>files := g\<rparr> \<and> (\<forall>q. q \<noteq> p \<longrightarrow> g q = files fs q)"
proof -
  have kept: "\<exists>g. fs = fs\<lparr>files := g\<rparr> \<and> (\<forall>q. q \<noteq> p \<longrightarrow> g q = files fs q)"
    by (rule exI [of _ "files fs"]) simp
  have saved: "\<exists>g. fst (save_file C fs p conf) = fs\<lparr>files := g\<rparr> \<and> (\<forall>q. q \<noteq> p \<longrightarrow> g q = files fs q)" for conf
    using assms kept by (cases "if p = [] then None else mkdir_fault fs (butlast p)")
      (auto simp: save_file_def fs_write_def faultless_def)
  show ?thesis
    by (cases "load_file C fs p") (simp_all add: persist_controller_url_def kept saved)
qed

text \<open>What a cache loads depends on its own file only.\<close>

lemma load_other:
  "g p = files fs p \<Longrightarrow> load_schedule C (fs\<lparr>files := g\<rparr>) p = load_schedule C fs p"
  "g p = files fs p \<Longrightarrow> load_messages D (fs\<lparr>files := g\<rparr>) p = load_messages D fs p"
proof -
  have read: "read_to_string (fs\<lparr>files := g\<rparr>) p = read_to_string fs p" if "g p = files fs p"
    using that by (simp add: read_to_string_def cong: option.case_cong)
  show "g p = files fs p \<Longrightarrow> load_schedule C (fs\<lparr>files := g\<rparr>) p = load_schedule C fs p"
    "g p = files fs p \<Longrightarrow> load_messages D (fs\<lparr>files := g\<rparr>) p = load_messages D fs p"
    using schedule_cache.load_read message_cache.load_read read by blast+
qed

section \<open>The agent's files\<close>

abbreviation schedule_json :: "path \<Rightarrow> path" where "schedule_json d \<equiv> d @ [''schedule.json'']"
abbreviation messages_json :: "path \<Rightarrow> path" where "messages_json d \<equiv> d @ [''messages.json'']"
abbreviation agent_toml :: "path \<Rightarrow> path" where "agent_toml d \<equiv> d @ [''agent.toml'']"

lemma json_files: "json_file (schedule_json d)" "json_file (messages_json d)"
  by (auto simp: json_file_def intro: exI [of _ "''schedule''"] exI [of _ "''messages''"])

lemma temp_files:
  "with_extension (schedule_json d) ''json.tmp'' = d @ [''schedule.json.tmp'']"
  "with_extension (messages_json d) ''json.tmp'' = d @ [''messages.json.tmp'']"
  by (simp_all add: temp_path_json json_files)

definition cache_view :: "agent \<Rightarrow> path \<times> path \<times> path \<times> schedule option \<times> message_store" where
  "cache_view a = (ag_toml_path a, ag_schedule_path a, ag_messages_path a, ag_schedule a, ag_messages a)"

definition caches_hold :: "agent_env \<Rightarrow> path \<Rightarrow> agent \<Rightarrow> filesystem \<Rightarrow> bool" where
  "caches_hold E d a fs \<longleftrightarrow>
     faultless fs \<and>
     cache_view a = (agent_toml d, schedule_json d, messages_json d,
       load_schedule (ae_schedule_codec E) fs (schedule_json d), load_messages (ae_message_codec E) fs (messages_json d))"

lemma caches_hold_cong: "cache_view a = cache_view a' \<Longrightarrow> caches_hold E d a fs = caches_hold E d a' fs"
  by (simp add: caches_hold_def)

section \<open>What keeps them\<close>

lemma cache_view_agent_enqueue [simp]: "cache_view (agent_enqueue E m e a) = cache_view a"
  by (simp add: cache_view_def agent_enqueue_def)

lemma cache_view_updates [simp]:
  "cache_view (a\<lparr>ag_queue := q\<rparr>) = cache_view a" "cache_view (a\<lparr>ag_snapshot := sn\<rparr>) = cache_view a"
  "cache_view (a\<lparr>ag_connected := b\<rparr>) = cache_view a" "cache_view (a\<lparr>ag_flush := b\<rparr>) = cache_view a"
  "cache_view (a\<lparr>ag_stopping := b\<rparr>) = cache_view a" "cache_view (a\<lparr>ag_schedule_changed := b\<rparr>) = cache_view a"
  "cache_view (a\<lparr>ag_sync := y\<rparr>) = cache_view a" "cache_view (a\<lparr>ag_clock := c\<rparr>) = cache_view a"
  "cache_view (a\<lparr>ag_clock_resync := b\<rparr>) = cache_view a"
  by (simp_all add: cache_view_def)

lemma cache_view_delivery_wake [simp]: "cache_view (delivery_wake_turn w a) = cache_view a"
  by (simp add: delivery_wake_turn_def split: delivery_wake.split)

lemma cache_view_operations [simp]:
  "cache_view (request_flush a) = cache_view a" "cache_view (mark_schedule_synced a) = cache_view a"
  "cache_view (invalidate_schedule_sync m a) = cache_view a" "cache_view (begin_shutdown a) = cache_view a"
  "cache_view (note_connected E m url a) = cache_view a" "cache_view (note_disconnected E m url a) = cache_view a"
  "cache_view (report_outcome E m act out a) = cache_view a"
  "cache_view (enforcement_wake_turn m w planned a) = cache_view a"
  "cache_view (finish_delivery E m H ch ps a) = cache_view a"
  "cache_view (stop_turn E m b a) = cache_view a"
  by (simp_all add: request_flush_def mark_schedule_synced_def invalidate_schedule_sync_def begin_shutdown_def
      note_connected_def note_disconnected_def report_outcome_def enforcement_wake_turn_def finish_delivery_def
      stop_turn_def Let_def split: power_outcome.split enforcement_wake.split sum.split)

lemma cache_view_enforcement:
  "enforcement_start E m (a, lr) = ((a', lr'), act, wait) \<Longrightarrow> cache_view a' = cache_view a"
  "cache_view (enforcement_return E m' outcome k a) = cache_view a"
  by (auto simp: enforcement_start_def request_action_def Let_def split: option.splits prod.splits power_action.splits if_splits)
    (cases k; simp add: enforcement_return_def finish_action_def Let_def)

lemma cache_view_clock:
  "clock_measure_turn m m' N (cl, a) = (cl', a') \<Longrightarrow> cache_view a' = cache_view a"
  "clock_wake_turn m w (cl, a) = (cl', a') \<Longrightarrow> cache_view a' = cache_view a"
  by (auto simp: clock_measure_turn_def clock_wake_turn_def Let_def
      split: if_splits option.splits clock_wake.splits)

lemma cache_view_notify [simp]: "cache_view (sy_agent (notify_turn R c ev u s)) = cache_view (sy_agent s)"
  "sy_fs (notify_turn R c ev u s) = sy_fs s"
  by (simp_all add: notify_turn_def Let_def)

section \<open>What writes them\<close>

lemma apply_schedule_holds:
  assumes "caches_hold E d a fs" "codec_ok (ae_schedule_codec E)"
  shows "caches_hold E d (fst (apply_schedule E sc (a, fs))) (snd (apply_schedule E sc (a, fs)))"
proof (cases "ag_schedule a = sc")
  case False
  let ?C = "ae_schedule_codec E" and ?p = "schedule_json d"
  from assms(1) have fs: "faultless fs" and paths: "ag_schedule_path a = ?p"
    by (auto simp: caches_hold_def cache_view_def)
  from save_schedule_faultless(1) [OF fs json_files(1), of ?C d sc] obtain g where
    g: "fst (save_schedule ?C fs ?p sc) = fs\<lparr>files := g\<rparr>" "g (messages_json d) = files fs (messages_json d)"
    by (auto simp: temp_files)
  with False assms paths fs save_schedule_faultless(2) [OF fs json_files(1), of ?C d sc]
  show ?thesis by (auto simp: apply_schedule_def caches_hold_def cache_view_def load_other)
qed (use assms in \<open>simp add: apply_schedule_def\<close>)

lemma apply_messages_holds:
  assumes "caches_hold E d a fs" "codec_ok (ae_message_codec E)"
  shows "caches_hold E d (fst (apply_messages E m ms (a, fs))) (snd (apply_messages E m ms (a, fs)))"
proof -
  let ?C = "ae_message_codec E" and ?p = "messages_json d"
  obtain s changed where ap: "store_apply (ag_messages a) ms (agent_now m a) = (s, changed)" by fastforce
  from assms(1) have fs: "faultless fs" and paths: "ag_messages_path a = ?p"
    by (auto simp: caches_hold_def cache_view_def)
  show ?thesis
  proof (cases changed)
    case True
    from save_messages_faultless(1) [OF fs json_files(2), of ?C d s] obtain g where
      g: "fst (save_messages ?C fs ?p s) = fs\<lparr>files := g\<rparr>" "g (schedule_json d) = files fs (schedule_json d)"
      by (auto simp: temp_files)
    with True assms ap paths fs save_messages_faultless(2) [OF fs json_files(2), of ?C d s]
    show ?thesis by (auto simp: apply_messages_def caches_hold_def cache_view_def load_other)
  next
    case False
    with ap have "s = ag_messages a" by (auto simp: store_apply_def Let_def)
    with False ap assms show ?thesis by (simp add: apply_messages_def caches_hold_def cache_view_def)
  qed
qed

lemma persist_url_holds:
  assumes "caches_hold E d a fs"
  shows "caches_hold E d a (fst (persist_controller_url C fs (agent_toml d) url))"
proof -
  from persist_url_faultless [of fs C "agent_toml d" url] assms obtain g where
    "fst (persist_controller_url C fs (agent_toml d) url) = fs\<lparr>files := g\<rparr>"
    "\<And>q. q \<noteq> agent_toml d \<Longrightarrow> g q = files fs q"
    by (auto simp: caches_hold_def)
  with assms show ?thesis by (simp add: caches_hold_def load_other)
qed

section \<open>Runs\<close>

definition codecs_ok :: "agent_env \<Rightarrow> bool" where
  "codecs_ok E \<longleftrightarrow> codec_ok (ae_schedule_codec E) \<and> codec_ok (ae_message_codec E)"

lemma synced_after_apply:
  assumes "caches_hold E d a fs" "codecs_ok E" "cache_view a' = cache_view (fst (apply_schedule E sc (a, fs)))"
    "fs' = snd (apply_schedule E sc (a, fs))"
  shows "caches_hold E d a' fs'"
  using apply_schedule_holds [of E d a fs sc] assms caches_hold_cong [OF assms(3)] by (simp add: codecs_ok_def)

text \<open>What a turn does to the caches, seen from outside: nothing, or it applies a schedule.\<close>

lemma resolve_shape:
  assumes "resolve_controller_url E force [(m, io)] (a, fs) = (af, url)"
  shows "cache_view (fst af) = cache_view a"
    "snd af = fs \<or> (\<exists>u. snd af = fst (persist_controller_url (ae_config_codec E) fs (ag_toml_path a) u))"
  using assms by (auto simp: Let_def split: option.splits sum.splits if_splits)

lemma register_shape:
  assumes "register_agent E c [(m, H)] (a, fs) = (af, u)"
  shows "client_register H c (build_register_request E m a) = Inl err \<Longrightarrow> cache_view (fst af) = cache_view a \<and> snd af = fs"
    "client_register H c (build_register_request E m a) = Inr response \<Longrightarrow>
      \<exists>a1. cache_view a1 = cache_view a \<and> cache_view (fst af) = cache_view (fst (apply_schedule E (rr_schedule response) (a1, fs))) \<and>
        snd af = snd (apply_schedule E (rr_schedule response) (a1, fs))"
proof -
  let ?a = "\<lambda>response. (agent_enqueue E m (registration_succeeded (uuid_text E) (draw m 0) (sys m) (rr_device_id response)) a)
    \<lparr>ag_connected := True\<rparr>"
  show "client_register H c (build_register_request E m a) = Inl err \<Longrightarrow> cache_view (fst af) = cache_view a \<and> snd af = fs"
    using assms by auto
  show "client_register H c (build_register_request E m a) = Inr response \<Longrightarrow>
      \<exists>a1. cache_view a1 = cache_view a \<and> cache_view (fst af) = cache_view (fst (apply_schedule E (rr_schedule response) (a1, fs))) \<and>
        snd af = snd (apply_schedule E (rr_schedule response) (a1, fs))"
    by (rule exI [of _ "?a response"]) (use assms in \<open>auto simp: Let_def split: prod.splits\<close>)
qed

lemma heartbeat_shape:
  assumes "heartbeat_turn E m H [] ch (a, fs) = (af, ch')"
  shows "client_heartbeat H (fst ch) (snd ch) (build_heartbeat_request E m ch a) = Inl err \<Longrightarrow>
      cache_view (fst af) = cache_view a \<and> snd af = fs"
    "client_heartbeat H (fst ch) (snd ch) (build_heartbeat_request E m ch a) = Inr response \<Longrightarrow>
      \<exists>a1. cache_view a1 = cache_view a \<and> cache_view (fst af) = cache_view (fst (apply_schedule E (hr_schedule response) (a1, fs))) \<and>
        snd af = snd (apply_schedule E (hr_schedule response) (a1, fs))"
proof -
  show "client_heartbeat H (fst ch) (snd ch) (build_heartbeat_request E m ch a) = Inl err \<Longrightarrow>
      cache_view (fst af) = cache_view a \<and> snd af = fs"
    using assms by (auto simp: heartbeat_turn_def split: if_splits)
  show "client_heartbeat H (fst ch) (snd ch) (build_heartbeat_request E m ch a) = Inr response \<Longrightarrow>
      \<exists>a1. cache_view a1 = cache_view a \<and> cache_view (fst af) = cache_view (fst (apply_schedule E (hr_schedule response) (a1, fs))) \<and>
        snd af = snd (apply_schedule E (hr_schedule response) (a1, fs))"
    by (rule exI [of _ "note_connected E m (base_url (fst ch)) a"])
      (use assms in \<open>auto simp: heartbeat_turn_def Let_def split: prod.splits\<close>)
qed

lemma resolve_holds:
  assumes "resolve_controller_url E force [(m, io)] (a, fs) = (af, url)" "caches_hold E d a fs"
  shows "caches_hold E d (fst af) (snd af)"
proof -
  have toml: "ag_toml_path a = agent_toml d" using assms(2) by (simp add: caches_hold_def cache_view_def)
  show ?thesis
    using resolve_shape [OF assms(1)] assms(2) persist_url_holds [OF assms(2)] caches_hold_cong [OF resolve_shape(1) [OF assms(1)]]
    by (auto simp: toml)
qed

lemma applied_holds:
  assumes "caches_hold E d a fs" "codecs_ok E"
    "\<exists>a1. cache_view a1 = cache_view a \<and> cache_view (fst af) = cache_view (fst (apply_schedule E sc (a1, fs))) \<and>
        snd af = snd (apply_schedule E sc (a1, fs))"
  shows "caches_hold E d (fst af) (snd af)"
  using assms synced_after_apply caches_hold_cong by metis

lemma register_holds:
  assumes "register_agent E c [(m, H)] (a, fs) = (af, u)" "caches_hold E d a fs" "codecs_ok E"
  shows "caches_hold E d (fst af) (snd af)"
  using register_shape [OF assms(1)] applied_holds [OF assms(2,3)] caches_hold_cong [of "fst af" a] assms(2)
  by (cases "client_register H c (build_register_request E m a)") auto

lemma heartbeat_holds:
  assumes "heartbeat_turn E m H [] ch (a, fs) = (af, ch')" "caches_hold E d a fs" "codecs_ok E"
  shows "caches_hold E d (fst af) (snd af)"
  using heartbeat_shape [OF assms(1)] applied_holds [OF assms(2,3)] caches_hold_cong [of "fst af" a] assms(2)
  by (cases "client_heartbeat H (fst ch) (snd ch) (build_heartbeat_request E m ch a)") auto

lemma polls_hold:
  assumes "caches_hold E d a fs" "codecs_ok E"
  shows "caches_hold E d (fst (schedule_poll_turn E H ch (a, fs))) (snd (schedule_poll_turn E H ch (a, fs)))"
    "caches_hold E d (fst (message_poll_turn E m H ch (a, fs))) (snd (message_poll_turn E m H ch (a, fs)))"
proof -
  show "caches_hold E d (fst (schedule_poll_turn E H ch (a, fs))) (snd (schedule_poll_turn E H ch (a, fs)))"
  proof (cases "poll_schedule H (client_new (base_url (fst ch))) (snd ch) (schedule_revision a) SCHEDULE_POLL_WAIT_SECS")
    case (Inr sc)
    then show ?thesis
      by (intro synced_after_apply [OF assms, of _ sc]) (simp_all add: schedule_poll_turn_def split_def Let_def)
  qed (use assms in \<open>simp add: schedule_poll_turn_def\<close>)
  show "caches_hold E d (fst (message_poll_turn E m H ch (a, fs))) (snd (message_poll_turn E m H ch (a, fs)))"
    using assms apply_messages_holds [OF assms(1)]
    by (simp add: message_poll_turn_def codecs_ok_def split: sum.split)
qed

lemma sys_step_caches_hold:
  "sys_step E R s new s' \<Longrightarrow> codecs_ok E \<Longrightarrow> disk_reliable E \<Longrightarrow> caches_hold E d (sy_agent s) (sy_fs s) \<Longrightarrow>
   caches_hold E d (sy_agent s') (sy_fs s')"
proof (induction rule: sys_step.induct)
  case (discovery s m io af url)
  then show ?case using resolve_holds [OF discovery(2)] by simp
next
  case (registration s c H m response af u)
  then show ?case using register_holds [OF registration(3)] by simp
next
  case (registration_failure s c H m err af)
  then show ?case using register_holds [OF registration_failure(3)] by simp
next
  case (heartbeat s ch H m response af ch')
  then show ?case using heartbeat_holds [OF heartbeat(4)] by simp
next
  case (heartbeat_failure s ch H m err af ch')
  then show ?case using heartbeat_holds [OF heartbeat_failure(4)] by simp
next
  case (clock_measure s m m' N cl a)
  then show ?case using caches_hold_cong [OF cache_view_clock(1) [OF clock_measure(2)]] by simp
next
  case (clock_wake s w m cl a)
  then show ?case using caches_hold_cong [OF cache_view_clock(2) [OF clock_wake(3)]] by simp
next
  case (enforcement s m a last' act wait m')
  then show ?case using caches_hold_cong [OF cache_view_enforcement(1) [OF enforcement(4)]] by simp
next
  case (enforcement_done s k wait m' outcome)
  then show ?case using caches_hold_cong [OF cache_view_enforcement(2)] by simp
next
  case (schedule_poll s ch H sched)
  then show ?case by (simp add: polls_hold(1))
next
  case (message_poll s ch m H)
  then show ?case by (simp add: polls_hold(2))
next
  case (disk fs s)
  then have "faultless fs" by (simp add: disk_reliable_def)
  with disk show ?case
    by (simp add: caches_hold_def cache_view_def load_schedule_def load_messages_def read_faultless)
qed (simp_all add: caches_hold_def)

lemma sys_run_caches_hold:
  "sys_run E R s0 os s \<Longrightarrow> codecs_ok E \<Longrightarrow> disk_reliable E \<Longrightarrow> caches_hold E d (sy_agent s0) (sy_fs s0) \<Longrightarrow>
   caches_hold E d (sy_agent s) (sy_fs s)"
  by (induction rule: sys_run.induct) (auto intro: sys_step_caches_hold)

lemma boot_caches_hold:
  "faultless fs \<Longrightarrow>
   caches_hold E d (sy_agent (boot E m fs config (agent_toml d) q r)) (sy_fs (boot E m fs config (agent_toml d) q r))"
  by (simp add: boot_def caches_hold_def agent_new_def Let_def) (simp add: cache_view_def with_file_name_def)

section \<open>Property\<close>

text \<open>
  Whatever the interleaving, and wherever the run is cut off between two steps: on a disk without
  faults the agent started next has the schedule that the controller confirmed last (or the one
  the previous start had loaded), and exactly the messages and the message cursor of the one before. So no
  schedule is forgotten and no message is fetched twice or lost across a restart.
\<close>

theorem schedule_and_messages_survive_restart:
  assumes "sys_run E R (boot E m fs config (agent_toml d) q r) os s" "faultless fs" "disk_reliable E" "codecs_ok E"
    "next = agent_new E (sy_fs s) t config' (agent_toml d) q' snap"
  shows "ag_schedule next = known_schedule (load_schedule (ae_schedule_codec E) fs (schedule_json d)) os \<and>
    ag_schedule next = ag_schedule (sy_agent s) \<and>
    ag_messages next = ag_messages (sy_agent s) \<and> messages_cursor next = messages_cursor (sy_agent s)"
proof -
  from sys_run_caches_hold [OF assms(1,4,3) boot_caches_hold [OF assms(2)]]
  have "caches_hold E d (sy_agent s) (sy_fs s)" .
  moreover have "ag_schedule (sy_agent s) = known_schedule (load_schedule (ae_schedule_codec E) fs (schedule_json d)) os"
    using sys_run_justified [OF assms(1)] by (simp add: enforcement_state_def boot_sel with_file_name_def)
  ultimately show ?thesis
    by (simp add: assms(5) agent_new_def caches_hold_def cache_view_def messages_cursor_def with_file_name_def Let_def)
qed

theorem schedule_and_messages_survive_restart_witness:
  "\<exists>s. sys_run sample_agent_env sample_recorder_env sample_boot [Confirmed (Some sample_schedule)] s \<and>
     ag_schedule (agent_new sample_agent_env (sy_fs s) 0 sample_config sample_path queue_init default_snapshot)
       = Some sample_schedule"
proof -
  from sample_registers obtain s where
    run: "sys_run sample_agent_env sample_recorder_env sample_boot [Confirmed (Some sample_schedule)] s" by blast
  have "faultless empty_fs" by (simp add: faultless_def empty_fs_def)
  moreover have "disk_reliable sample_agent_env"
    unfolding disk_reliable_def sample_agent_env_def agent_env.simps
    by (metis faultless_files calculation)
  moreover have "codecs_ok sample_agent_env"
    by (simp add: codecs_ok_def sample_agent_env_def sample_schedule_codec_ok sample_message_codec_ok)
  moreover have "sample_path = agent_toml []" by (simp add: sample_path_def)
  ultimately show ?thesis
    using run schedule_and_messages_survive_restart [of sample_agent_env sample_recorder_env "sample_moment 0" empty_fs
        sample_config "[]" queue_init new_recorder "[Confirmed (Some sample_schedule)]" s _ 0 sample_config queue_init
        default_snapshot, OF _ _ _ _ refl]
    by (metis known_schedule.simps(2) sample_boot_def)
qed

end
