(* ===== verification/Disk_Faults.thy ===== *)
theory Disk_Faults
  imports Persistence
begin

text \<open>
  What the files hold when the disk misbehaves: any operation on a file may fail at any time, a write may stop half-way, and the process may be
  cut off while it writes. The schedule cache, which is replaced through a temporary file, then still holds a schedule that was
  confirmed; the configuration file, which is written in place, need not.
\<close>

section \<open>The schedule cache\<close>

text \<open>What reading the cache gives if reading does not fail.\<close>

definition stored_schedule :: "schedule codec \<Rightarrow> filesystem \<Rightarrow> path \<Rightarrow> schedule option" where
  "stored_schedule C fs p = Option.bind (files fs p) (from_text C)"

lemma load_schedule_stored: "load_schedule C fs p = None \<or> load_schedule C fs p = stored_schedule C fs p"
  by (auto simp: load_schedule_def stored_schedule_def read_to_string_def split: option.split)

lemma stored_schedule_cong: "files fs p = files fs' p \<Longrightarrow> stored_schedule C fs p = stored_schedule C fs' p"
  by (simp add: stored_schedule_def)

lemma fs_write_file: "x \<noteq> p \<Longrightarrow> files (fst (fs_write fs p bytes)) x = files fs x"
  by (simp add: fs_write_def split: write_outcome.split option.split)

lemma write_via_temp_file:
  assumes "json_file q" "x \<noteq> with_extension q ''json.tmp''"
  shows "x \<noteq> q \<Longrightarrow> files (fst (write_via_temp fs q bytes)) x = files fs x"
    "files (fst (write_via_temp fs q bytes)) q \<in> {files fs q, Some bytes}"
proof -
  let ?tmp = "with_extension q ''json.tmp''"
  note [simp] = temp_path_differs [OF assms(1)] temp_path_differs [OF assms(1), symmetric] assms(2)
  have w: "case fs_write fs ?tmp bytes of (fs', Inl _) \<Rightarrow> True | (fs', Inr _) \<Rightarrow> files fs' ?tmp = Some bytes"
    by (simp add: fs_write_def split: write_outcome.split option.split)
  show "x \<noteq> q \<Longrightarrow> files (fst (write_via_temp fs q bytes)) x = files fs x"
    using fs_write_file [of x ?tmp fs bytes]
    by (auto simp: write_via_temp_def Let_def fs_rename_def split: prod.split sum.split option.split)
  show "files (fst (write_via_temp fs q bytes)) q \<in> {files fs q, Some bytes}"
    using fs_write_file [of q ?tmp fs bytes] w
    by (auto simp: write_via_temp_def Let_def fs_rename_def split: prod.splits sum.splits option.splits)
qed

lemma save_schedule_stored:
  assumes "codec_ok C" "json_file p"
  shows "stored_schedule C (fst (save_schedule C fs p sc)) p \<in> {stored_schedule C fs p, sc}"
proof (cases sc)
  case None
  then show ?thesis
    by (auto simp: save_schedule_def fs_remove_file_def stored_schedule_def split: option.splits)
next
  case (Some s)
  have "p \<noteq> with_extension p ''json.tmp''" using temp_path_differs [OF assms(2)] by metis
  from write_via_temp_file(2) [OF assms(2) this, of fs "to_text C s"] Some assms(1) show ?thesis
    by (auto simp: save_schedule_def stored_schedule_def codec_simps)
qed

text \<open>The other files the agent writes are not the schedule cache.\<close>

lemma save_messages_other:
  "files (fst (save_messages C fs (messages_json d) ms)) (schedule_json d) = files fs (schedule_json d)"
  unfolding save_messages_def by (rule write_via_temp_file(1) [OF json_files(2)]) (simp_all add: temp_files)

lemma persist_url_other:
  "x \<noteq> p \<Longrightarrow> files (fst (persist_controller_url C fs p url)) x = files fs x"
  using fs_write_file [of x p fs]
  by (auto simp: persist_controller_url_def save_file_def split: sum.split option.split prod.split)
    (metis fst_conv)+

section \<open>Over a run\<close>

definition agent_paths :: "path \<Rightarrow> agent \<Rightarrow> bool" where
  "agent_paths d a \<longleftrightarrow> ag_toml_path a = agent_toml d \<and> ag_schedule_path a = schedule_json d \<and> ag_messages_path a = messages_json d"

lemma agent_paths_view:
  "agent_paths d a \<longleftrightarrow> (case cache_view a of (t, s, m, _) \<Rightarrow> t = agent_toml d \<and> s = schedule_json d \<and> m = messages_json d)"
  by (simp add: agent_paths_def cache_view_def)

lemma agent_paths_cong: "cache_view a = cache_view a' \<Longrightarrow> agent_paths d a = agent_paths d a'"
  by (simp only: agent_paths_view)

text \<open>All that a turn does to the files.\<close>

inductive file_change :: "agent_env \<Rightarrow> path \<Rightarrow> observation list \<Rightarrow> filesystem \<Rightarrow> filesystem \<Rightarrow> bool"
  for E :: agent_env and d :: path where
  untouched: "file_change E d new fs fs"
| disk_changed: "files fs' = files fs \<Longrightarrow> ae_disk E fs' \<Longrightarrow> file_change E d new fs fs'"
| url_saved: "file_change E d new fs (fst (persist_controller_url (ae_config_codec E) fs (agent_toml d) url))"
| schedule_saved: "file_change E d [Confirmed sc] fs (fst (save_schedule (ae_schedule_codec E) fs (schedule_json d) sc))"
| messages_saved: "file_change E d new fs (fst (save_messages (ae_message_codec E) fs (messages_json d) ms))"

lemma apply_schedule_files:
  assumes "agent_paths d a"
    "\<exists>a1. cache_view a1 = cache_view a \<and> cache_view a' = cache_view (fst (apply_schedule E sc (a1, fs))) \<and>
        fs' = snd (apply_schedule E sc (a1, fs))"
  shows "agent_paths d a' \<and> file_change E d [Confirmed sc] fs fs'"
proof -
  from assms(2) obtain a1 where a1: "cache_view a1 = cache_view a" "cache_view a' = cache_view (fst (apply_schedule E sc (a1, fs)))"
    "fs' = snd (apply_schedule E sc (a1, fs))" by blast
  from agent_paths_cong [OF a1(1)] assms(1) have paths: "agent_paths d a1" by simp
  then have "agent_paths d a'" unfolding agent_paths_cong [OF a1(2)] by (simp add: apply_schedule_def agent_paths_def)
  moreover have "file_change E d [Confirmed sc] fs fs'"
    using a1(3) paths by (auto simp: agent_paths_def apply_schedule_def intro: untouched schedule_saved)
  ultimately show ?thesis ..
qed

lemma message_poll_files:
  assumes "agent_paths d a"
  shows "agent_paths d (fst (message_poll_turn E m H ch (a, fs))) \<and>
    file_change E d new fs (snd (message_poll_turn E m H ch (a, fs)))"
  using assms
  by (auto simp: message_poll_turn_def apply_messages_def agent_paths_def intro: untouched messages_saved split: sum.split prod.split)

lemma resolve_files:
  assumes "resolve_controller_url E force [(m, io)] (a, fs) = (af, url)" "agent_paths d a"
  shows "agent_paths d (fst af) \<and> file_change E d new fs (snd af)"
proof
  show "agent_paths d (fst af)" using assms(2) by (simp only: agent_paths_cong [OF resolve_shape(1) [OF assms(1)]])
  have "ag_toml_path a = agent_toml d" using assms(2) by (simp add: agent_paths_def)
  with resolve_shape(2) [OF assms(1)] show "file_change E d new fs (snd af)"
    by (metis untouched url_saved)
qed

lemma sys_step_files:
  "sys_step E R s new s' \<Longrightarrow> agent_paths d (sy_agent s) \<Longrightarrow>
   agent_paths d (sy_agent s') \<and> file_change E d new (sy_fs s) (sy_fs s')"
proof (induction rule: sys_step.induct)
  case (discovery s m io af url)
  then show ?case using resolve_files [OF discovery(2)] by simp
next
  case (registration s c H m response af u)
  then show ?case using apply_schedule_files [OF _ register_shape(2) [OF registration(3,2)]] by simp
next
  case (registration_failure s c H m err af)
  then show ?case using register_shape(1) [OF registration_failure(3,2)] agent_paths_cong [of "fst af" "sy_agent s"]
    by (auto intro: untouched)
next
  case (heartbeat s ch H m response af ch')
  then show ?case using apply_schedule_files [OF _ heartbeat_shape(2) [OF heartbeat(4,3)]] by simp
next
  case (heartbeat_failure s ch H m err af ch')
  then show ?case using heartbeat_shape(1) [OF heartbeat_failure(4,3)] agent_paths_cong [of "fst af" "sy_agent s"]
    by (auto intro: untouched)
next
  case (schedule_poll s ch H sched)
  then show ?case
    using apply_schedule_files [of d "sy_agent s" "fst (schedule_poll_turn E H ch (sy_agent s, sy_fs s))" E sched "sy_fs s"
        "snd (schedule_poll_turn E H ch (sy_agent s, sy_fs s))"]
    by (auto simp: schedule_poll_turn_def split_def Let_def)
next
  case (message_poll s ch m H)
  then show ?case using message_poll_files [of d "sy_agent s"] by simp
next
  case (clock_measure s m m' N cl a)
  then show ?case using agent_paths_cong [OF cache_view_clock(1) [OF clock_measure(2)]] by (auto intro: untouched)
next
  case (clock_wake s w m cl a)
  then show ?case using agent_paths_cong [OF cache_view_clock(2) [OF clock_wake(3)]] by (auto intro: untouched)
next
  case (enforcement s m a last' act wait m')
  then show ?case using agent_paths_cong [OF cache_view_enforcement(1) [OF enforcement(4)]] by (auto intro: untouched)
next
  case (enforcement_done s k wait m' outcome)
  then show ?case using agent_paths_cong [OF cache_view_enforcement(2)] by (auto intro: untouched)
next
  case (disk fs s)
  then show ?case by (auto intro: disk_changed)
qed (simp_all add: agent_paths_view untouched)

lemma boot_paths: "agent_paths d (sy_agent (boot E m fs config (agent_toml d) q r))" "sy_fs (boot E m fs config (agent_toml d) q r) = fs"
  by (simp_all add: boot_def agent_paths_view Let_def) (simp add: agent_new_def cache_view_def with_file_name_def Let_def)

text \<open>A property of the files that every change keeps, holds throughout a run.\<close>

lemma sys_run_files:
  assumes "sys_run E R s0 os s" "agent_paths d (sy_agent s0)" "P (sy_fs s0)"
    "\<And>new fs fs'. P fs \<Longrightarrow> set new \<subseteq> set os \<Longrightarrow> file_change E d new fs fs' \<Longrightarrow> P fs'"
  shows "agent_paths d (sy_agent s) \<and> P (sy_fs s)"
  using assms
proof (induction rule: sys_run.induct)
  case (step s0 os s new s')
  have IH: "agent_paths d (sy_agent s) \<and> P (sy_fs s)"
  proof (rule step.IH [OF step.prems(1,2)])
    fix new' fs fs'
    assume "P fs" "set new' \<subseteq> set os" "file_change E d new' fs fs'"
    then show "P fs'" by (intro step.prems(3) [of fs new' fs']) auto
  qed
  with sys_step_files [OF step.hyps(2), of d] step.prems(3) [of "sy_fs s" new "sy_fs s'"] show ?case by auto
qed simp

text \<open>Every schedule the run was given, and what the cache held before it.\<close>

definition given_schedules :: "agent_env \<Rightarrow> path \<Rightarrow> filesystem \<Rightarrow> observation list \<Rightarrow> schedule option set" where
  "given_schedules E d fs0 os = insert (stored_schedule (ae_schedule_codec E) fs0 (schedule_json d)) {sc. Confirmed sc \<in> set os}"

lemma file_change_genuine:
  assumes "codec_ok (ae_schedule_codec E)" "stored_schedule (ae_schedule_codec E) fs (schedule_json d) \<in> given_schedules E d fs0 os"
    "set new \<subseteq> set os" "file_change E d new fs fs'"
  shows "stored_schedule (ae_schedule_codec E) fs' (schedule_json d) \<in> given_schedules E d fs0 os"
  using assms(4)
proof cases
  case (schedule_saved sc)
  then show ?thesis
    using save_schedule_stored [OF assms(1) json_files(1), of fs d sc] assms(2,3) by (auto simp: given_schedules_def)
next
  case (url_saved url)
  then have "files fs' (schedule_json d) = files fs (schedule_json d)" by (simp add: persist_url_other)
  from stored_schedule_cong [OF this] assms(2) show ?thesis by simp
next
  case (messages_saved ms)
  then have "files fs' (schedule_json d) = files fs (schedule_json d)" by (simp add: save_messages_other)
  from stored_schedule_cong [OF this] assms(2) show ?thesis by simp
qed (use assms(2) in \<open>simp_all add: stored_schedule_def\<close>)

lemma sys_run_genuine:
  assumes "sys_run E R (boot E m fs config (agent_toml d) q r) os s" "codec_ok (ae_schedule_codec E)"
  shows "stored_schedule (ae_schedule_codec E) (sy_fs s) (schedule_json d) \<in> given_schedules E d fs os"
  using sys_run_files [OF assms(1) boot_paths(1),
      of "\<lambda>fs'. stored_schedule (ae_schedule_codec E) fs' (schedule_json d) \<in> given_schedules E d fs os"]
    file_change_genuine [OF assms(2)]
  by (auto simp: boot_paths(2) given_schedules_def)

section \<open>Properties\<close>

text \<open>
  Property C32. Whatever the disk does, also while it changes its behaviour during the run, and wherever the process is cut off (between two turns, or inside the
  save of a further schedule): the schedule the next start loads is one that the controller confirmed in this run or that the cache held
  before it, or none when there is no cache file or it cannot be read. A torn, mixed or invented schedule is never enforced.
\<close>

theorem cached_schedule_genuine:
  assumes "sys_run E R (boot E m fs config (agent_toml d) q r) os s" "codec_ok (ae_schedule_codec E)"
    "files disk = files (sy_fs s) \<or>
     files disk = files fs' \<and> fs' \<in> set (write_via_temp_states (sy_fs s) (schedule_json d) (to_text (ae_schedule_codec E) further))"
    "next = agent_new E disk t config' (agent_toml d) q' snap"
  shows "ag_schedule next \<in> {None, Some further} \<union> given_schedules E d fs os"
proof -
  let ?C = "ae_schedule_codec E" and ?p = "schedule_json d"
  note run = sys_run_genuine [OF assms(1,2)]
  have "stored_schedule ?C disk ?p \<in> {stored_schedule ?C (sy_fs s) ?p, Some further}"
    using assms(3)
  proof
    assume "files disk = files (sy_fs s)"
    then show ?thesis by (simp add: stored_schedule_def)
  next
    assume torn: "files disk = files fs' \<and> fs' \<in> set (write_via_temp_states (sy_fs s) ?p (to_text ?C further))"
    then have "files fs' ?p \<in> {files (sy_fs s) ?p, Some (to_text ?C further)}"
      using write_via_temp_file(2) [OF json_files(1), of ?p d "sy_fs s" "to_text ?C further"] temp_path_differs [OF json_files(1), of d]
      by (auto simp: write_via_temp_states_def Let_def simp del: upt_Suc)
    with torn assms(2) show ?thesis by (auto simp: stored_schedule_def codec_simps)
  qed
  moreover have "ag_schedule next \<in> {None, stored_schedule ?C disk ?p}"
    using load_schedule_stored [of ?C disk ?p] by (auto simp: assms(4) agent_new_def with_file_name_def Let_def)
  ultimately show ?thesis using run by auto
qed

theorem cached_schedule_genuine_witness:
  "\<exists>s. sys_run sample_agent_env sample_recorder_env sample_boot [Confirmed (Some sample_schedule)] s \<and>
     (let torn = (sy_fs s)\<lparr>files := (files (sy_fs s))([''schedule.json.tmp''] := Some [])\<rparr>;
          next = agent_new sample_agent_env torn 0 sample_config sample_path queue_init default_snapshot
      in ag_schedule next \<in> {None, Some sample_schedule})"
proof -
  from sample_registers obtain s where
    run: "sys_run sample_agent_env sample_recorder_env sample_boot [Confirmed (Some sample_schedule)] s" by blast
  let ?C = "ae_schedule_codec sample_agent_env"
  define torn where "torn = (sy_fs s)\<lparr>files := (files (sy_fs s))([''schedule.json.tmp''] := Some [])\<rparr>"
  have "torn \<in> set (write_via_temp_states (sy_fs s) (schedule_json []) (to_text ?C sample_schedule))"
    using temp_files(1) [of "[]"]
    by (auto simp: torn_def write_via_temp_states_def image_iff simp del: upt_Suc intro!: bexI [of _ 0])
  moreover have "codec_ok ?C" by (simp add: sample_agent_env_def sample_schedule_codec_ok)
  moreover have "sample_path = agent_toml []" by (simp add: sample_path_def)
  moreover have "stored_schedule ?C empty_fs (schedule_json []) = None" by (simp add: stored_schedule_def empty_fs_def)
  ultimately have "ag_schedule (agent_new sample_agent_env torn 0 sample_config sample_path queue_init default_snapshot)
      \<in> {None, Some sample_schedule}"
    using cached_schedule_genuine [of sample_agent_env sample_recorder_env "sample_moment 0" empty_fs sample_config "[]"
        queue_init new_recorder "[Confirmed (Some sample_schedule)]" s torn torn sample_schedule _ 0 sample_config queue_init
        default_snapshot, OF _ _ _ refl] run
    by (auto simp: sample_boot_def given_schedules_def)
  with run show ?thesis by (auto simp: torn_def Let_def)
qed

section \<open>The configuration file\<close>

text \<open>
  \<^verbatim>\<open>std::fs::write\<close> truncates the file and then writes: where a crash can leave it.
\<close>

definition fs_write_states :: "filesystem \<Rightarrow> path \<Rightarrow> string \<Rightarrow> filesystem list" where
  "fs_write_states fs p bytes = fs # map (\<lambda>n. fs\<lparr>files := (files fs)(p := Some (take n bytes))\<rparr>) [0..<Suc (length bytes)]"

text \<open>
  The configuration is written in place, so a crash while the URL of a discovered controller is being saved can leave it empty. An empty
  TOML document is a configuration in which nothing is set: the next start draws a new device identifier and stores it.
  For the controller the device is then a new one, without a schedule.
\<close>

theorem torn_configuration_forgets_identity:
  assumes "load_file C fs p = Inr conf" "from_text C [] = Some default_file_config" "p \<noteq> []"
    "read_fault fs p = None" "write_result fs p = WriteOk" "mkdir_fault fs (butlast p) = None" "codec_ok C"
    "ov_device_id cli = None" "ov_device_id (from_process_env var) = None"
  shows "\<exists>torn \<in> set (fs_write_states fs p (to_text C (conf\<lparr>fc_controller := (fc_controller conf)\<lparr>cs_url := url\<rparr>\<rparr>))).
     \<exists>fs' cfg. load_config E C var hostname fresh torn p cli = (fs', Inr cfg) \<and> device_id cfg = fresh \<and>
       load_file C fs' p = Inr (default_file_config\<lparr>fc_agent := (fc_agent default_file_config)\<lparr>as_device_id := uuid_to_string E fresh\<rparr>\<rparr>)"
proof (rule bexI)
  let ?torn = "fs\<lparr>files := (files fs)(p := Some [])\<rparr>"
  have load: "load_file C ?torn p = Inr default_file_config"
    using assms(2,4) by (simp add: load_file_def read_to_string_def)
  have "non_empty (Some (as_device_id (fc_agent default_file_config))) = None"
    by (simp add: default_file_config_def non_empty_def trim_def strip.simps) (simp add: white_space_def)
  then have id: "device_id_text default_file_config (from_process_env var) cli = None"
    using resolve_no_override_id [OF assms(8,9)] by simp
  then have "device_id (resolve_config E fresh hostname default_file_config (from_process_env var) cli) = fresh"
    "device_id_generated (resolve_config E fresh hostname default_file_config (from_process_env var) cli)"
    by (simp_all add: resolve_config_def)
  then show "\<exists>fs' cfg. load_config E C var hostname fresh ?torn p cli = (fs', Inr cfg) \<and> device_id cfg = fresh \<and>
      load_file C fs' p = Inr (default_file_config\<lparr>fc_agent := (fc_agent default_file_config)\<lparr>as_device_id := uuid_to_string E fresh\<rparr>\<rparr>)"
    using load assms(3-7)
    by (auto simp: load_config_def Let_def persist_device_id_def save_file_def fs_write_def load_file_def read_to_string_def codec_simps)
  show "?torn \<in> set (fs_write_states fs p (to_text C (conf\<lparr>fc_controller := (fc_controller conf)\<lparr>cs_url := url\<rparr>\<rparr>)))"
    by (auto simp: fs_write_states_def image_iff simp del: upt_Suc intro!: bexI [of _ 0])
qed

end
