(* ===== verification/Soundness.thy ===== *)
theory Soundness
  imports System
begin

text \<open>
  Type soundness of the running agent: what its tables and lists hold stays well formed in every interleaving,
  whatever the controller, the NTP servers and the database answer. A row the event queue cannot read back
  would block the delivery of every later event (\<open>read_due\<close> gives up on the whole batch), so
  what is shown here is what keeps the deliveries going.
\<close>

section \<open>Well-formed states\<close>

text \<open>The system clock shows years that RFC 3339 can write, with half an hour to spare for the longest retry.\<close>

definition env_sane :: "agent_env \<Rightarrow> bool" where
  "env_sane E \<longleftrightarrow> queue_env_ok (ae_queue E) \<and>
     (\<forall>t. ae_clock E t \<longrightarrow> rfc_range t \<and> rfc_range (t + seconds 1800))"

definition queue_sound :: "agent_env \<Rightarrow> event_queue \<Rightarrow> bool" where
  "queue_sound E q \<longleftrightarrow> (\<exists>es. queue_rep (ae_queue E) es q)"

definition inbox_ok :: "message_store \<Rightarrow> bool" where
  "inbox_ok s \<longleftrightarrow> store_ok s \<and> list_all (\<lambda>x. am_seq x \<le> last_seq s) (messages s)"

definition agent_ok :: "agent_env \<Rightarrow> agent \<Rightarrow> bool" where
  "agent_ok E a \<longleftrightarrow> queue_sound E (ag_queue a) \<and> inbox_ok (ag_messages a)"

definition pending_ok :: "pending_delivery list \<Rightarrow> bool" where
  "pending_ok ps \<longleftrightarrow> list_all (\<lambda>p. pd_attempt_count p < MAX_ATTEMPTS) ps"

definition system_ok :: "agent_env \<Rightarrow> system \<Rightarrow> bool" where
  "system_ok E s \<longleftrightarrow>
     agent_ok E (sy_agent s) \<and> pending_ok (sy_pending s) \<and>
     (sy_phase s = Running \<or> sy_pending s \<noteq> [] \<or> sy_acting s \<noteq> None \<or> sy_planned s \<noteq> None \<longrightarrow> sy_client s \<noteq> None) \<and>
     (sy_acting s = None \<or> sy_planned s = None)"

section \<open>The queue\<close>

lemma env_sane_clock: "env_sane E \<Longrightarrow> ae_clock E t \<Longrightarrow> rfc_range t" "env_sane E \<Longrightarrow> queue_env_ok (ae_queue E)"
  by (simp_all add: env_sane_def)

lemma enqueue_sound:
  "env_sane E \<Longrightarrow> queue_sound E q \<Longrightarrow> rfc_range now \<Longrightarrow> rfc_range (ev_occurred_at e) \<Longrightarrow>
   queue_sound E (fst (enqueue ((ae_queue E)\<lparr>q_fault := f\<rparr>) q e now))"
  using enqueue_any [of "(ae_queue E)\<lparr>q_fault := f\<rparr>" _ q now e] by (auto simp: queue_sound_def env_sane_clock(2))

lemma mark_delivered_sound: "queue_sound E q \<Longrightarrow> queue_sound E (fst (mark_delivered ((ae_queue E)\<lparr>q_fault := f\<rparr>) q i))"
  using mark_delivered_any [of "(ae_queue E)\<lparr>q_fault := f\<rparr>" _ q i] by (auto simp: queue_sound_def)

lemma few_attempts:
  assumes "(a :: u32) < MAX_ATTEMPTS"
  shows "unat a < 2 ^ 32 - 1" "a = of_nat (unat a)"
  using assms by (simp_all add: MAX_ATTEMPTS_def word_less_nat_alt)

lemma mark_failed_sound:
  assumes "env_sane E" "queue_sound E q" "a < MAX_ATTEMPTS" "ae_clock E now"
  shows "queue_sound E (fst (mark_failed ((ae_queue E)\<lparr>q_fault := f\<rparr>) q i a now))"
proof -
  have "rfc_range (now + backoff_delay (of_nat (Suc (unat a))))"
    using assms(1,4) by (intro backoff_delay_range few_attempts [OF assms(3)]) (simp_all add: env_sane_def)
  with assms(2) show ?thesis
    using mark_failed_any [OF _ few_attempts(1) [OF assms(3)], of "(ae_queue E)\<lparr>q_fault := f\<rparr>" _ q now i] few_attempts(2) [OF assms(3)]
    by (auto simp: queue_sound_def)
qed

lemma mark_result_sound:
  "env_sane E \<Longrightarrow> queue_sound E q \<Longrightarrow> pd_attempt_count (fst pr) < MAX_ATTEMPTS \<Longrightarrow> ae_clock E now \<Longrightarrow>
   queue_sound E (mark_result ((ae_queue E)\<lparr>q_fault := f\<rparr>) now q pr)"
  by (cases pr) (simp add: mark_result_def mark_delivered_sound mark_failed_sound split: event_result_status.split)

lemma read_due_ok:
  assumes "env_sane E" "queue_sound E (ag_queue a)" "ae_clock E (sys m)"
  shows "pending_ok (read_due E m a)"
proof (cases "faults m SelectDue")
  case None
  from assms(2) obtain es where es: "queue_rep (ae_queue E) es (ag_queue a)" by (auto simp: queue_sound_def)
  have "queue_env_ok (queue_at E m)" "queue_rep (queue_at E m) es (ag_queue a)" "q_fault (queue_at E m) SelectDue = None"
    using es None env_sane_clock(2) [OF assms(1)] by simp_all
  from due_batch_rep [OF this(1,3,2) env_sane_clock(1) [OF assms(1,3)], of EVENT_BATCH_SIZE] obtain es' where es': "mset es' = mset es"
    "read_due E m a = map delivery_of (due_entries es' (sys m) EVENT_BATCH_SIZE)"
    by (auto simp: read_due_def)
  have "pd_attempt_count (delivery_of x) < MAX_ATTEMPTS" if "x \<in> set (due_entries es' (sys m) EVENT_BATCH_SIZE)" for x
  proof -
    from that have "x \<in> set es'" by (auto simp: due_entries_def dest!: in_set_takeD)
    then have "x \<in> set es" by (simp only: mset_eq_setD [OF es'(1)])
    with es have "pe_attempts x < 48" by (auto simp: queue_rep_def list_all_iff entry_ok_def MAX_ATTEMPTS_def)
    then show ?thesis by (simp add: delivery_of_def MAX_ATTEMPTS_def word_less_nat_alt unat_of_nat)
  qed
  then show ?thesis by (simp add: pending_ok_def es'(2) list_all_iff)
next
  case (Some e)
  then show ?thesis by (simp add: read_due_def due_batch_def pending_ok_def)
qed

section \<open>The agent\<close>

lemma occurred_at_clock [simp]:
  "ev_occurred_at (new_event eid clk ty sev d) = clk"
  "ev_occurred_at (new_session_event eid clk ty sev u d) = clk"
  by (simp_all add: new_event_def new_session_event_def)

lemma agent_enqueue_ok:
  "env_sane E \<Longrightarrow> agent_ok E a \<Longrightarrow> ae_clock E (sys m) \<Longrightarrow> ev_occurred_at e = sys m \<Longrightarrow>
   agent_ok E (agent_enqueue E m e a)"
  by (simp add: agent_ok_def agent_enqueue_def queue_at_def enqueue_sound env_sane_clock(1))

lemma agent_ok_cong:
  "ag_queue a = ag_queue b \<Longrightarrow> ag_messages a = ag_messages b \<Longrightarrow> agent_ok E a \<longleftrightarrow> agent_ok E b"
  by (simp add: agent_ok_def)

lemma agent_ok_updates [simp]:
  "agent_ok E (a\<lparr>ag_connected := b\<rparr>) = agent_ok E a" "agent_ok E (a\<lparr>ag_flush := b\<rparr>) = agent_ok E a"
  "agent_ok E (a\<lparr>ag_snapshot := sn\<rparr>) = agent_ok E a" "agent_ok E (a\<lparr>ag_stopping := b\<rparr>) = agent_ok E a"
  "agent_ok E (a\<lparr>ag_schedule := sc\<rparr>) = agent_ok E a" "agent_ok E (a\<lparr>ag_schedule_changed := b\<rparr>) = agent_ok E a"
  "agent_ok E (a\<lparr>ag_sync := y\<rparr>) = agent_ok E a" "agent_ok E (a\<lparr>ag_clock := c\<rparr>) = agent_ok E a"
  "agent_ok E (a\<lparr>ag_clock_resync := b\<rparr>) = agent_ok E a"
  by (simp_all add: agent_ok_def)

lemma agent_ok_operations [simp]:
  "agent_ok E (request_flush a) = agent_ok E a" "agent_ok E (mark_schedule_synced a) = agent_ok E a"
  "agent_ok E (invalidate_schedule_sync m a) = agent_ok E a" "agent_ok E (begin_shutdown a) = agent_ok E a"
  "agent_ok E (delivery_wake_turn w a) = agent_ok E a" "agent_ok E (enforcement_wake_turn m v p a) = agent_ok E a"
  by (simp_all add: request_flush_def mark_schedule_synced_def invalidate_schedule_sync_def begin_shutdown_def
      delivery_wake_turn_def enforcement_wake_turn_def Let_def split: delivery_wake.split enforcement_wake.split)

lemma apply_schedule_ok [simp]: "agent_ok E (fst (apply_schedule E sc af)) = agent_ok E (fst af)"
  by (simp add: apply_schedule_def split: prod.split)

lemma inbox_apply: "inbox_ok s \<Longrightarrow> inbox_ok (fst (store_apply s incoming now))"
proof -
  assume "inbox_ok s"
  then have "inbox_ok (foldl push_message s incoming)"
  proof (induction incoming arbitrary: s)
    case (Cons x xs)
    have "inbox_ok (push_message s x)"
      using Cons.prems push_messages_ok [of s "[x]"]
      by (auto simp: inbox_ok_def push_message_unfold list_all_iff)
    with Cons.IH show ?case by simp
  qed simp
  then show ?thesis
    by (simp add: store_apply_def Let_def inbox_ok_def store_ok_def distinct_map_filter list_all_iff)
qed

lemma apply_messages_ok: "agent_ok E (fst af) \<Longrightarrow> agent_ok E (fst (apply_messages E m ms af))"
  by (cases af) (simp add: apply_messages_def agent_ok_def inbox_apply case_prod_unfold)

lemma note_connected_ok:
  assumes "env_sane E" "agent_ok E a" "ae_clock E (sys m)"
  shows "agent_ok E (note_connected E m url a)" "agent_ok E (note_disconnected E m url a)"
  using assms by (simp_all add: note_connected_def note_disconnected_def Let_def agent_enqueue_ok event_defs)

section \<open>The turns\<close>

text \<open>Whatever a loop does in a turn at a moment the clock can show, the agent stays well formed.\<close>

lemma resolve_ok:
  assumes "env_sane E" "agent_ok E a" "ae_clock E (sys m)"
    "resolve_controller_url E force [(m, io)] (a, fs) = (af, url)"
  shows "agent_ok E (fst af)"
  using assms by (auto simp: Let_def agent_enqueue_ok event_defs split: option.splits sum.splits if_splits)

lemma register_ok:
  assumes "env_sane E" "agent_ok E a" "ae_clock E (sys m)" "register_agent E c [(m, H)] (a, fs) = (af, u)"
  shows "agent_ok E (fst af)"
  using assms
  by (auto simp: Let_def agent_enqueue_ok event_defs split: sum.splits prod.splits
      dest!: arg_cong [of "apply_schedule _ _ _" _ "\<lambda>af. agent_ok E (fst af)"])

lemma heartbeat_ok:
  assumes "env_sane E" "agent_ok E a" "ae_clock E (sys m)" "heartbeat_turn E m H [] ch (a, fs) = (af, ch')"
  shows "agent_ok E (fst af)"
  using assms
  by (auto simp: heartbeat_turn_def Let_def agent_enqueue_ok note_connected_ok event_defs
      split: sum.splits prod.splits if_splits
      dest!: arg_cong [of "apply_schedule _ _ _" _ "\<lambda>af. agent_ok E (fst af)"])

lemma schedule_poll_ok: "agent_ok E a \<Longrightarrow> agent_ok E (fst (schedule_poll_turn E H ch (a, fs)))"
  by (auto simp: schedule_poll_turn_def Let_def split: sum.splits prod.splits
      dest!: arg_cong [of "apply_schedule _ _ _" _ "\<lambda>af. agent_ok E (fst af)"])

lemma message_poll_ok: "agent_ok E a \<Longrightarrow> agent_ok E (fst (message_poll_turn E m H ch (a, fs)))"
  by (simp add: message_poll_turn_def Let_def apply_messages_ok split: sum.splits)

lemma finish_delivery_ok:
  assumes E: "env_sane E" and a: "agent_ok E a" and clock: "ae_clock E (sys m)" and ps: "pending_ok ps"
  shows "agent_ok E (finish_delivery E m H ch ps a)"
proof -
  let ?mark = "mark_result (queue_at E m) (sys m)"
  let ?fail = "\<lambda>q p. fst (mark_failed (queue_at E m) q (pd_row_id p) (pd_attempt_count p) (sys m))"
  have marked: "queue_sound E (foldl ?mark q (zip ps rs))" if "queue_sound E q" for q rs
    using that ps
  proof (induction ps arbitrary: q rs)
    case (Cons p ps)
    then show ?case
      by (cases rs) (simp_all add: pending_ok_def mark_result_sound [OF E _ _ clock] queue_at_def)
  qed simp
  have failed: "queue_sound E (foldl ?fail q ps)" if "queue_sound E q" for q
    using that ps
    by (induction ps arbitrary: q) (simp_all add: pending_ok_def mark_failed_sound [OF E _ _ clock] queue_at_def)
  have noted: "queue_sound E (ag_queue (note_connected E m u a))" "inbox_ok (ag_messages (note_connected E m u a))"
    "queue_sound E (ag_queue (note_disconnected E m u a))" "inbox_ok (ag_messages (note_disconnected E m u a))" for u
    using note_connected_ok [OF E a clock, of u] unfolding agent_ok_def by blast+
  show ?thesis
    using a by (simp add: finish_delivery_def Let_def agent_ok_def marked failed noted split: sum.split)
qed

lemma clock_turns_ok:
  "clock_measure_turn m m' N (cl, a) = (cl', a') \<Longrightarrow> agent_ok E a \<Longrightarrow> agent_ok E a'"
  "clock_wake_turn m w (cl, a) = (cl', a') \<Longrightarrow> agent_ok E a \<Longrightarrow> agent_ok E a'"
  by (auto simp: clock_measure_turn_def clock_wake_turn_def Let_def split: if_splits prod.splits option.splits clock_wake.splits)

lemma enforcement_start_ok:
  assumes "env_sane E" "agent_ok E a" "ae_clock E (sys m)" "enforcement_start E m (a, lr) = ((a', lr'), act, wait)"
  shows "agent_ok E a'"
  using assms
  by (auto simp: enforcement_start_def request_action_def Let_def agent_enqueue_ok event_defs
      split: prod.splits option.splits power_action.splits if_splits)

lemma enforcement_return_ok:
  assumes "env_sane E" "agent_ok E a" "ae_clock E (sys m)"
  shows "agent_ok E (enforcement_return E m outcome k a)"
  using assms
  by (simp add: enforcement_return_def finish_action_def report_outcome_def Let_def agent_enqueue_ok event_defs
      split: power_action.split power_outcome.split)

lemma stop_turn_ok:
  "env_sane E \<Longrightarrow> agent_ok E a \<Longrightarrow> ae_clock E (sys m) \<Longrightarrow> agent_ok E (stop_turn E m b a)"
  by (simp add: stop_turn_def Let_def agent_enqueue_ok event_defs)

lemma handle_queue_sound:
  assumes "env_sane E" "re_queue R = (ae_queue E)\<lparr>q_fault := f\<rparr>" "ae_clock E (clock_now c)"
    "r_event_queue r = Some q" "queue_sound E q"
  shows "\<exists>q'. r_event_queue (fst (handle R c ev username r)) = Some q' \<and> queue_sound E q'"
proof -
  have report: "\<exists>q'. r_event_queue (report_event R c ev u tr (clock_now c) r1) = Some q' \<and> queue_sound E q'"
    if "r_event_queue r1 = Some q" for u tr r1
    using assms that
    by (simp add: report_event_def Let_def enqueue_sound env_sane_clock(1) split: option.split)
  show ?thesis
    using assms(4,5) persist_transition_sel report
    by (auto simp: handle_def handle_at_def Let_def split: prod.splits sum.splits)
qed

lemma notify_turn_ok:
  assumes "env_sane E" "re_queue R = (ae_queue E)\<lparr>q_fault := f\<rparr>" "ae_clock E (clock_now c)" "agent_ok E (sy_agent s)"
  shows "agent_ok E (sy_agent (notify_turn R c ev username s))"
proof -
  let ?r = "(sy_recorder s)\<lparr>r_event_queue := Some (ag_queue (sy_agent s))\<rparr>"
  from assms handle_queue_sound [OF assms(1-3), of ?r "ag_queue (sy_agent s)" ev username] obtain q'
    where "r_event_queue (fst (handle R c ev username ?r)) = Some q'" "queue_sound E q'"
    by (auto simp: agent_ok_def)
  with assms(4) show ?thesis by (simp add: notify_turn_def Let_def agent_ok_def)
qed

section \<open>Preservation\<close>

lemma sys_step_ok:
  assumes "sys_step E R s new s'" "env_sane E" "re_queue R = ae_queue E" "system_ok E s"
  shows "system_ok E s'"
  using assms
proof (induction rule: sys_step.induct)
  case (discovery s m io af url)
  then show ?case using resolve_ok [OF _ _ _ discovery(2)] by (auto simp: system_ok_def split: option.split)
next
  case (registration s c H m response af u)
  then show ?case using register_ok [OF _ _ _ registration(3)] by (auto simp: system_ok_def)
next
  case (registration_failure s c H m err af)
  then show ?case using register_ok [OF _ _ _ registration_failure(3)] by (auto simp: system_ok_def)
next
  case (heartbeat s ch H m response af ch')
  then show ?case using heartbeat_ok [OF _ _ _ heartbeat(4)] by (auto simp: system_ok_def)
next
  case (heartbeat_failure s ch H m err af ch')
  then show ?case using heartbeat_ok [OF _ _ _ heartbeat_failure(4)] by (auto simp: system_ok_def)
next
  case (schedule_poll s ch H sched)
  then show ?case by (simp add: system_ok_def schedule_poll_ok)
next
  case (message_poll s ch m H)
  then show ?case by (simp add: system_ok_def message_poll_ok)
next
  case (delivery_read s w m)
  then show ?case using read_due_ok [of E "sy_agent s" m] by (auto simp: system_ok_def) (simp_all add: agent_ok_def)
next
  case (delivery_finish s ch m H)
  then show ?case by (simp add: system_ok_def finish_delivery_ok) (simp add: pending_ok_def)
next
  case (clock_measure s m m' N cl a)
  then show ?case using clock_turns_ok(1) [OF clock_measure(2)] by (auto simp: system_ok_def)
next
  case (clock_wake s w m cl a)
  then show ?case using clock_turns_ok(2) [OF clock_wake(3)] by (auto simp: system_ok_def)
next
  case (enforcement s m a last' act wait m')
  then show ?case using enforcement_start_ok [OF _ _ _ enforcement(4)]
    by (auto simp: system_ok_def split: option.split)
next
  case (enforcement_done s k wait m' outcome)
  then show ?case by (auto simp: system_ok_def enforcement_return_ok)
next
  case (enforcement_wake s planned w m)
  then show ?case by (auto simp: system_ok_def)
next
  case (notification c s f g ev username)
  then show ?case using notify_turn_ok [OF _ _ notification(1), of "recorder_at R f g" f s ev username]
    by (simp add: system_ok_def notify_turn_def Let_def recorder_at_def)
next
  case (stopping m s requested)
  then show ?case by (simp add: system_ok_def stop_turn_ok)
next
  case (disk fs s)
  then show ?case by (simp add: system_ok_def)
qed

lemma sys_run_ok:
  "sys_run E R s0 os s \<Longrightarrow> env_sane E \<Longrightarrow> re_queue R = ae_queue E \<Longrightarrow> system_ok E s0 \<Longrightarrow> system_ok E s"
  by (induction rule: sys_run.induct) (auto intro: sys_step_ok)

lemma boot_ok:
  assumes "env_sane E" "ae_clock E (sys m)" "queue_rep (ae_queue E) es q"
    "inbox_ok (load_messages (ae_message_codec E) fs (with_file_name toml ''messages.json''))"
  shows "system_ok E (boot E m fs config toml q r)"
proof -
  have "agent_ok E (agent_new E fs (mono m) config toml q (r_snapshot r))"
    using assms(3,4) by (auto simp: agent_ok_def agent_new_def Let_def queue_sound_def)
  then show ?thesis
    using assms(1,2) by (simp add: boot_def Let_def system_ok_def agent_enqueue_ok event_defs pending_ok_def)
qed

lemma due_batch_readable:
  assumes "env_sane E" "queue_sound E q" "ae_clock E t" "f SelectDue = None"
  shows "\<exists>ds. due_batch ((ae_queue E)\<lparr>q_fault := f\<rparr>) q t limit = Inr ds"
  using due_batch_rep [of "(ae_queue E)\<lparr>q_fault := f\<rparr>" _ q t limit] env_sane_clock [OF assms(1)] assms(2-4)
  by (fastforce simp: queue_sound_def)

text \<open>
  Property C6. Started on a well-formed queue and message cache, with a system clock that shows years RFC 3339 can
  write, the agent is well formed in every state of every interleaving: every row of the queue decodes,
  identifiers are distinct, no event carries more attempts than allowed (nor one in delivery), the message
  cache holds every message once and none past its cursor, and no task of the networking side runs before there is a
  registered client. So reading the due events never fails on a stored value, and no bad row blocks delivery.
\<close>

theorem agent_state_well_formed:
  assumes "env_sane E" "re_queue R = ae_queue E" "ae_clock E (sys m)" "queue_rep (ae_queue E) es q"
    "inbox_ok (load_messages (ae_message_codec E) fs (with_file_name toml ''messages.json''))"
    "sys_run E R (boot E m fs config toml q r) os s"
  shows "system_ok E s \<and>
    (ae_clock E t \<and> f SelectDue = None \<longrightarrow>
      (\<exists>ds. due_batch ((ae_queue E)\<lparr>q_fault := f\<rparr>) (ag_queue (sy_agent s)) t limit = Inr ds))"
proof -
  from sys_run_ok [OF assms(6,1,2) boot_ok [OF assms(1,3,4,5)]] have ok: "system_ok E s" .
  then show ?thesis using due_batch_readable [OF assms(1)] by (auto simp: system_ok_def agent_ok_def)
qed

lemma sample_env_sane: "env_sane sample_agent_env"
  by (auto simp: env_sane_def sample_agent_env_def sample_queue_ok rfc_range_def rfc_min_def rfc_end_def seconds_def)

theorem agent_state_well_formed_witness:
  "\<exists>s. sys_run sample_agent_env sample_recorder_env sample_boot
     [sample_shutdown (seconds 400), sample_shutdown (seconds 60), Confirmed (Some sample_schedule)] s \<and>
   system_ok sample_agent_env s \<and>
   (\<exists>ds. due_batch ((ae_queue sample_agent_env)\<lparr>q_fault := \<lambda>_. None\<rparr>) (ag_queue (sy_agent s)) (seconds 500) 100 = Inr ds)"
proof -
  from sample_system_run obtain s where run: "sys_run sample_agent_env sample_recorder_env sample_boot
     [sample_shutdown (seconds 400), sample_shutdown (seconds 60), Confirmed (Some sample_schedule)] s" by blast
  have "load_messages (ae_message_codec sample_agent_env) empty_fs (with_file_name sample_path ''messages.json'') =
      default_message_store"
    by (simp add: load_messages_def empty_fs_def read_to_string_def)
  then have inbox: "inbox_ok (load_messages (ae_message_codec sample_agent_env) empty_fs
      (with_file_name sample_path ''messages.json''))"
    by (simp add: inbox_ok_def store_ok_def default_message_store_def)
  have queue: "queue_rep (ae_queue sample_agent_env) [] queue_init" by (rule queue_rep_init)
  have envs: "re_queue sample_recorder_env = ae_queue sample_agent_env" "ae_clock sample_agent_env (seconds 500)"
    "ae_clock sample_agent_env (sys (sample_moment 0))"
    by (simp_all add: sample_agent_env_def seconds_def sample_moment_def sample_queue_env_def)
  from agent_state_well_formed [OF sample_env_sane envs(1,3) queue inbox run [unfolded sample_boot_def], where t = "seconds 500" and limit = 100 and f = "\<lambda>_. None"]
    envs run show ?thesis by blast
qed

end
