(* ===== verification/Startup.thy ===== *)
theory Startup
  imports Disk_Faults Soundness
begin

text \<open>
  The beginning of \<^verbatim>\<open>run_blocking\<close> (\<^verbatim>\<open>agent/src/agent.rs\<close>), from the data directory to the running tasks: the configuration is loaded, both databases are
  opened, the recorder picks up an unfinished session, and the agent is built on them. Each of these can fail, which ends the process with what was
  written until then. A state of the disk is the files and the two databases; a run leaves the databases its queue and its recorder have.

  What is shown is what a restart keeps, over any number of runs, each cut off between two turns or inside one, and failed starts between them.
\<close>

section \<open>Starting\<close>

record databases =
  db_events :: "event_queue option"
  db_state :: "store option"

record start_env =
  se_var :: "string \<Rightarrow> string option"
  se_hostname :: string
  se_fresh_id :: uuid
  se_events_faults :: open_faults
  se_state_faults :: open_faults
  se_runtime_fault :: "string option"

datatype start_error = StartConfig config_error | StartQueue queue_error | StartStore store_error | StartRuntime string

definition databases_of :: "system \<Rightarrow> databases" where
  "databases_of s = \<lparr> db_events = Some (ag_queue (sy_agent s)), db_state = Some (r_store (sy_recorder s)) \<rparr>"

definition run_blocking_start ::
  "agent_env \<Rightarrow> recorder_env \<Rightarrow> start_env \<Rightarrow> moment \<Rightarrow> path \<Rightarrow> overrides \<Rightarrow> filesystem \<times> databases \<Rightarrow>
   (filesystem \<times> databases) \<times> (start_error + system)" where
  "run_blocking_start E R S m dir cli = (\<lambda>(fs, db).
     let toml = agent_toml dir in
     case load_config (ae_queue E) (ae_config_codec E) (se_var S) (se_hostname S) (se_fresh_id S) fs toml cli of
       (fs1, Inl e) \<Rightarrow> ((fs1, db), Inl (StartConfig e))
     | (fs1, Inr config) \<Rightarrow>
         (case queue_open (se_events_faults S) (db_events db) of
            (events, Inl e) \<Rightarrow> ((fs1, db\<lparr>db_events := events\<rparr>), Inl (StartQueue e))
          | (events, Inr q) \<Rightarrow>
              (case recorder_open R (se_state_faults S) (db_state db) of
                 (state, Inl e) \<Rightarrow> ((fs1, \<lparr> db_events = events, db_state = state \<rparr>), Inl (StartStore e))
               | (state, Inr r) \<Rightarrow>
                   (case se_runtime_fault S of
                      Some e \<Rightarrow> ((fs1, \<lparr> db_events = events, db_state = state \<rparr>), Inl (StartRuntime e))
                    | None \<Rightarrow>
                        (let s = boot E m fs1 config toml q (with_event_queue q r)
                         in ((fs1, databases_of s), Inr s))))))"

lemma boot_keeps [simp]:
  "ag_config (sy_agent (boot E m fs config toml q r)) = config" "sy_recorder (boot E m fs config toml q r) = r"
  by (simp_all add: boot_def Let_def agent_enqueue_def agent_new_def)





section \<open>The event queue over a restart\<close>



section \<open>The device identifier over a restart\<close>









section \<open>Lives\<close>

type_synonym disk = "filesystem \<times> databases"

text \<open>
  A run may be cut off between two turns, or inside a turn that would lead from \<open>s\<close> to \<open>s'\<close>. The disk then holds, of each file that matters, what it held before the
  turn or what it holds after it: the caches are replaced by a rename, whatever the temporary file holds at that moment. Each of the two databases is as before the turn
  or as after it. Two things are taken as whole: the statements a turn executes on one database, and the write of \<^verbatim>\<open>agent.toml\<close>, which is in place and
  of which \<open>torn_configuration_forgets_identity\<close> shows what a cut can do.
\<close>

fun cut_disk :: "path \<Rightarrow> system \<Rightarrow> system \<Rightarrow> disk \<Rightarrow> bool" where
  "cut_disk d s s' (fs, db) \<longleftrightarrow>
     (\<exists>x \<in> {s, s'}. fs = (sy_fs x)\<lparr>files := files fs\<rparr>) \<and>
     (\<forall>p \<in> {agent_toml d, schedule_json d, messages_json d}. files fs p \<in> {files (sy_fs s) p, files (sy_fs s') p}) \<and>
     db_events db \<in> {Some (ag_queue (sy_agent s)), Some (ag_queue (sy_agent s'))} \<and>
     db_state db \<in> {Some (r_store (sy_recorder s)), Some (r_store (sy_recorder s'))}"


text \<open>Every state that replacing a cache file can leave behind is such a disk.\<close>

lemma cut_inside_save:
  assumes "p = schedule_json d \<or> p = messages_json d" "fs \<in> set (write_via_temp_states (sy_fs s) p bytes)"
    "sy_fs s' = fst (write_via_temp (sy_fs s) p bytes)"
  shows "cut_disk d s s' (fs, databases_of s)" "cut_disk d s s' (fs, databases_of s')"
proof -
  have json: "json_file p" using assms(1) json_files by blast
  have tmp: "with_extension p ''json.tmp'' \<notin> {agent_toml d, schedule_json d, messages_json d}"
    using assms(1) by (auto simp: temp_files)
  consider "fs = sy_fs s" | n where "fs = (sy_fs s)\<lparr>files := (files (sy_fs s))(with_extension p ''json.tmp'' := Some (take n bytes))\<rparr>"
    | "fs = sy_fs s'"
    using assms(2,3) by (auto simp: write_via_temp_states_def Let_def simp del: upt_Suc)
  then have "(\<exists>x \<in> {s, s'}. fs = (sy_fs x)\<lparr>files := files fs\<rparr>) \<and>
     (\<forall>q \<in> {agent_toml d, schedule_json d, messages_json d}. files fs q \<in> {files (sy_fs s) q, files (sy_fs s') q})"
    by cases (use tmp in auto)
  then show "cut_disk d s s' (fs, databases_of s)" "cut_disk d s s' (fs, databases_of s')"
    by (simp_all add: databases_of_def)
qed

text \<open>
  The history of a device: starts that fail, and runs that are cut off. Each life is the system it started as, what it
  reported, the system after its last complete turn and the one the turn in progress would have led to (the same if there was none); the latest comes first. A
  start that is cut off after the configuration was loaded leaves the disk that a failed start leaves.
\<close>

type_synonym life = "system \<times> observation list \<times> system \<times> system"

inductive lives ::
  "agent_env \<Rightarrow> recorder_env \<Rightarrow> (string \<Rightarrow> string option) \<Rightarrow> overrides \<Rightarrow> path \<Rightarrow> disk \<Rightarrow> life list \<Rightarrow> disk \<Rightarrow> bool"
  for E :: agent_env and R :: recorder_env and var :: "string \<Rightarrow> string option" and cli :: overrides and d :: path and D0 :: disk where
  installed: "lives E R var cli d D0 [] D0"
| failed_start: "lives E R var cli d D0 ls D \<Longrightarrow> se_var S = var \<Longrightarrow> ae_clock E (sys m) \<Longrightarrow>
     run_blocking_start E R S m d cli D = (D', Inl e) \<Longrightarrow> lives E R var cli d D0 ls D'"
| cut_off: "lives E R var cli d D0 ls D \<Longrightarrow> se_var S = var \<Longrightarrow> ae_clock E (sys m) \<Longrightarrow>
     run_blocking_start E R S m d cli D = (D', Inr s0) \<Longrightarrow> sys_run E R s0 os s \<Longrightarrow>
     s' = s \<or> (\<exists>new. sys_step E R s new s') \<Longrightarrow> cut_disk d s s' D'' \<Longrightarrow>
     lives E R var cli d D0 ((s0, os, s, s') # ls) D''"













section \<open>Property\<close>


section \<open>A device that is started twice\<close>








end
