(* ===== verification/Agent_Laws.thy ===== *)
theory Agent_Laws
  imports System
begin

text \<open>
  What single turns of the agent's loops guarantee: the enforcement loop never sleeps past a moment at
  which it would act, the delivery loop does to every stored event what the controller answered for it, a
  jump of the system clock is noticed and corrected, and (over whole runs) the schedule and the messages
  survive a restart.
\<close>

section \<open>The enforcement loop's wait\<close>

lemma agent_now_later: "sys m' = sys m + d \<Longrightarrow> agent_now m' a = agent_now m a + d"
  by (simp add: agent_now_def trusted_now_def)

lemma enforcement_turn_act:
  assumes "\<And>t. lr = Some t \<Longrightarrow> mono m - t \<ge> SHUTDOWN_COOLDOWN"
  shows "en_action (enforcement_turn E m m1 outcome (a, lr)) =
    (case fst (enforcement_view m SCHEDULE_SYNC_GRACE a) of
       None \<Rightarrow> None
     | Some sc \<Rightarrow> if active_window sc (agent_now m a) = None then None else Some (action sc))"
proof -
  have "snd (request_action E m sc (a, lr)) = Some (action sc)" for sc
    using assms by (cases "action sc"; cases lr) (simp_all add: request_action_def Let_def not_less)
  then show ?thesis
    by (simp add: enforcement_turn_action enforcement_start_def enforcement_look_def Let_def split_def split: option.split)
qed

lemma enforcement_wait_bounds:
  "0 \<le> en_wait (enforcement_turn E m m1 outcome (a, lr))"
  "en_wait (enforcement_turn E m m1 outcome (a, lr)) \<le> seconds 60"
  by (auto simp: enforcement_turn_action enforcement_start_def enforcement_look_def enforcement_view_def
      ENFORCEMENT_MAX_WAIT_def seconds_def Let_def split_def split: option.split)

lemma view_held:
  assumes "enforcement_view m g a = (None, Some hold)" "mono m' = mono m + d" "0 \<le> d" "d < hold"
  shows "fst (enforcement_view m' g a) = None"
  using assms by (auto simp: enforcement_view_def enforcement_ready_def Let_def split: if_splits)

lemma view_schedule: "fst (enforcement_view m g a) \<in> {None, ag_schedule a}"
  by (simp add: enforcement_view_def Let_def)

lemma view_given:
  "enforcement_view m g a = (None, None) \<Longrightarrow> ag_schedule a = None"
  "enforcement_view m g a = (Some sc, h) \<Longrightarrow> ag_schedule a = Some sc \<and> h = None"
  by (auto simp: enforcement_view_def Let_def split: if_splits)

lemma quiet_until_next:
  assumes "active_window sc now = None" "now \<le> t" "\<And>u. next_off_at sc now = Some u \<Longrightarrow> t < u"
  shows "active_window sc t = None"
proof -
  have "\<not> in_window t w" if "w \<in> set (windows sc)" for w
  proof (cases "now < off_at w")
    case True
    from next_off_at_least [OF that True] assms(3) show ?thesis by (auto simp: in_window_def)
  next
    case False
    with assms(1,2) that show ?thesis by (fastforce simp: active_window_None in_window_def)
  qed
  then show ?thesis by (simp add: active_window_None)
qed

lemma wait_before_next:
  assumes "enforcement_view m SCHEDULE_SYNC_GRACE a = (Some sc, h)" "active_window sc (agent_now m a) = None"
    "next_off_at sc (agent_now m a) = Some u"
  shows "agent_now m a + en_wait (enforcement_turn E m m1 outcome (a, lr)) \<le> u"
  using assms next_off_at_Some [OF assms(3)] by (auto simp: enforcement_turn_action enforcement_start_def enforcement_look_def Let_def)

lemma wait_before_hold:
  assumes "enforcement_view m SCHEDULE_SYNC_GRACE a = (None, Some hold)"
  shows "en_wait (enforcement_turn E m m1 outcome (a, lr)) \<le> hold"
  using assms by (simp add: enforcement_turn_action enforcement_start_def enforcement_look_def Let_def)

text \<open>
  Property C4. The enforcement loop never sleeps past a moment at which it would have to act. When a turn asks for no action, the
  wait it chooses is between nothing and a minute, and a turn at any moment before the wait is over (both clocks having
  advanced by the same time, and nothing else having changed) asks for no action either: no off window
  starts in between, and the hold-back after startup or resume does not end in between. The hypothesis on the
  shutdown cooldown leaves out the turns that were silenced by it.
\<close>

theorem enforcement_never_oversleeps:
  assumes "en_action (enforcement_turn E m m1 outcome (a, lr)) = None"
    "\<And>t. lr = Some t \<Longrightarrow> mono m - t \<ge> SHUTDOWN_COOLDOWN"
    "w = en_wait (enforcement_turn E m m1 outcome (a, lr))"
  shows "0 \<le> w \<and> w \<le> seconds 60 \<and>
    (\<forall>d m'. 0 \<le> d \<and> d < w \<and> sys m' = sys m + d \<and> mono m' = mono m + d \<longrightarrow>
       en_action (enforcement_turn E m' m1' outcome' (a, lr)) = None)"
proof -
  have "en_action (enforcement_turn E m' m1' outcome' (a, lr)) = None"
    if d: "0 \<le> d" "d < w" "sys m' = sys m + d" "mono m' = mono m + d" for d m'
  proof -
    have cool: "\<And>t. lr = Some t \<Longrightarrow> mono m' - t \<ge> SHUTDOWN_COOLDOWN" using assms(2) d by force
    have "fst (enforcement_view m' SCHEDULE_SYNC_GRACE a) = None \<or>
      (\<exists>sc. fst (enforcement_view m' SCHEDULE_SYNC_GRACE a) = Some sc \<and> active_window sc (agent_now m' a) = None)"
    proof (cases "enforcement_view m SCHEDULE_SYNC_GRACE a")
      case (Pair sched held)
      show ?thesis
      proof (cases sched)
        case None
        show ?thesis
        proof (cases held)
          case None
          with Pair \<open>sched = None\<close> view_given(1) [of m SCHEDULE_SYNC_GRACE a]
            view_schedule [of m' SCHEDULE_SYNC_GRACE a] show ?thesis by auto
        next
          case (Some hold)
          with Pair \<open>sched = None\<close> have v: "enforcement_view m SCHEDULE_SYNC_GRACE a = (None, Some hold)" by simp
          from view_held [OF v d(4,1)] wait_before_hold [OF v, of E m1 outcome lr] d(2) assms(3)
          show ?thesis by simp
        qed
      next
        case (Some sc)
        with Pair have v: "enforcement_view m SCHEDULE_SYNC_GRACE a = (Some sc, held)" by simp
        have act: "active_window sc (agent_now m a) = None"
          using assms(1) enforcement_turn_act [of lr m E m1 outcome a, OF assms(2)] v by (simp split: if_splits)
        have "active_window sc (agent_now m' a) = None"
          using wait_before_next [OF v act, of _ E m1 outcome lr] d assms(3) agent_now_later [OF d(3), of a]
          by (intro quiet_until_next [OF act]) fastforce+
        with view_given(2) [OF v] view_schedule [of m' SCHEDULE_SYNC_GRACE a] show ?thesis by auto
      qed
    qed
    then show ?thesis using enforcement_turn_act [of lr m' E m1' outcome' a, OF cool] by auto
  qed
  with enforcement_wait_bounds [of E m m1 outcome a lr] assms(3) show ?thesis by blast
qed

definition waiting_agent :: agent where
  "waiting_agent = (sy_agent sample_boot)
     \<lparr>ag_sync := \<lparr> confirmed = True, since = 0 \<rparr>,
      ag_schedule := Some (sample_schedule\<lparr>windows := [\<lparr> off_at = seconds 30, on_at = seconds 90 \<rparr>]\<rparr>)\<rparr>"

lemma waiting_agent_turn:
  "en_action (enforcement_turn sample_agent_env (sample_moment 0) (sample_moment 0) PowerDone (waiting_agent, None)) = None"
  "en_wait (enforcement_turn sample_agent_env (sample_moment 0) (sample_moment 0) PowerDone (waiting_agent, None)) = seconds 30"
proof -
  let ?sc = "sample_schedule\<lparr>windows := [\<lparr> off_at = seconds 30, on_at = seconds 90 \<rparr>]\<rparr>"
  have now: "agent_now (sample_moment 0) waiting_agent = 0"
    by (simp add: waiting_agent_def agent_now_def trusted_now_def sample_boot_sel clock_new_def sample_moment_def millis_def)
  have view: "enforcement_view (sample_moment 0) SCHEDULE_SYNC_GRACE waiting_agent = (Some ?sc, None)"
    by (simp add: waiting_agent_def enforcement_view_def enforcement_ready_def sample_boot_sel clock_new_def is_ready_def Let_def)
  have quiet: "active_window ?sc 0 = None" by (simp add: active_window_def in_window_def seconds_def)
  have "next_off_at ?sc 0 = Some (seconds 30)" by (simp add: next_off_at_def seconds_def)
  with now view quiet show
    "en_action (enforcement_turn sample_agent_env (sample_moment 0) (sample_moment 0) PowerDone (waiting_agent, None)) = None"
    "en_wait (enforcement_turn sample_agent_env (sample_moment 0) (sample_moment 0) PowerDone (waiting_agent, None)) = seconds 30"
    by (simp_all add: enforcement_turn_action enforcement_start_def enforcement_look_def ENFORCEMENT_MAX_WAIT_def seconds_def)
qed

theorem enforcement_never_oversleeps_witness:
  "0 \<le> seconds 30 \<and> seconds 30 \<le> seconds 60 \<and>
   en_action (enforcement_turn sample_agent_env (sample_moment (seconds 29)) (sample_moment (seconds 29)) PowerDone
     (waiting_agent, None)) = None"
proof -
  have "0 \<le> seconds 29 \<and> seconds 29 < seconds 30 \<and>
      sys (sample_moment (seconds 29)) = sys (sample_moment 0) + seconds 29 \<and>
      mono (sample_moment (seconds 29)) = mono (sample_moment 0) + seconds 29"
    by (simp add: sample_moment_def seconds_def)
  with enforcement_never_oversleeps [OF waiting_agent_turn(1) _ waiting_agent_turn(2) [symmetric]]
  show ?thesis by blast
qed

section \<open>Delivering a batch\<close>

text \<open>
  What becomes of a stored entry, given what the controller answered for the deliveries of the batch (the
  first answer for its row, as the results are paired with the batch by position).
\<close>

definition delivery_outcome ::
  "datetime \<Rightarrow> (pending_delivery \<times> event_result_status) list \<Rightarrow> pending_entry \<Rightarrow> pending_entry option" where
  "delivery_outcome now answers x =
     (case find (\<lambda>(p, _). pd_row_id p = pe_id x) answers of
        None \<Rightarrow> Some x
      | Some (p, Rejected) \<Rightarrow>
          (let n = Suc (unat (pd_attempt_count p)) in
           if n \<ge> unat MAX_ATTEMPTS then None
           else Some (x\<lparr>pe_attempts := n, pe_next := now + backoff_delay (of_nat n)\<rparr>))
      | Some (p, _) \<Rightarrow> None)"

definition settle :: "datetime \<Rightarrow> pending_entry list \<Rightarrow> pending_delivery \<times> event_result_status \<Rightarrow> pending_entry list" where
  "settle now es = (\<lambda>(p, st).
     if st = Rejected then fail_entry (pd_row_id p) (unat (pd_attempt_count p)) now es
     else filter (\<lambda>x. pe_id x \<noteq> pd_row_id p) es)"

lemma map_filter_filter: "List.map_filter f (filter P xs) = List.map_filter (\<lambda>x. if P x then f x else None) xs"
  by (induction xs) (simp_all split: option.split)

lemma map_filter_map: "List.map_filter f (map g xs) = List.map_filter (f \<circ> g) xs"
  by (induction xs) (simp_all split: option.split)

lemma map_filter_Some: "List.map_filter Some xs = xs"
  by (induction xs) (simp_all add: map_filter_def)

lemma outcome_keeps_id:
  assumes "pe_id y = pe_id x" "pd_row_id p \<noteq> pe_id x"
  shows "delivery_outcome now ((p, st) # rest) x = delivery_outcome now rest x"
  using assms by (simp add: delivery_outcome_def)

lemma outcome_unanswered:
  "pe_id x \<notin> (\<lambda>(p, _). pd_row_id p) ` set answers \<Longrightarrow> delivery_outcome now answers x = Some x"
proof -
  assume "pe_id x \<notin> (\<lambda>(p, _). pd_row_id p) ` set answers"
  then have "find (\<lambda>(p, _). pd_row_id p = pe_id x) answers = None"
    by (force simp: find_None_iff)
  then show ?thesis by (simp add: delivery_outcome_def)
qed

lemma settle_all:
  "distinct (map (\<lambda>(p, _). pd_row_id p) answers) \<Longrightarrow>
   foldl (settle now) es answers = List.map_filter (delivery_outcome now answers) es"
proof (induction answers arbitrary: es)
  case Nil
  then show ?case by (simp add: delivery_outcome_def map_filter_Some)
next
  case (Cons ans rest)
  obtain p st where ans: "ans = (p, st)" by fastforce
  let ?i = "pd_row_id p" and ?n = "Suc (unat (pd_attempt_count p))"
  have tail: "delivery_outcome now rest x = Some x" if "pe_id x = ?i" for x
    using Cons.prems that by (intro outcome_unanswered) (auto simp: ans)
  have head: "delivery_outcome now ((p, st) # rest) x =
      (if st = Rejected \<and> ?n < unat MAX_ATTEMPTS
       then Some (x\<lparr>pe_attempts := ?n, pe_next := now + backoff_delay (of_nat ?n)\<rparr>) else None)" if "pe_id x = ?i" for x
    using that by (cases st) (simp_all add: delivery_outcome_def Let_def not_less del: of_nat_Suc)
  have other: "delivery_outcome now ((p, st) # rest) x = delivery_outcome now rest x" if "pe_id x \<noteq> ?i" for x
    using that by (auto intro: outcome_keeps_id)
  have "foldl (settle now) es (ans # rest) = List.map_filter (delivery_outcome now rest) (settle now es (p, st))"
    using Cons.IH [of "settle now es (p, st)"] Cons.prems by (simp add: ans)
  also have "\<dots> = List.map_filter (delivery_outcome now ((p, st) # rest)) es"
  proof (cases "st = Rejected \<and> ?n < unat MAX_ATTEMPTS")
    case True
    let ?g = "\<lambda>x. if pe_id x = ?i then x\<lparr>pe_attempts := ?n, pe_next := now + backoff_delay (of_nat ?n)\<rparr> else x"
    have "settle now es (p, st) = map ?g es" using True by (simp add: settle_def fail_entry_def del: of_nat_Suc)
    moreover have "(delivery_outcome now rest \<circ> ?g) x = delivery_outcome now ((p, st) # rest) x" for x
      using True head [of x] other [of x] tail [of "?g x"] by (cases "pe_id x = ?i") simp_all
    ultimately show ?thesis by (metis (no_types, lifting) ext map_filter_map)
  next
    case False
    then have "settle now es (p, st) = filter (\<lambda>x. pe_id x \<noteq> ?i) es"
      by (auto simp: settle_def fail_entry_def)
    moreover have "(\<lambda>x. if pe_id x \<noteq> ?i then delivery_outcome now rest x else None) = delivery_outcome now ((p, st) # rest)"
      using False head other by (auto simp: fun_eq_iff)
    ultimately show ?thesis by (simp only: map_filter_filter)
  qed
  finally show ?case by (simp add: ans)
qed

lemma read_due_rows:
  assumes "queue_lawful (queue_at E m)" "queue_rep (queue_at E m) es (ag_queue a)" "rfc_range (sys m)"
  shows "distinct (map pd_row_id (read_due E m a))"
    "p \<in> set (read_due E m a) \<Longrightarrow> unat (pd_attempt_count p) < unat MAX_ATTEMPTS"
proof -
  from sqlite_queue.due_stored [OF assms, of EVENT_BATCH_SIZE] obtain es' where
    perm: "mset es' = mset es" and
    rows: "read_due E m a = map delivery_of (due_entries es' (sys m) EVENT_BATCH_SIZE)"
    by (auto simp: read_due_def)
  have "distinct (map pe_id es')"
    using sqlite_queue.stored_ids [OF assms(2)] perm by (metis mset_eq_imp_distinct_iff mset_map)
  then have "distinct (map pe_id (due_entries es' (sys m) EVENT_BATCH_SIZE))"
    by (auto simp: due_entries_def distinct_map inj_on_def dest!: in_set_takeD)
  then show "distinct (map pd_row_id (read_due E m a))"
    unfolding rows by (simp add: delivery_of_def comp_def)
  show "unat (pd_attempt_count p) < unat MAX_ATTEMPTS" if "p \<in> set (read_due E m a)"
  proof -
    have "due_batch (queue_at E m) (ag_queue a) (sys m) EVENT_BATCH_SIZE = Inr (read_due E m a)"
      using sqlite_queue.due_stored [OF assms, of EVENT_BATCH_SIZE] by (auto simp: read_due_def)
    from sqlite_queue.due_deliveries_stored [OF assms this that] sqlite_queue.stored_attempts [OF assms(2)]
    show ?thesis by fastforce
  qed
qed

lemma failed_settles:
  assumes "queue_lawful Q" "queue_rep Q es q" "rfc_range now" "rfc_range (now + seconds 1800)"
    "unat (pd_attempt_count p) < unat MAX_ATTEMPTS"
  shows "queue_rep Q (settle now es (p, Rejected)) (fst (mark_failed Q q (pd_row_id p) (pd_attempt_count p) now))"
proof -
  let ?a = "unat (pd_attempt_count p)"
  have a: "?a < 2 ^ 32 - 1" using assms(5) by (simp add: MAX_ATTEMPTS_def)
  from sqlite_queue.failed_stores [OF assms(1,2) a backoff_delay_range [OF a assms(3,4)], of "pd_row_id p"]
  show ?thesis by (auto simp: settle_def)
qed

lemma mark_result_settles:
  assumes "queue_lawful Q" "queue_rep Q es q" "rfc_range now" "rfc_range (now + seconds 1800)"
    "unat (pd_attempt_count p) < unat MAX_ATTEMPTS"
  shows "queue_rep Q (settle now es (p, er_status res)) (mark_result Q now q (p, res))"
  using failed_settles [OF assms] sqlite_queue.delivered_stores [OF assms(1,2), of "pd_row_id p"]
  by (cases "er_status res") (auto simp: mark_result_def settle_def)

text \<open>Both outcomes of a submission mark the rows one by one; each step settles one row.\<close>

lemma fold_settles:
  assumes "\<And>es q x. queue_rep Q es q \<Longrightarrow> x \<in> set xs \<Longrightarrow> queue_rep Q (settle now es (answer x)) (f q x)"
    "queue_rep Q es q"
  shows "queue_rep Q (foldl (settle now) es (map answer xs)) (foldl f q xs)"
  using assms by (induction xs arbitrary: es q) auto

lemma finish_delivery_queue:
  assumes "pending \<noteq> []"
  shows "ag_queue (finish_delivery E m H ch pending a) =
    (case submit_events H (fst ch) (snd ch) \<lparr> sr_events = map (\<lambda>p. to_event_item (pd_event p)) pending \<rparr> of
       Inr response \<Rightarrow> foldl (mark_result (queue_at E m) (sys m)) (ag_queue (note_connected E m (base_url (fst ch)) a))
                         (zip pending (es_results response))
     | Inl err \<Rightarrow> foldl (\<lambda>q p. fst (mark_failed (queue_at E m) q (pd_row_id p) (pd_attempt_count p) (sys m)))
                         (ag_queue (note_disconnected E m (error_text err) a)) pending)"
  using assms by (simp add: finish_delivery_def Let_def split: sum.split)

lemma zip_answers: "map (\<lambda>(p, res). (p, er_status res)) (zip ps rs) = zip ps (map er_status rs)"
  by (simp add: zip_map2)

lemma distinct_zip_rows: "distinct (map pd_row_id ps) \<Longrightarrow> distinct (map (\<lambda>(p, _). pd_row_id p) (zip ps rs))"
proof -
  have "map (\<lambda>(p, _). pd_row_id p) (zip ps rs) = take (length rs) (map pd_row_id ps)"
    by (induction ps rs rule: list_induct2') simp_all
  then show "distinct (map pd_row_id ps) \<Longrightarrow> ?thesis" by (simp only: distinct_take)
qed

lemma finish_delivery_settles:
  assumes "queue_lawful (queue_at E m0)" "queue_rep (ae_queue E) es0 (ag_queue a0)" "rfc_range (sys m0)"
    "pending = read_due E m0 a0" "pending \<noteq> []" "queue_lawful (queue_at E m)" "rfc_range (sys m)" "rfc_range (sys m + seconds 1800)"
  shows "case submit_events H (fst ch) (snd ch) \<lparr> sr_events = map (\<lambda>p. to_event_item (pd_event p)) pending \<rparr> of
      Inr response \<Rightarrow>
        \<forall>es. queue_rep (ae_queue E) es (ag_queue (note_connected E m (base_url (fst ch)) a)) \<longrightarrow>
          queue_rep (ae_queue E)
            (List.map_filter (delivery_outcome (sys m) (zip pending (map er_status (es_results response)))) es)
            (ag_queue (finish_delivery E m H ch pending a))
    | Inl err \<Rightarrow>
        \<forall>es. queue_rep (ae_queue E) es (ag_queue (note_disconnected E m (error_text err) a)) \<longrightarrow>
          queue_rep (ae_queue E) (List.map_filter (delivery_outcome (sys m) (map (\<lambda>p. (p, Rejected)) pending)) es)
            (ag_queue (finish_delivery E m H ch pending a))"
proof -
  let ?Q = "queue_at E m" and ?now = "sys m"
  have "queue_rep (queue_at E m0) es0 (ag_queue a0)" using assms(2) by simp
  note rows = read_due_rows [OF assms(1) this assms(3), folded assms(4)]
  show ?thesis
  proof (cases "submit_events H (fst ch) (snd ch) \<lparr> sr_events = map (\<lambda>p. to_event_item (pd_event p)) pending \<rparr>")
    case (Inl err)
    have "queue_rep ?Q (List.map_filter (delivery_outcome ?now (map (\<lambda>p. (p, Rejected)) pending)) es)
            (ag_queue (finish_delivery E m H ch pending a))"
      if "queue_rep ?Q es (ag_queue (note_disconnected E m (error_text err) a))" for es
      using fold_settles [of ?Q pending ?now "\<lambda>p. (p, Rejected)", OF failed_settles [OF assms(6) _ assms(7,8) rows(2)] that]
        settle_all [of "map (\<lambda>p. (p, Rejected)) pending" ?now es] rows(1)
      by (simp add: finish_delivery_queue [OF assms(5)] Inl comp_def)
    then show ?thesis using Inl by simp
  next
    case (Inr response)
    let ?prs = "zip pending (es_results response)"
    have step: "queue_rep ?Q (settle ?now es ((\<lambda>(p, res). (p, er_status res)) x)) (mark_result ?Q ?now q x)"
      if "queue_rep ?Q es q" "x \<in> set ?prs" for es q x
    proof -
      obtain p res where x: "x = (p, res)" by fastforce
      with that(2) have "p \<in> set pending" by (auto dest: set_zip_leftD)
      from mark_result_settles [OF assms(6) that(1) assms(7,8) rows(2) [OF this]] show ?thesis by (simp add: x)
    qed
    have "queue_rep ?Q (List.map_filter (delivery_outcome ?now (zip pending (map er_status (es_results response)))) es)
            (ag_queue (finish_delivery E m H ch pending a))"
      if "queue_rep ?Q es (ag_queue (note_connected E m (base_url (fst ch)) a))" for es
      using fold_settles [where xs = ?prs and f = "mark_result ?Q ?now", OF step that] settle_all [OF distinct_zip_rows [OF rows(1)], of ?now es "map er_status (es_results response)"]
      by (simp add: finish_delivery_queue [OF assms(5)] Inr zip_answers)
    then show ?thesis using Inr by simp
  qed
qed

text \<open>
  Property C14. Delivery does to each stored event exactly what the controller answered for it. For a batch that was read from the queue
  (any number of events may have been queued in between), if the submission is answered, an event accepted or already known is
  removed, a rejected one has its attempt counted and is put off by the next delay, or discarded after the last
  attempt, and every event the answer does not reach is left as it was; if the submission
  fails, every event of the batch has a failed attempt counted. No other event is touched.
\<close>

theorem delivery_follows_answers:
  assumes "queue_lawful (queue_at E m0)" "queue_rep (ae_queue E) es0 (ag_queue a0)" "rfc_range (sys m0)"
    "pending = read_due E m0 a0" "pending \<noteq> []" "queue_lawful (queue_at E m)" "rfc_range (sys m)" "rfc_range (sys m + seconds 1800)"
  shows "case submit_events H (fst ch) (snd ch) \<lparr> sr_events = map (\<lambda>p. to_event_item (pd_event p)) pending \<rparr> of
      Inr response \<Rightarrow>
        \<forall>es. queue_rep (ae_queue E) es (ag_queue (note_connected E m (base_url (fst ch)) a)) \<longrightarrow>
          queue_rep (ae_queue E)
            (List.map_filter (delivery_outcome (sys m) (zip pending (map er_status (es_results response)))) es)
            (ag_queue (finish_delivery E m H ch pending a))
    | Inl err \<Rightarrow>
        \<forall>es. queue_rep (ae_queue E) es (ag_queue (note_disconnected E m (error_text err) a)) \<longrightarrow>
          queue_rep (ae_queue E) (List.map_filter (delivery_outcome (sys m) (map (\<lambda>p. (p, Rejected)) pending)) es)
            (ag_queue (finish_delivery E m H ch pending a))"
  by (rule finish_delivery_settles [OF assms])

definition sample_answer_net :: "event_result_status list \<Rightarrow> client_env" where
  "sample_answer_net statuses = (sample_controller_net None)
     \<lparr>dec_submission := (\<lambda>_. Some \<lparr> es_accepted = 0, es_duplicates = 0, es_rejected = 0,
        es_results = map (\<lambda>st. \<lparr> er_event_id = 7, er_status = st, er_reason = None \<rparr>) statuses \<rparr>)\<rparr>"

definition queueing_agent :: agent where
  "queueing_agent = (sy_agent sample_boot)\<lparr>ag_queue := sample_queue, ag_connected := True\<rparr>"

lemma sample_read_due:
  "read_due sample_agent_env (sample_moment 0) queueing_agent = [delivery_of (entry_of 1 (sample_event 7) 0)]"
proof -
  have rep: "queue_rep sample_queue_env [entry_of 1 (sample_event 7) 0] (ag_queue queueing_agent)"
    using sample_queue_rep by (simp add: queueing_agent_def)
  from sqlite_queue.due_stored [OF sample_queue_lawful rep rfc_range_sample, of EVENT_BATCH_SIZE] show ?thesis
    by (auto simp: read_due_def sample_queue_at [of 0, unfolded sample_moment_def] sample_moment_def due_entries_def entry_of_def
        EVENT_BATCH_SIZE_def)
qed

theorem delivery_follows_answers_witness:
  "read_due sample_agent_env (sample_moment 0) queueing_agent = [delivery_of (entry_of 1 (sample_event 7) 0)] \<and>
   (\<forall>st. queue_rep sample_queue_env
      (case st of Rejected \<Rightarrow> [(entry_of 1 (sample_event 7) 0)\<lparr>pe_attempts := 1, pe_next := backoff_delay 1\<rparr>] | _ \<Rightarrow> [])
      (ag_queue (finish_delivery sample_agent_env (sample_moment 0) (sample_answer_net [st]) (client_new ''http://c'', 7)
         (read_due sample_agent_env (sample_moment 0) queueing_agent) queueing_agent)))"
proof -
  let ?E = sample_agent_env and ?m = "sample_moment 0" and ?ch = "(client_new ''http://c'', 7 :: uuid)"
  let ?e = "entry_of 1 (sample_event 7) 0"
  have lawful: "queue_lawful (queue_at ?E ?m)" by (simp add: sample_queue_lawful)
  have env: "queue_rep (ae_queue ?E) [?e] (ag_queue queueing_agent)" "rfc_range (sys ?m)" "rfc_range (sys ?m + seconds 1800)"
    using sample_queue_rep
    by (simp_all add: sample_agent_env_def queueing_agent_def sample_moment_def)
      (simp add: rfc_range_def rfc_min_def rfc_end_def seconds_def)
  have answered: "submit_events (sample_answer_net [st]) (fst ?ch) (snd ?ch) rq =
      Inr \<lparr> es_accepted = 0, es_duplicates = 0, es_rejected = 0,
        es_results = [\<lparr> er_event_id = 7, er_status = st, er_reason = None \<rparr>] \<rparr>" for st rq
    by (simp add: submit_events_def call_def parse_response_def is_success_def sample_answer_net_def sample_controller_net_def)
  have quiet: "ag_queue (note_connected ?E ?m url queueing_agent) = ag_queue queueing_agent" for url
    by (simp add: note_connected_def queueing_agent_def)
  have out: "List.map_filter (delivery_outcome 0 [(delivery_of ?e, st)]) [?e] =
      (case st of Rejected \<Rightarrow> [?e\<lparr>pe_attempts := 1, pe_next := backoff_delay 1\<rparr>] | _ \<Rightarrow> [])" for st
    by (cases st) (simp_all add: delivery_outcome_def delivery_of_def entry_of_def MAX_ATTEMPTS_def)
  have "queue_rep (ae_queue ?E) (case st of Rejected \<Rightarrow> [?e\<lparr>pe_attempts := 1, pe_next := backoff_delay 1\<rparr>] | _ \<Rightarrow> [])
      (ag_queue (finish_delivery ?E ?m (sample_answer_net [st]) ?ch (read_due ?E ?m queueing_agent) queueing_agent))" for st
  proof -
    have "queue_rep (ae_queue ?E) (List.map_filter (delivery_outcome (sys ?m) [(delivery_of ?e, st)]) [?e])
      (ag_queue (finish_delivery ?E ?m (sample_answer_net [st]) ?ch (read_due ?E ?m queueing_agent) queueing_agent))"
      using delivery_follows_answers [OF lawful env(1,2) refl _ lawful env(2,3), where H = "sample_answer_net [st]" and ch = ?ch and a = queueing_agent]
        env(1) answered quiet by (simp add: sample_read_due del: map_filter_simps)
    then show ?thesis by (simp only: out sample_moment_def moment.simps)
  qed
  then show ?thesis using sample_read_due by (simp add: sample_agent_env_def)
qed

section \<open>Keeping the clock right\<close>

lemma clock_measure_result:
  assumes "mono m \<ge> cl_next_sync cl" "measure_offset N (ntp_servers (ag_config a)) = Some off"
  shows "clock_measure_turn m m' N (cl, a) =
    (\<lparr> cl_last_system = sys m', cl_last_tick = mono m', cl_next_sync = mono m' + CLOCK_RESYNC_INTERVAL \<rparr>,
     a\<lparr>ag_clock := set_offset_ms off (ag_clock a), ag_schedule_changed := True\<rparr>)"
  using assms by (simp add: clock_measure_turn_def)

lemma jump_noticed:
  assumes "\<bar>(sys m - cl_last_system cl) - (mono m - cl_last_tick cl)\<bar> > CLOCK_JUMP_THRESHOLD"
  shows "fst (clock_wake_turn m WatchTick (cl, a)) =
      \<lparr> cl_last_system = sys m, cl_last_tick = mono m, cl_next_sync = mono m \<rparr>"
    "snd (clock_wake_turn m WatchTick (cl, a)) = a"
  using assms by (simp_all add: clock_wake_turn_def Let_def)

text \<open>
  Property C9. Moving the system clock does not move the agent's clock for long. When a watch tick finds that the system clock has
  moved by more than five seconds against the monotonic one, the very next turn of the clock loop measures; if most of the
  servers that answer it agree on the real time (\<open>\<theta>\<close> milliseconds ahead of the system clock), the time the agent then reads is
  within a second and a half of the real time, the clock counts as checked, and the enforcement loop is woken. If no server can be
  asked, the clock is left as it was and the next attempt is at most five minutes away.
\<close>

theorem clock_jump_corrected:
  assumes "\<bar>(sys m - cl_last_system cl) - (mono m - cl_last_tick cl)\<bar> > seconds 5" "mono m1 \<ge> mono m"
    "clock_measure_turn m1 m2 N (clock_wake_turn m WatchTick (cl, a)) = (cl2, a2)"
  shows "(length (filter (\<lambda>s. \<exists>off. query N s = Inr off) (ntp_servers (ag_config a)))
      < 2 * length (filter (\<lambda>s. (\<exists>off. query N s = Inr off) \<and> honest N \<theta> s) (ntp_servers (ag_config a))) \<longrightarrow>
      (\<forall>now. \<bar>agent_now now a2 - (sys now + millis \<theta>)\<bar> \<le> millis 1500) \<and>
      is_ready (ag_clock a2) \<and> ag_schedule_changed a2) \<and>
    (measure_offset N (ntp_servers (ag_config a)) = None \<longrightarrow>
      ag_clock a2 = ag_clock a \<and> cl_next_sync cl2 \<le> mono m2 + seconds 300)"
proof -
  let ?servers = "ntp_servers (ag_config a)"
  let ?cl = "fst (clock_wake_turn m WatchTick (cl, a))"
  have jump: "\<bar>(sys m - cl_last_system cl) - (mono m - cl_last_tick cl)\<bar> > CLOCK_JUMP_THRESHOLD"
    using assms(1) by (simp add: CLOCK_JUMP_THRESHOLD_def)
  note woken = jump_noticed [OF jump, of a]
  have now: "mono m1 \<ge> cl_next_sync ?cl" using assms(2) by (simp add: woken)
  have turn: "clock_measure_turn m1 m2 N (?cl, a) = (cl2, a2)"
    using assms(3) woken(2) by (metis prod.collapse)
  have "(\<forall>now. \<bar>agent_now now a2 - (sys now + millis \<theta>)\<bar> \<le> millis 1500) \<and> is_ready (ag_clock a2) \<and> ag_schedule_changed a2"
    if maj: "length (filter (\<lambda>s. \<exists>off. query N s = Inr off) ?servers)
      < 2 * length (filter (\<lambda>s. (\<exists>off. query N s = Inr off) \<and> honest N \<theta> s) ?servers)"
  proof -
    from measure_offset_majority [OF maj] obtain off where
      off: "measure_offset N ?servers = Some off" "\<bar>off - \<theta>\<bar> \<le> 1500" by blast
    from clock_measure_result [OF now off(1), of m2] turn
    have "a2 = a\<lparr>ag_clock := set_offset_ms off (ag_clock a), ag_schedule_changed := True\<rparr>" by simp
    then show ?thesis using off(2)
      by (auto simp: agent_now_def trusted_now_def set_offset_ms_def is_ready_def millis_def abs_if split: if_splits)
  qed
  moreover have "ag_clock a2 = ag_clock a \<and> cl_next_sync cl2 \<le> mono m2 + seconds 300"
    if "measure_offset N ?servers = None"
    using turn that now by (auto simp: clock_measure_turn_def CLOCK_RETRY_INTERVAL_def CLOCK_RETRY_INTERVAL_KNOWN_def
        seconds_def)
  ultimately show ?thesis by blast
qed

definition moved_agent :: agent where
  "moved_agent = (sy_agent sample_boot)
     \<lparr>ag_clock := clock_new True, ag_config := sample_config\<lparr>ntp_servers := [''a'', ''b'', ''c'']\<rparr>\<rparr>"

theorem clock_jump_corrected_witness:
  "\<exists>cl2 a2. clock_measure_turn (sample_moment (seconds 15)) (sample_moment (seconds 16)) (sample_ntp_env sample_times)
       (clock_wake_turn ((sample_moment (seconds 15))\<lparr>sys := seconds 3600\<rparr>) WatchTick
         (clock_loop_start (sample_moment 0), moved_agent)) = (cl2, a2) \<and>
     (\<forall>now. \<bar>agent_now now a2 - (sys now + millis 6000)\<bar> \<le> millis 1500) \<and> is_ready (ag_clock a2)"
proof -
  let ?m = "(sample_moment (seconds 15))\<lparr>sys := seconds 3600\<rparr>" and ?N = "sample_ntp_env sample_times"
  obtain cl2 a2 where turn: "clock_measure_turn (sample_moment (seconds 15)) (sample_moment (seconds 16)) ?N
      (clock_wake_turn ?m WatchTick (clock_loop_start (sample_moment 0), moved_agent)) = (cl2, a2)" by fastforce
  have "length (filter (\<lambda>s. \<exists>off. query ?N s = Inr off) (ntp_servers (ag_config moved_agent)))
      < 2 * length (filter (\<lambda>s. (\<exists>off. query ?N s = Inr off) \<and> honest ?N 6000 s) (ntp_servers (ag_config moved_agent)))"
    by (simp add: moved_agent_def sample_query sample_honest [OF refl] ntp_target_def sample_times_def)
  with clock_jump_corrected [OF _ _ turn, of 6000] turn show ?thesis
    by (auto simp: sample_moment_def clock_loop_start_def seconds_def)
qed

section \<open>Acting when an action is due\<close>

text \<open>
  Property C2. A turn of the enforcement loop acts exactly when it has to: the known schedule is inside an off window at the
  trusted time, the controller has confirmed the schedule and the clock has been checked, or 90 seconds
  have passed without that, and for a shutdown the last request is not less than five minutes old. The action is the
  schedule's, whatever the operating system then makes of it. With the wait's upper bound of a minute, a device
  woken inside an off window is not left on.
\<close>

theorem enforcement_turn_exact:
  "en_action (enforcement_turn E m m1 outcome (a, lr)) = Some act \<longleftrightarrow>
   (\<exists>sc. ag_schedule a = Some sc \<and> action sc = act \<and>
      (\<exists>w \<in> set (windows sc). off_at w \<le> agent_now m a \<and> agent_now m a < on_at w) \<and>
      (confirmed (ag_sync a) \<and> is_ready (ag_clock a) \<or> mono m - since (ag_sync a) \<ge> seconds 90) \<and>
      \<not> (act = Shutdown \<and> (\<exists>t. lr = Some t \<and> mono m - t < seconds 300)))"
  (is "?acts = ?due")
proof
  assume acts: ?acts
  have "\<not> (act = Shutdown \<and> (\<exists>t. lr = Some t \<and> mono m - t < seconds 300))"
    using enforcement_turn_acts(3) [OF refl acts] by (fastforce simp: SHUTDOWN_COOLDOWN_def)
  moreover from enforcement_turn_acts(1) [OF refl acts] obtain sc where
    sc: "ag_schedule a = Some sc" "action sc = act" "active_window sc (agent_now m a) \<noteq> None" by blast
  moreover from sc(3) obtain w where "w \<in> set (windows sc)" "in_window (agent_now m a) w"
    by (auto simp: active_window_None)
  ultimately show ?due using enforcement_turn_acts(2) [OF refl acts] unfolding in_window_def by blast
next
  assume due: ?due
  then obtain sc w where sc: "ag_schedule a = Some sc" "action sc = act" "w \<in> set (windows sc)" "in_window (agent_now m a) w"
    and ready: "confirmed (ag_sync a) \<and> is_ready (ag_clock a) \<or> mono m - since (ag_sync a) \<ge> seconds 90"
    and cool: "\<not> (act = Shutdown \<and> (\<exists>t. lr = Some t \<and> mono m - t < seconds 300))"
    unfolding in_window_def by blast
  have active: "active_window sc (agent_now m a) \<noteq> None" using sc(3,4) by (auto simp: active_window_None)
  have "\<exists>a' lr'. enforcement_start E m (a, lr) = ((a', lr'), Some (action sc), ENFORCEMENT_MAX_WAIT)"
    using ready active cool sc(1,2) by (intro enforcement_start_due) (auto simp: SHUTDOWN_COOLDOWN_def)
  then show ?acts using sc(2) by (auto simp: enforcement_turn_action)
qed

theorem enforcement_turn_exact_witness:
  "en_action (enforcement_turn sample_agent_env (sample_moment (seconds 30)) (sample_moment (seconds 30)) PowerDone
     (waiting_agent, None)) = Some Shutdown"
  unfolding enforcement_turn_exact
  by (simp add: waiting_agent_def sample_schedule_def agent_now_def trusted_now_def is_ready_def sample_boot_sel
      clock_new_def sample_moment_def millis_def seconds_def)

end
