(* ===== verification/Delivery.thy ===== *)
theory Delivery
  imports Agent_Laws
begin

text \<open>
  The delivery loop over several turns (\<^verbatim>\<open>delivery_loop\<close> and \<^verbatim>\<open>deliver_due_batch\<close> of \<^verbatim>\<open>agent/src/agent.rs\<close>): with a controller
  that accepts what it is sent, the queue is emptied of everything that is due, a batch at a time.
\<close>

section \<open>One turn\<close>

text \<open>The controller answers every submission, and for each event with a status other than rejected.\<close>

definition accepts_all :: "client_env \<Rightarrow> client_handle \<Rightarrow> bool" where
  "accepts_all H ch \<longleftrightarrow>
     (\<forall>request. \<exists>response. submit_events H (fst ch) (snd ch) request = Inr response \<and>
        length (es_results response) = length (sr_events request) \<and>
        list_all (\<lambda>res. er_status res \<noteq> Rejected) (es_results response))"

definition turn_ok :: "agent_env \<Rightarrow> client_handle \<Rightarrow> datetime \<Rightarrow> moment \<times> client_env \<Rightarrow> bool" where
  "turn_ok E ch t = (\<lambda>(m, H).
     queue_lawful (queue_at E m) \<and> rfc_range (sys m) \<and> rfc_range (sys m + seconds 1800) \<and> t \<le> sys m \<and> accepts_all H ch)"

lemma outcome_accepted:
  assumes "length sts = length ps" "list_all (\<lambda>st. st \<noteq> Rejected) sts"
  shows "delivery_outcome now (zip ps sts) x = (if pe_id x \<in> pd_row_id ` set ps then None else Some x)"
proof (cases "find (\<lambda>(p, _). pd_row_id p = pe_id x) (zip ps sts)")
  case None
  then have "pe_id x \<notin> pd_row_id ` set ps"
    using assms(1) by (auto simp: find_None_iff elim!: in_set_impl_in_set_zip1 [OF assms(1) [symmetric]])
  with None show ?thesis by (simp add: delivery_outcome_def)
next
  case (Some r)
  obtain p st where r: "r = (p, st)" by fastforce
  with Some have "(p, st) \<in> set (zip ps sts)" "pd_row_id p = pe_id x" by (auto simp: find_Some_iff in_set_conv_nth)
  then have "p \<in> set ps" "pd_row_id p = pe_id x" "st \<noteq> Rejected" using assms(2) by (auto simp: list_all_iff dest: set_zip_leftD set_zip_rightD)
  moreover from this have "pe_id x \<in> pd_row_id ` set ps" by (metis imageI)
  ultimately show ?thesis using Some r by (cases st) (simp_all add: delivery_outcome_def)
qed

lemma read_due_entries:
  assumes "queue_lawful (queue_at E m)" "queue_rep (ae_queue E) es (ag_queue a)" "rfc_range (sys m)"
  obtains batch where "read_due E m a = map delivery_of batch" "set batch \<subseteq> {x \<in> set es. pe_next x \<le> sys m}"
    "distinct (map pe_id batch)" "length batch = min EVENT_BATCH_SIZE (length (filter (\<lambda>x. pe_next x \<le> sys m) es))"
proof -
  have rep: "queue_rep (queue_at E m) es (ag_queue a)" using assms(2) by simp
  from sqlite_queue.due_stored [OF assms(1) rep assms(3), of EVENT_BATCH_SIZE] obtain es' where
    perm: "mset es' = mset es" and rows: "read_due E m a = map delivery_of (due_entries es' (sys m) EVENT_BATCH_SIZE)"
    by (auto simp: read_due_def)
  let ?batch = "due_entries es' (sys m) EVENT_BATCH_SIZE"
  have "x \<in> set es \<and> pe_next x \<le> sys m" if "x \<in> set ?batch" for x
    using in_set_takeD [OF that [unfolded due_entries_def]] by (simp add: mset_eq_setD [OF perm])
  then have "set ?batch \<subseteq> {x \<in> set es. pe_next x \<le> sys m}" by blast
  moreover have "distinct (map pe_id ?batch)"
    using read_due_rows(1) [OF assms(1) rep assms(3)] by (simp add: rows delivery_of_def comp_def)
  moreover have "length (filter P es') = length (filter P es)" for P
    using arg_cong [OF perm, of "\<lambda>M. size (filter_mset P M)"] by (simp flip: mset_filter)
  then have "length ?batch = min EVENT_BATCH_SIZE (length (filter (\<lambda>x. pe_next x \<le> sys m) es))"
    by (simp add: due_entries_def min.commute)
  ultimately show thesis using rows that by blast
qed

lemma accepted_turn:
  assumes "turn_ok E ch t (m, H)" "queue_rep (ae_queue E) es (ag_queue a)" "ag_connected a"
  obtains batch where "queue_rep (ae_queue E) (filter (\<lambda>x. pe_id x \<notin> pe_id ` set batch) es) (ag_queue (deliver_due_batch E m H ch a))"
    "ag_connected (deliver_due_batch E m H ch a)" "set batch \<subseteq> {x \<in> set es. pe_next x \<le> sys m}" "distinct (map pe_id batch)"
    "length batch = min EVENT_BATCH_SIZE (length (filter (\<lambda>x. pe_next x \<le> sys m) es))"
proof -
  from assms(1) have ok: "queue_lawful (queue_at E m)" "rfc_range (sys m)" "rfc_range (sys m + seconds 1800)" "accepts_all H ch"
    by (simp_all add: turn_ok_def)
  from read_due_entries [OF ok(1) assms(2) ok(2)] obtain batch where batch: "read_due E m a = map delivery_of batch"
    "set batch \<subseteq> {x \<in> set es. pe_next x \<le> sys m}" "distinct (map pe_id batch)"
    "length batch = min EVENT_BATCH_SIZE (length (filter (\<lambda>x. pe_next x \<le> sys m) es))" .
  have "queue_rep (ae_queue E) (filter (\<lambda>x. pe_id x \<notin> pe_id ` set batch) es) (ag_queue (deliver_due_batch E m H ch a)) \<and>
      ag_connected (deliver_due_batch E m H ch a)"
  proof (cases "batch = []")
    case True
    with batch(1) assms(2,3) show ?thesis by (simp add: deliver_due_batch_def finish_delivery_def)
  next
    case False
    let ?ps = "map delivery_of batch"
    from ok(4) obtain response where resp: "submit_events H (fst ch) (snd ch) \<lparr> sr_events = map (\<lambda>p. to_event_item (pd_event p)) ?ps \<rparr> = Inr response"
      "length (es_results response) = length batch" "list_all (\<lambda>res. er_status res \<noteq> Rejected) (es_results response)"
      unfolding accepts_all_def by fastforce
    have "List.map_filter (delivery_outcome (sys m) (zip ?ps (map er_status (es_results response)))) es =
        filter (\<lambda>x. pe_id x \<notin> pe_id ` set batch) es"
    proof -
      have out: "delivery_outcome (sys m) (zip ?ps (map er_status (es_results response))) x =
          (if pe_id x \<in> pe_id ` set batch then None else Some x)" for x
        using outcome_accepted [of "map er_status (es_results response)" ?ps "sys m" x] resp(2,3)
        by (simp add: list_all_iff image_image delivery_of_def)
      show ?thesis by (induction es) (simp_all add: out)
    qed
    moreover have "ag_queue (note_connected E m (base_url (fst ch)) a) = ag_queue a" using assms(3) by (simp add: note_connected_def)
    moreover have "ag_connected (finish_delivery E m H ch ?ps a)" using False resp(1) by (simp add: finish_delivery_def note_connected_def Let_def request_flush_def agent_enqueue_def)
    ultimately show ?thesis
      using finish_delivery_settles [OF ok(1) assms(2) ok(2) refl _ ok(1-3), where H = H and ch = ch and a = a] False resp(1) assms(2) batch(1)
      by (auto simp: deliver_due_batch_def)
  qed
  with batch that show thesis by blast
qed

section \<open>Turn after turn\<close>

definition deliver_turns :: "agent_env \<Rightarrow> client_handle \<Rightarrow> (moment \<times> client_env) list \<Rightarrow> agent \<Rightarrow> agent" where
  "deliver_turns E ch turns a = foldl (\<lambda>a (m, H). deliver_due_batch E m H ch a) a turns"

lemma removed_length:
  assumes "distinct (map pe_id es)" "distinct (map pe_id batch)" "set batch \<subseteq> set es"
  shows "length (filter (\<lambda>x. pe_id x \<notin> pe_id ` set batch) es) + length batch = length es"
proof -
  have inj: "pe_id x \<in> pe_id ` set batch \<longleftrightarrow> x \<in> set batch" if "x \<in> set es" for x
    using assms(1,3) that by (auto simp: distinct_map inj_on_def)
  then have "filter (\<lambda>x. pe_id x \<in> pe_id ` set batch) es = filter (\<lambda>x. x \<in> set batch) es" by (auto intro: filter_cong)
  moreover have "length (filter (\<lambda>x. x \<in> set batch) es) = length batch"
  proof -
    have "distinct (filter (\<lambda>x. x \<in> set batch) es)" "distinct batch" using assms(1,2) by (auto simp: distinct_map)
    moreover have "set (filter (\<lambda>x. x \<in> set batch) es) = set batch" using assms(3) by auto
    ultimately show ?thesis by (metis distinct_card)
  qed
  ultimately show ?thesis using sum_length_filter_compl [of "\<lambda>x. pe_id x \<in> pe_id ` set batch" es] by simp
qed

lemma deliver_turns_progress:
  assumes "list_all (turn_ok E ch t) turns" "queue_rep (ae_queue E) es (ag_queue a)" "ag_connected a"
  shows "\<exists>es'. queue_rep (ae_queue E) es' (ag_queue (deliver_turns E ch turns a)) \<and> set es' \<subseteq> set es \<and>
    {x \<in> set es. \<forall>(m, H) \<in> set turns. sys m < pe_next x} \<subseteq> set es' \<and>
    (length es' + EVENT_BATCH_SIZE * length turns \<le> length es \<or> (\<forall>x \<in> set es'. t < pe_next x))"
  using assms
proof (induction turns arbitrary: es a)
  case Nil
  then show ?case by (auto simp: deliver_turns_def)
next
  case (Cons turn turns)
  obtain m H where turn: "turn = (m, H)" by fastforce
  from Cons.prems(1) have ok: "turn_ok E ch t (m, H)" "list_all (turn_ok E ch t) turns" by (simp_all add: turn)
  let ?due = "filter (\<lambda>x. pe_next x \<le> sys m) es"
  from accepted_turn [OF ok(1) Cons.prems(2,3)] obtain batch where
    rep: "queue_rep (ae_queue E) (filter (\<lambda>x. pe_id x \<notin> pe_id ` set batch) es) (ag_queue (deliver_due_batch E m H ch a))" and
    connected: "ag_connected (deliver_due_batch E m H ch a)" and
    batch: "set batch \<subseteq> {x \<in> set es. pe_next x \<le> sys m}" "distinct (map pe_id batch)"
      "length batch = min EVENT_BATCH_SIZE (length ?due)" .
  let ?es = "filter (\<lambda>x. pe_id x \<notin> pe_id ` set batch) es"
  from Cons.IH [OF ok(2) rep connected] obtain es' where
    es': "queue_rep (ae_queue E) es' (ag_queue (deliver_turns E ch turns (deliver_due_batch E m H ch a)))" "set es' \<subseteq> set ?es"
      "{x \<in> set ?es. \<forall>(m, H) \<in> set turns. sys m < pe_next x} \<subseteq> set es'"
      "length es' + EVENT_BATCH_SIZE * length turns \<le> length ?es \<or> (\<forall>x \<in> set es'. t < pe_next x)" by blast
  from Cons.prems(2) have distinct: "distinct (map pe_id es)" by (simp add: queue_rep_def)
  have len: "length ?es + length batch = length es" using removed_length [OF distinct batch(2)] batch(1) by auto
  have kept: "{x \<in> set es. sys m < pe_next x} \<subseteq> set ?es"
  proof
    fix x
    assume x: "x \<in> {x \<in> set es. sys m < pe_next x}"
    have "pe_id x \<noteq> pe_id y" if "y \<in> set batch" for y
    proof -
      from that batch(1) have "y \<in> set es" "pe_next y \<le> sys m" by auto
      with x distinct show ?thesis by (auto simp: distinct_map inj_on_def)
    qed
    with x show "x \<in> set ?es" by auto
  qed
  have progress: "length es' + EVENT_BATCH_SIZE * length (turn # turns) \<le> length es \<or> (\<forall>x \<in> set es'. t < pe_next x)"
  proof (cases "length batch = EVENT_BATCH_SIZE")
    case True
    with es'(4) len show ?thesis by auto
  next
    case False
    have "set batch = set ?due"
    proof (rule card_subset_eq)
      have "distinct ?due" "distinct batch" using distinct batch(2) by (auto simp: distinct_map)
      then have "card (set ?due) = length ?due" "card (set batch) = length batch" by (simp_all only: distinct_card)
      then show "card (set batch) = card (set ?due)" using batch(3) False by auto
    qed (use batch(1) in auto)
    then have "\<forall>x \<in> set ?es. sys m < pe_next x" by force
    then show ?thesis using es'(2) ok(1) by (fastforce simp: turn_ok_def)
  qed
  have "{x \<in> set es. \<forall>(m, H) \<in> set (turn # turns). sys m < pe_next x} \<subseteq> set es'" using es'(3) kept by (auto simp: turn)
  with es'(1,2) progress show ?case
    by (intro exI [of _ es']) (auto simp: deliver_turns_def turn)
qed

section \<open>Property\<close>

text \<open>
  Property C38. A backlog is delivered: however many events wait in the queue, once the agent is connected to a controller that
  accepts what it is sent, one delivery turn for each hundred of them (rounded up) removes every event that was due by a time \<open>t\<close> that is not later
  than any of the turns; the turns may come at any such times. Nothing else is removed: what is left was in the queue before, and
  an event whose next attempt lies after all of the turns is still there.
\<close>

theorem backlog_delivered:
  assumes "list_all (turn_ok E ch t) turns" "queue_rep (ae_queue E) es (ag_queue a)" "ag_connected a"
    "length es \<le> EVENT_BATCH_SIZE * length turns"
  shows "\<exists>es'. queue_rep (ae_queue E) es' (ag_queue (deliver_turns E ch turns a)) \<and> set es' \<subseteq> set es \<and>
    (\<forall>x \<in> set es'. t < pe_next x) \<and> (\<forall>x \<in> set es. (\<forall>(m, H) \<in> set turns. sys m < pe_next x) \<longrightarrow> x \<in> set es')"
proof -
  from deliver_turns_progress [OF assms(1-3)] obtain es' where
    es': "queue_rep (ae_queue E) es' (ag_queue (deliver_turns E ch turns a))" "set es' \<subseteq> set es"
      "{x \<in> set es. \<forall>(m, H) \<in> set turns. sys m < pe_next x} \<subseteq> set es'"
      "length es' + EVENT_BATCH_SIZE * length turns \<le> length es \<or> (\<forall>x \<in> set es'. t < pe_next x)" by blast
  from es'(4) have "\<forall>x \<in> set es'. t < pe_next x"
  proof
    assume "length es' + EVENT_BATCH_SIZE * length turns \<le> length es"
    with assms(4) have "length es' = 0" by linarith
    then show ?thesis by simp
  qed
  with es' show ?thesis by (intro exI [of _ es']) auto
qed

text \<open>A controller that accepts every event; the body of a request has one character for each.\<close>

definition accepting_net :: client_env where
  "accepting_net = (sample_controller_net None)
     \<lparr>enc_submission := (\<lambda>rq. map (\<lambda>_. CHR ''e'') (sr_events rq)),
      send_request := (\<lambda>rq. Inr \<lparr> rs_status = 200, rs_body = rq_json rq \<rparr>),
      dec_submission := (\<lambda>body. Some \<lparr> es_accepted = 0, es_duplicates = 0, es_rejected = 0,
        es_results = map (\<lambda>_. \<lparr> er_event_id = 7, er_status = Accepted, er_reason = None \<rparr>) body \<rparr>)\<rparr>"

lemma accepting_net_accepts: "accepts_all accepting_net ch"
  unfolding accepts_all_def
  by (simp add: submit_events_def call_def parse_response_def is_success_def accepting_net_def post_request_def list_all_iff)

theorem backlog_delivered_witness:
  "queue_rep sample_queue_env [entry_of 1 (sample_event 7) 0] (ag_queue queueing_agent) \<and>
   queue_rep sample_queue_env [] (ag_queue (deliver_turns sample_agent_env (client_new ''http://c'', 7)
     [(sample_moment 0, accepting_net)] queueing_agent))"
proof -
  let ?E = sample_agent_env and ?ch = "(client_new ''http://c'', 7 :: uuid)" and ?e = "entry_of 1 (sample_event 7) 0"
  have rep: "queue_rep (ae_queue ?E) [?e] (ag_queue queueing_agent)"
    using sample_queue_rep by (simp add: queueing_agent_def sample_agent_env_def)
  have "turn_ok ?E ?ch 0 (sample_moment 0, accepting_net)"
    by (simp add: turn_ok_def accepting_net_accepts sample_queue_lawful)
      (simp add: sample_moment_def rfc_range_def rfc_min_def rfc_end_def seconds_def)
  then have "list_all (turn_ok ?E ?ch 0) [(sample_moment 0, accepting_net)]" by simp
  from backlog_delivered [OF this rep] obtain es' where
    es': "queue_rep (ae_queue ?E) es' (ag_queue (deliver_turns ?E ?ch [(sample_moment 0, accepting_net)] queueing_agent))"
      "set es' \<subseteq> {?e}" "\<forall>x \<in> set es'. 0 < pe_next x"
    by (auto simp: EVENT_BATCH_SIZE_def queueing_agent_def)
  have "es' = []" using es'(2,3) by (cases es') (auto simp: entry_of_def)
  with es'(1) rep show ?thesis by (simp add: sample_agent_env_def)
qed

end
