(* ===== verification/Ipc.thy ===== *)
theory Ipc
  imports Timelord_Prelude
begin

text \<open>
  \<^verbatim>\<open>ipc/src/lib.rs\<close>: the types that cross the local pipe between the agent service and the notifier of
  the logged-on user. Their JSON lines are encoded by serde, which is a parameter where it is used.
\<close>

definition HORIZON_SECONDS :: int where
  "HORIZON_SECONDS = 30 * 60"

datatype request = GetPending | GetMessages

datatype notice_action = ActShutdown | ActRestart | ActSleep | ActLogoff | ActLock | ActBreakStart

datatype notice_reason = ReasonSchedule | ReasonDailyLimit | ReasonMandatoryBreak | ReasonRemoteCommand

record message =
  msg_id :: uuid
  msg_title :: "string option"
  msg_body :: string
  msg_sent_utc :: datetime
  msg_expires_utc :: datetime

record pending_action =
  pa_id :: uuid
  pa_action :: notice_action
  pa_at_utc :: datetime
  pa_reason :: notice_reason

datatype response =
    Pending datetime "pending_action list"
  | Messages datetime "message list"

end
