(* ===== verification/Notify_Pipe.thy ===== *)
theory Notify_Pipe
  imports Agent Ipc
begin

text \<open>
  \<^verbatim>\<open>agent/src/notify_pipe.rs\<close>: the agent's side of the pipe. Every request line is answered from the schedule that
  may be enforced and the live messages, with no state of its own; the server accepts clients one after the other. The identifiers are version 5 UUIDs
  (\<open>new_v5\<close>, a hash of namespace and name, from the uuid crate) and the lines are JSON; both are fields of
  \<open>pipe_env\<close>.
\<close>

section \<open>Operations\<close>

record pipe_env = text_env +
  new_v5 :: "uuid \<Rightarrow> string \<Rightarrow> uuid"
  dec_request :: "string \<Rightarrow> request option"
  enc_response :: "response \<Rightarrow> string option"

definition ID_NAMESPACE :: uuid where
  "ID_NAMESPACE = 0x7b0c3f4e5a1d4c8e9a521e6d4f7ab301"

definition notice_of :: "power_action \<Rightarrow> notice_action" where
  "notice_of act = (case act of Sleep \<Rightarrow> ActSleep | Shutdown \<Rightarrow> ActShutdown)"

text \<open>\<^verbatim>\<open>{:?}\<close>\<close>

fun action_debug :: "notice_action \<Rightarrow> string" where
  "action_debug ActShutdown = ''Shutdown''"
| "action_debug ActRestart = ''Restart''"
| "action_debug ActSleep = ''Sleep''"
| "action_debug ActLogoff = ''Logoff''"
| "action_debug ActLock = ''Lock''"
| "action_debug ActBreakStart = ''BreakStart''"

definition action_id :: "('x) pipe_env_scheme \<Rightarrow> notice_action \<Rightarrow> datetime \<Rightarrow> uuid" where
  "action_id P act at = new_v5 P ID_NAMESPACE (action_debug act @ ''@'' @ to_rfc3339 P at)"

definition upcoming_actions :: "('x) pipe_env_scheme \<Rightarrow> schedule option \<Rightarrow> datetime \<Rightarrow> pending_action list" where
  "upcoming_actions P sched now =
     (case sched of
        None \<Rightarrow> []
      | Some s \<Rightarrow>
          (let horizon = now + seconds HORIZON_SECONDS; act = notice_of (action s)
           in map (\<lambda>w. \<lparr> pa_id = action_id P act (off_at w), pa_action = act, pa_at_utc = off_at w,
                         pa_reason = ReasonSchedule \<rparr>)
                (filter (\<lambda>w. off_at w > now \<and> off_at w \<le> horizon) (windows s))))"

definition to_message :: "agent_message \<Rightarrow> message" where
  "to_message m = \<lparr> msg_id = am_id m, msg_title = am_title m, msg_body = am_body m,
     msg_sent_utc = am_created_at m, msg_expires_utc = am_expires_at m \<rparr>"

definition respond :: "('x) pipe_env_scheme \<Rightarrow> request \<Rightarrow> schedule option \<Rightarrow> agent_message list \<Rightarrow> datetime \<Rightarrow> response" where
  "respond P rq sched msgs now =
     (case rq of
        GetPending \<Rightarrow> Pending now (upcoming_actions P sched now)
      | GetMessages \<Rightarrow> Messages now (map to_message (filter (\<lambda>m. am_expires_at m > now) msgs)))"

definition handle_line ::
  "('x) pipe_env_scheme \<Rightarrow> string \<Rightarrow> schedule option \<Rightarrow> agent_message list \<Rightarrow> datetime \<Rightarrow> string option" where
  "handle_line P line sched msgs now =
     (case dec_request P line of
        None \<Rightarrow> None
      | Some rq \<Rightarrow> enc_response P (respond P rq sched msgs now))"

section \<open>The server\<close>

text \<open>
  A connection: what \<^verbatim>\<open>lines.next_line()\<close> returned, with the agent as it was then, and whether the answer could be written.
  A line without an answer is skipped; the end of the input, a failed read and a failed write end the connection.
\<close>

datatype line_read = Line string | EndOfInput | ReadFailed

fun serve_connection :: "('x) pipe_env_scheme \<Rightarrow> (moment \<times> agent \<times> line_read \<times> bool) list \<Rightarrow> string list" where
  "serve_connection P [] = []"
| "serve_connection P ((m, a, Line line, writable) # rest) =
     (case handle_line P line (schedule_for_notices m a) (live_messages m a) (agent_now m a) of
        None \<Rightarrow> serve_connection P rest
      | Some out \<Rightarrow> if writable then (out @ [CHR 0x0A]) # serve_connection P rest else [])"
| "serve_connection P ((m, a, _, writable) # rest) = []"

text \<open>
  The pipe's access list: system and administrators have full control, authenticated users the rights below.
\<close>

definition SDDL :: string where
  "SDDL = ''D:(A;;0x12008b;;;AU)(A;;GA;;;SY)(A;;GA;;;BA)''"

text \<open>
  Creating a pipe instance: the access list is converted first, then the instance is made; either call can fail. Each
  round of the server waits for a client (a failed wait only costs a second), makes the next instance and only then hands
  the connected one to its own task. If the next instance cannot be made the server is over, and the client just connected is dropped with it.
\<close>

record create_answer =
  ca_convert :: "string option"
  ca_pipe :: "string option"

definition create :: "create_answer \<Rightarrow> string + unit" where
  "create ca = (case ca_convert ca of Some e \<Rightarrow> Inl e
                | None \<Rightarrow> (case ca_pipe ca of Some e \<Rightarrow> Inl e | None \<Rightarrow> Inr ()))"

datatype serve_event = Created bool "string option" | Connected "string option" | HandedOff

fun accept_rounds :: "(string option \<times> create_answer) list \<Rightarrow> serve_event list \<times> bool" where
  "accept_rounds [] = ([], True)"
| "accept_rounds ((connect, ca) # rest) =
     (case create ca of
        Inl e \<Rightarrow> ([Connected connect, Created False (Some e)], False)
      | Inr _ \<Rightarrow>
          (case accept_rounds rest of
             (evs, listening) \<Rightarrow> ([Connected connect, Created False None, HandedOff] @ evs, listening)))"

definition serve :: "bool \<Rightarrow> create_answer \<Rightarrow> (string option \<times> create_answer) list \<Rightarrow> serve_event list \<times> bool" where
  "serve windows_build first rounds =
     (if \<not> windows_build then ([], False)
      else
        (case create first of
           Inl e \<Rightarrow> ([Created True (Some e)], False)
         | Inr _ \<Rightarrow> (case accept_rounds rounds of (evs, listening) \<Rightarrow> (Created True None # evs, listening))))"

section \<open>Lemmas\<close>

lemma upcoming_action_iff:
  "p \<in> set (upcoming_actions P (Some s) now) \<longleftrightarrow>
   (\<exists>w \<in> set (windows s). p = \<lparr> pa_id = action_id P (notice_of (action s)) (off_at w), pa_action = notice_of (action s),
      pa_at_utc = off_at w, pa_reason = ReasonSchedule \<rparr> \<and>
      now < off_at w \<and> off_at w \<le> now + seconds HORIZON_SECONDS)"
  by (auto simp: upcoming_actions_def Let_def)

lemma upcoming_sound:
  assumes "p \<in> set (upcoming_actions P sched now)"
  shows "\<exists>s w. sched = Some s \<and> w \<in> set (windows s) \<and> pa_at_utc p = off_at w \<and> now < off_at w \<and>
    off_at w \<le> now + seconds 1800 \<and> pa_action p = notice_of (action s) \<and>
    pa_id p = action_id P (pa_action p) (pa_at_utc p)"
  using assms by (cases sched) (auto simp: upcoming_action_iff HORIZON_SECONDS_def, simp add: upcoming_actions_def)

text \<open>What is announced is the same whenever it is announced: identifier and time depend on the window only.\<close>

lemma upcoming_stable:
  "p \<in> set (upcoming_actions P sched now) \<Longrightarrow> now \<le> now' \<Longrightarrow> now' < pa_at_utc p \<Longrightarrow>
   p \<in> set (upcoming_actions P sched now')"
  by (cases sched) (auto simp: upcoming_action_iff, simp add: upcoming_actions_def)

text \<open>No two start times of a schedule have the same identifier.\<close>

definition ids_distinct :: "('x) pipe_env_scheme \<Rightarrow> schedule \<Rightarrow> bool" where
  "ids_distinct P s \<longleftrightarrow>
     (\<forall>w \<in> set (windows s). \<forall>w' \<in> set (windows s).
        action_id P (notice_of (action s)) (off_at w) = action_id P (notice_of (action s)) (off_at w') \<longrightarrow>
        off_at w = off_at w')"

lemma upcoming_ids:
  "ids_distinct P s \<Longrightarrow> p \<in> set (upcoming_actions P (Some s) now) \<Longrightarrow> q \<in> set (upcoming_actions P (Some s) now') \<Longrightarrow>
   pa_id p = pa_id q \<Longrightarrow> p = q"
  unfolding upcoming_action_iff ids_distinct_def by (elim bexE conjE) (metis pending_action.select_convs(1))

lemma notice_of_inj [simp]: "notice_of a = notice_of b \<longleftrightarrow> a = b"
  by (cases a; cases b) (simp_all add: notice_of_def)

section \<open>There is always a listener\<close>

text \<open>How many instances wait for a client (made and not yet connected) after the events.\<close>

fun listeners :: "nat \<Rightarrow> serve_event list \<Rightarrow> nat list" where
  "listeners n [] = []"
| "listeners n (Created _ None # evs) = (n + 1) # listeners (n + 1) evs"
| "listeners n (Created _ (Some _) # evs) = n # listeners n evs"
| "listeners n (Connected _ # evs) = (n - 1) # listeners (n - 1) evs"
| "listeners n (HandedOff # evs) = n # listeners n evs"

fun served :: "(string option \<times> create_answer) list \<Rightarrow> nat" where
  "served [] = 0"
| "served ((_, ca) # rest) = (case create ca of Inl _ \<Rightarrow> 0 | Inr _ \<Rightarrow> Suc (served rest))"

lemma served_all: "served rounds = length rounds \<longleftrightarrow> (\<forall>(_, ca) \<in> set rounds. create ca = Inr ())"
  by (induction rounds rule: served.induct) (auto split: sum.split)

lemma accept_rounds_exact:
  "listeners 1 (fst (accept_rounds rounds)) =
     concat (replicate (served rounds) [0, 1, 1]) @ (if served rounds = length rounds then [] else [0, 0])"
  "snd (accept_rounds rounds) \<longleftrightarrow> served rounds = length rounds"
  "length (filter (\<lambda>e. e = HandedOff) (fst (accept_rounds rounds))) = served rounds"
  by (induction rounds rule: served.induct) (auto simp: split_def split: sum.split)

text \<open>
  Property C30. The pipe server. Once its first instance exists, it hands off one connection per round until the first round in which no further
  instance can be made; there it ends for good. There is a listener whenever a connection is handed off, but not from the moment a
  client connects until the next instance is made.
\<close>

theorem pipe_server_rounds:
  assumes "create first = Inr ()" "serve True first rounds = (evs, listening)"
  shows "listeners 0 evs =
      1 # concat (replicate (served rounds) [0, 1, 1]) @ (if served rounds = length rounds then [] else [0, 0]) \<and>
    length (filter (\<lambda>e. e = HandedOff) evs) = served rounds \<and>
    (listening \<longleftrightarrow> (\<forall>(_, ca) \<in> set rounds. create ca = Inr ()))"
proof -
  from assms have "evs = Created True None # fst (accept_rounds rounds)" "listening = snd (accept_rounds rounds)"
    by (auto simp: serve_def split: prod.splits)
  then show ?thesis using accept_rounds_exact [of rounds] served_all [of rounds] by simp
qed

theorem pipe_server_rounds_witness:
  "\<exists>evs. serve True \<lparr> ca_convert = None, ca_pipe = None \<rparr>
     [(None, \<lparr> ca_convert = None, ca_pipe = None \<rparr>), (None, \<lparr> ca_convert = None, ca_pipe = Some ''busy'' \<rparr>)] = (evs, False) \<and>
     listeners 0 evs = [1, 0, 1, 1, 0, 0]"
proof -
  let ?ok = "\<lparr> ca_convert = None, ca_pipe = None \<rparr>" and ?bad = "\<lparr> ca_convert = None, ca_pipe = Some ''busy'' \<rparr>"
  have create: "create ?ok = Inr ()" "create ?bad = Inl ''busy''" by (simp_all add: create_def)
  obtain evs l where run: "serve True ?ok [(None, ?ok), (None, ?bad)] = (evs, l)" by fastforce
  from pipe_server_rounds [OF create(1) run] run create show ?thesis by auto
qed

section \<open>The access list\<close>

text \<open>The rights an access list gives: the text between the second and third semicolon, read as hexadecimal.\<close>

definition hex_value :: "char \<Rightarrow> nat" where
  "hex_value c = (let n = of_char c in if n \<ge> 97 then n - 87 else n - 48)"

definition hex_word :: "string \<Rightarrow> u32" where
  "hex_word ds = foldl (\<lambda>w c. 16 * w + of_nat (hex_value c)) 0 ds"

definition USER_RIGHTS :: u32 where
  "USER_RIGHTS = hex_word (take 6 (drop 8 SDDL))"

lemma user_rights: "USER_RIGHTS = 0x12008b" "take 8 SDDL = ''D:(A;;0x''" "take 7 (drop 14 SDDL) = '';;;AU)(''"
  by (simp_all add: USER_RIGHTS_def SDDL_def hex_word_def hex_value_def of_char_def)

end
