(* ===== verification/Notifier_Engine.thy ===== *)
theory Notifier_Engine
  imports Ipc
begin

text \<open>
  \<^verbatim>\<open>notifier/src/engine.rs\<close>: which warnings are due, given what the service reports as pending and the time on the service's
  clock, and which administrator messages are still to be shown. A \<^verbatim>\<open>HashSet\<close> is a set; the
  elements that leave it in an order are sorted by the code.
\<close>

section \<open>Data\<close>

definition THRESHOLDS :: "int list" where "THRESHOLDS = [900, 300, 60, 30]"
definition COUNTDOWN_SECONDS :: int where "COUNTDOWN_SECONDS = 60"
definition FAST_POLL_WITHIN_SECONDS :: int where "FAST_POLL_WITHIN_SECONDS = 90"
definition FAST_POLL :: nanos where "FAST_POLL = seconds 2"
definition SLOW_POLL :: nanos where "SLOW_POLL = seconds 10"

record toast_due =
  td_action :: pending_action
  td_threshold :: int
  td_remaining :: int

record tick =
  tk_toasts :: "toast_due list"
  tk_cancelled :: "uuid list"
  tk_countdown :: "uuid list"
  tk_next_poll :: "nanos option"

record engine =
  fired :: "(uuid \<times> int) set"
  known :: "uuid set"

definition default_engine :: engine where
  "default_engine = \<lparr> fired = {}, known = {} \<rparr>"

section \<open>Warnings\<close>

definition remaining_at :: "pending_action \<Rightarrow> datetime \<Rightarrow> int" where
  "remaining_at p now = num_seconds (pa_at_utc p - now)"

definition tightest :: "int \<Rightarrow> int option" where
  "tightest remaining = iter_min (filter (\<lambda>t. remaining \<le> t) THRESHOLDS)"

record poll_loop =
  pl_fired :: "(uuid \<times> int) set"
  pl_toasts :: "toast_due list"
  pl_countdown :: "uuid list"
  pl_soonest :: "int option"

text \<open>The body of the loop over the reported actions.\<close>

definition consider_action :: "datetime \<Rightarrow> poll_loop \<Rightarrow> pending_action \<Rightarrow> poll_loop" where
  "consider_action now l p =
     (let remaining = remaining_at p now;
          l1 = l\<lparr>pl_soonest := Some (case pl_soonest l of None \<Rightarrow> remaining | Some s \<Rightarrow> min s remaining)\<rparr>;
          l2 = (case tightest remaining of
                  None \<Rightarrow> l1
                | Some threshold \<Rightarrow>
                    if (pa_id p, threshold) \<notin> pl_fired l1
                    then l1\<lparr>pl_fired := insert (pa_id p, threshold) (pl_fired l1),
                            pl_toasts := pl_toasts l1 @ [\<lparr> td_action = p, td_threshold = threshold, td_remaining = remaining \<rparr>]\<rparr>
                    else l1)
      in if remaining \<le> COUNTDOWN_SECONDS then l2\<lparr>pl_countdown := pl_countdown l2 @ [pa_id p]\<rparr> else l2)"

definition update :: "engine \<Rightarrow> pending_action list \<Rightarrow> datetime \<Rightarrow> engine \<times> tick" where
  "update e actions now =
     (let live = set (map pa_id actions);
          cancelled = sorted_list_of_set (known e - live);
          l = foldl (consider_action now)
                \<lparr> pl_fired = {(i, t) \<in> fired e. i \<in> live}, pl_toasts = [], pl_countdown = [], pl_soonest = None \<rparr> actions;
          next_poll = (case pl_soonest l of
                         Some s \<Rightarrow> if s \<le> FAST_POLL_WITHIN_SECONDS then FAST_POLL else SLOW_POLL
                       | None \<Rightarrow> SLOW_POLL)
      in (\<lparr> fired = pl_fired l, known = live \<rparr>,
          \<lparr> tk_toasts = pl_toasts l, tk_cancelled = cancelled, tk_countdown = pl_countdown l,
            tk_next_poll = Some next_poll \<rparr>))"

section \<open>Messages\<close>

record message_tracker =
  shown :: "uuid set"

definition with_shown :: "uuid list \<Rightarrow> message_tracker" where
  "with_shown ids = \<lparr> shown = set ids \<rparr>"

definition shown_ids :: "message_tracker \<Rightarrow> uuid list" where
  "shown_ids t = sorted_list_of_set (shown t)"

definition take_new :: "message_tracker \<Rightarrow> message list \<Rightarrow> datetime \<Rightarrow> message_tracker \<times> message list" where
  "take_new t reported now =
     (let fresh = sort_key msg_sent_utc (filter (\<lambda>m. msg_expires_utc m > now \<and> msg_id m \<notin> shown t) reported);
          extended = shown t \<union> set (map msg_id fresh);
          reported_ids = set (map msg_id reported)
      in (t\<lparr>shown := extended \<inter> reported_ids\<rparr>, fresh))"

section \<open>One poll\<close>

text \<open>The warning a poll owes for an action, if any.\<close>

definition warning_due :: "(uuid \<times> int) set \<Rightarrow> datetime \<Rightarrow> pending_action \<Rightarrow> toast_due option" where
  "warning_due before now p =
     (case tightest (remaining_at p now) of
        None \<Rightarrow> None
      | Some th \<Rightarrow> if (pa_id p, th) \<in> before then None
                   else Some \<lparr> td_action = p, td_threshold = th, td_remaining = remaining_at p now \<rparr>)"

definition band_of :: "datetime \<Rightarrow> pending_action \<Rightarrow> (uuid \<times> int) set" where
  "band_of now p = (case tightest (remaining_at p now) of None \<Rightarrow> {} | Some th \<Rightarrow> {(pa_id p, th)})"

lemma consider_action_sel:
  "pl_fired (consider_action now l p) = pl_fired l \<union> band_of now p"
  "pl_toasts (consider_action now l p) = pl_toasts l @ (case warning_due (pl_fired l) now p of None \<Rightarrow> [] | Some d \<Rightarrow> [d])"
  "pl_countdown (consider_action now l p) = pl_countdown l @ (if remaining_at p now \<le> 60 then [pa_id p] else [])"
  "pl_soonest (consider_action now l p) = Some (case pl_soonest l of None \<Rightarrow> remaining_at p now | Some s \<Rightarrow> min s (remaining_at p now))"
  by (auto simp: consider_action_def warning_due_def band_of_def COUNTDOWN_SECONDS_def Let_def split: option.split)

lemma warning_due_others:
  assumes "pa_id p \<notin> pa_id ` set qs"
  shows "List.map_filter (warning_due (F \<union> band_of now p) now) qs = List.map_filter (warning_due F now) qs"
proof -
  have "warning_due (F \<union> band_of now p) now q = warning_due F now q" if "q \<in> set qs" for q
  proof -
    from that assms have "pa_id q \<noteq> pa_id p" by (metis image_eqI)
    then show ?thesis by (auto simp: warning_due_def band_of_def split: option.splits)
  qed
  then show ?thesis by (simp add: List.map_filter_def cong: map_cong filter_cong)
qed

lemma consider_all:
  "pl_fired (foldl (consider_action now) l ps) = pl_fired l \<union> (\<Union>p \<in> set ps. band_of now p)"
  "distinct (map pa_id ps) \<Longrightarrow>
     pl_toasts (foldl (consider_action now) l ps) = pl_toasts l @ List.map_filter (warning_due (pl_fired l) now) ps"
  "pl_countdown (foldl (consider_action now) l ps) =
     pl_countdown l @ map pa_id (filter (\<lambda>p. remaining_at p now \<le> 60) ps)"
proof (induction ps arbitrary: l)
  case (Cons p ps)
  {
    case 1
    then show ?case using Cons.IH(1) [of "consider_action now l p"] by (simp add: consider_action_sel Un_assoc)
  next
    case 2
    then show ?case using Cons.IH(2) [of "consider_action now l p"] warning_due_others [of p ps "pl_fired l" now]
      by (auto simp: consider_action_sel split: option.split)
  next
    case 3
    then show ?case using Cons.IH(3) [of "consider_action now l p"] by (simp add: consider_action_sel)
  }
qed (simp_all add: map_filter_def)

lemma soonest_within:
  "(case pl_soonest (foldl (consider_action now) l ps) of Some s \<Rightarrow> s \<le> n | None \<Rightarrow> False) \<longleftrightarrow>
   (case pl_soonest l of Some s \<Rightarrow> s \<le> n | None \<Rightarrow> False) \<or> (\<exists>p \<in> set ps. remaining_at p now \<le> n)"
  by (induction ps arbitrary: l) (auto simp: consider_action_sel min_le_iff_disj split: option.split)

lemma tightest_cases:
  "tightest r = (if r \<le> 30 then Some 30 else if r \<le> 60 then Some 60 else if r \<le> 300 then Some 300
     else if r \<le> 900 then Some 900 else None)"
  by (simp add: tightest_def THRESHOLDS_def)

lemma update_sel:
  assumes "update e actions now = (e', tick)"
  shows "known e' = pa_id ` set actions"
    "fired e' = {(i, t) \<in> fired e. i \<in> pa_id ` set actions} \<union> (\<Union>p \<in> set actions. band_of now p)"
    "tk_cancelled tick = sorted_list_of_set (known e - pa_id ` set actions)"
    "tk_countdown tick = map pa_id (filter (\<lambda>p. remaining_at p now \<le> 60) actions)"
    "tk_next_poll tick = Some (if \<exists>p \<in> set actions. remaining_at p now \<le> 90 then seconds 2 else seconds 10)"
    "distinct (map pa_id actions) \<Longrightarrow>
       tk_toasts tick = List.map_filter (warning_due {(i, t) \<in> fired e. i \<in> pa_id ` set actions} now) actions"
proof -
  let ?l = "\<lparr> pl_fired = {(i, t) \<in> fired e. i \<in> pa_id ` set actions}, pl_toasts = [], pl_countdown = [], pl_soonest = None \<rparr>"
  note upd = assms [unfolded update_def Let_def]
  show "known e' = pa_id ` set actions"
    "fired e' = {(i, t) \<in> fired e. i \<in> pa_id ` set actions} \<union> (\<Union>p \<in> set actions. band_of now p)"
    "tk_cancelled tick = sorted_list_of_set (known e - pa_id ` set actions)"
    "tk_countdown tick = map pa_id (filter (\<lambda>p. remaining_at p now \<le> 60) actions)"
    using upd by (auto simp: consider_all)
  show "distinct (map pa_id actions) \<Longrightarrow>
       tk_toasts tick = List.map_filter (warning_due {(i, t) \<in> fired e. i \<in> pa_id ` set actions} now) actions"
    using upd consider_all(2) [of actions now ?l] by auto
  have "(case pl_soonest (foldl (consider_action now) ?l actions) of Some s \<Rightarrow> s \<le> 90 | None \<Rightarrow> False) \<longleftrightarrow>
      (\<exists>p \<in> set actions. remaining_at p now \<le> 90)"
    using soonest_within [where l = ?l and ps = actions and n = 90] by simp
  then show "tk_next_poll tick = Some (if \<exists>p \<in> set actions. remaining_at p now \<le> 90 then seconds 2 else seconds 10)"
    using upd by (auto simp: FAST_POLL_WITHIN_SECONDS_def FAST_POLL_def SLOW_POLL_def split: option.splits)
qed

section \<open>Runs of polls\<close>

type_synonym poll = "pending_action list \<times> datetime"

fun engine_run :: "engine \<Rightarrow> poll list \<Rightarrow> tick list" where
  "engine_run e [] = []"
| "engine_run e ((actions, now) # polls) =
     (case update e actions now of (e', tick) \<Rightarrow> tick # engine_run e' polls)"

text \<open>The thresholds for which the run warned of an action, in order.\<close>

definition warned :: "uuid \<Rightarrow> tick list \<Rightarrow> int list" where
  "warned i ticks = concat (map (\<lambda>tick. map td_threshold (filter (\<lambda>d. pa_id (td_action d) = i) (tk_toasts tick))) ticks)"

text \<open>The elements of a list that are new, when those of a set have been seen.\<close>

fun news :: "'a set \<Rightarrow> 'a list \<Rightarrow> 'a list" where
  "news S [] = []"
| "news S (x # xs) = (if x \<in> S then news S xs else x # news (insert x S) xs)"

lemma news_distinct: "distinct (news S xs) \<and> set (news S xs) = set xs - S"
  by (induction xs arbitrary: S) auto

lemma news_sorted: "sorted_wrt (\<ge>) xs \<Longrightarrow> sorted_wrt (\<ge>) (news S (xs :: 'a::linorder list))"
  using news_distinct by (induction S xs rule: news.induct) fastforce+

text \<open>An action is pending in a poll when it is the one reported under its identifier.\<close>

definition pending_in :: "pending_action \<Rightarrow> poll \<Rightarrow> bool" where
  "pending_in p poll \<longleftrightarrow> distinct (map pa_id (fst poll)) \<and> p \<in> set (fst poll)"

lemma warning_due_Some: "warning_due F now q = Some d \<Longrightarrow> td_action d = q"
  by (auto simp: warning_due_def split: option.splits if_splits)

lemma warning_due_of:
  "(\<exists>x \<in> A. warning_due F now x = Some d) \<longleftrightarrow> td_action d \<in> A \<and> warning_due F now (td_action d) = Some d"
  using warning_due_Some [of F now _ d] by blast

lemma warning_due_iff:
  "warning_due F now (td_action d) = Some d \<longleftrightarrow>
   td_remaining d = remaining_at (td_action d) now \<and> tightest (td_remaining d) = Some (td_threshold d) \<and>
   (pa_id (td_action d), td_threshold d) \<notin> F"
  by (cases d) (auto simp: warning_due_def split: option.splits)

lemma tightest_iff:
  "tightest r = Some th \<longleftrightarrow> th \<in> {900, 300, 60, 30} \<and> r \<le> th \<and> (\<forall>u \<in> {900, 300, 60, 30}. u < th \<longrightarrow> u < r)"
  unfolding tightest_cases by (simp split: if_split) linarith

lemma warning_due_threshold:
  "map_option td_threshold (warning_due F now p) =
     (case tightest (remaining_at p now) of None \<Rightarrow> None | Some th \<Rightarrow> if (pa_id p, th) \<in> F then None else Some th)"
  by (simp add: warning_due_def split: option.split)

lemma set_map_filter: "y \<in> set (List.map_filter f xs) \<longleftrightarrow> (\<exists>x \<in> set xs. f x = Some y)"
  by (induction xs) (auto split: option.split)

lemma toasts_for:
  assumes "distinct (map pa_id ps)" "p \<in> set ps"
  shows "map td_threshold (filter (\<lambda>d. pa_id (td_action d) = pa_id p) (List.map_filter (warning_due F now) ps)) =
    (case map_option td_threshold (warning_due F now p) of None \<Rightarrow> [] | Some th \<Rightarrow> [th])"
  using assms
proof (induction ps)
  case (Cons q ps)
  have skip: "filter (\<lambda>d. pa_id (td_action d) = pa_id p) (List.map_filter (warning_due F now) qs) = []"
    if "pa_id p \<notin> pa_id ` set qs" for qs
    using that by (induction qs) (auto dest: warning_due_Some split: option.split)
  show ?case
  proof (cases "q = p")
    case True
    with Cons.prems skip [of ps] show ?thesis
      by (cases "warning_due F now p") (auto dest: warning_due_Some)
  next
    case False
    with Cons.prems have "p \<in> set ps" by simp
    moreover from this Cons.prems have "pa_id q \<noteq> pa_id p" by (auto simp: image_iff)
    ultimately show ?thesis using Cons by (cases "warning_due F now q") (auto dest: warning_due_Some)
  qed
qed simp

lemma fired_after:
  assumes "update e actions now = (e', tick)" "pending_in p (actions, now)"
  shows "{th. (pa_id p, th) \<in> fired e'} = {th. (pa_id p, th) \<in> fired e} \<union> set_option (tightest (remaining_at p now))"
proof -
  have "q = p" if "q \<in> set actions" "pa_id q = pa_id p" for q
    using that assms(2) distinct_map_eqD by (metis fst_conv pending_in_def)
  with assms(2) show ?thesis
    by (auto simp: update_sel(2) [OF assms(1)] band_of_def pending_in_def split: option.splits)
qed

text \<open>Over a run, each band the remaining time passes through is warned of when it is first seen.\<close>

lemma warned_run:
  "list_all (pending_in p) polls \<Longrightarrow>
   warned (pa_id p) (engine_run e polls) =
     news {th. (pa_id p, th) \<in> fired e} (List.map_filter (\<lambda>(_, now). tightest (remaining_at p now)) polls)"
proof (induction polls arbitrary: e)
  case Nil
  then show ?case by (simp add: warned_def map_filter_def)
next
  case (Cons poll polls)
  obtain actions now where poll: "poll = (actions, now)" by fastforce
  obtain e' tick where u: "update e actions now = (e', tick)" by fastforce
  from Cons.prems poll have p: "pending_in p (actions, now)" by simp
  then have mem: "p \<in> set actions" and dist: "distinct (map pa_id actions)" by (simp_all add: pending_in_def)
  have "warned (pa_id p) (engine_run e (poll # polls)) =
      map td_threshold (filter (\<lambda>d. pa_id (td_action d) = pa_id p) (tk_toasts tick)) @ warned (pa_id p) (engine_run e' polls)"
    by (simp add: poll u warned_def)
  also have "map td_threshold (filter (\<lambda>d. pa_id (td_action d) = pa_id p) (tk_toasts tick)) =
      (case tightest (remaining_at p now) of None \<Rightarrow> [] | Some th \<Rightarrow> if (pa_id p, th) \<in> fired e then [] else [th])"
    unfolding update_sel(6) [OF u dist] toasts_for [OF dist mem] warning_due_threshold
    using mem by (auto split: option.split)
  also have "warned (pa_id p) (engine_run e' polls) =
      news ({th. (pa_id p, th) \<in> fired e} \<union> set_option (tightest (remaining_at p now)))
        (List.map_filter (\<lambda>(_, now). tightest (remaining_at p now)) polls)"
    using Cons.IH [of e'] Cons.prems fired_after [OF u p] by simp
  finally show ?case by (auto simp: poll insert_absorb split: option.split)
qed

section \<open>Runs of message polls\<close>

type_synonym message_poll = "message list \<times> datetime"

fun tracker_run :: "message_tracker \<Rightarrow> message_poll list \<Rightarrow> message list list" where
  "tracker_run t [] = []"
| "tracker_run t ((reported, now) # polls) =
     (case take_new t reported now of (t', fresh) \<Rightarrow> fresh # tracker_run t' polls)"

definition times_shown :: "uuid \<Rightarrow> message list list \<Rightarrow> nat" where
  "times_shown i outs = length (filter (\<lambda>m. msg_id m = i) (concat outs))"

definition reported_in :: "uuid \<Rightarrow> message_poll \<Rightarrow> bool" where
  "reported_in i poll \<longleftrightarrow> distinct (map msg_id (fst poll)) \<and> i \<in> msg_id ` set (fst poll)"

definition still_valid :: "uuid \<Rightarrow> message_poll \<Rightarrow> bool" where
  "still_valid i poll \<longleftrightarrow> (\<exists>m \<in> set (fst poll). msg_id m = i \<and> msg_expires_utc m > snd poll)"

lemma take_new_sel:
  assumes "take_new t reported now = (t', fresh)"
  shows "sorted (map msg_sent_utc fresh)"
    "set fresh = {m \<in> set reported. msg_expires_utc m > now \<and> msg_id m \<notin> shown t}"
    "shown t' = (shown t \<union> msg_id ` set fresh) \<inter> msg_id ` set reported"
    "distinct (map msg_id reported) \<Longrightarrow> distinct (map msg_id fresh)"
proof -
  let ?f = "filter (\<lambda>m. msg_expires_utc m > now \<and> msg_id m \<notin> shown t) reported"
  have fresh: "fresh = sort_key msg_sent_utc ?f" using assms by (auto simp: take_new_def Let_def)
  show "sorted (map msg_sent_utc fresh)" by (simp add: fresh)
  show "set fresh = {m \<in> set reported. msg_expires_utc m > now \<and> msg_id m \<notin> shown t}" by (auto simp: fresh)
  show "shown t' = (shown t \<union> msg_id ` set fresh) \<inter> msg_id ` set reported"
    using assms by (auto simp: take_new_def Let_def)
  have "mset (map msg_id fresh) = mset (map msg_id ?f)" by (simp add: fresh)
  note perm = mset_eq_imp_distinct_iff [OF this]
  show "distinct (map msg_id reported) \<Longrightarrow> distinct (map msg_id fresh)"
    unfolding perm by (rule distinct_map_filter)
qed

lemma take_new_one:
  assumes "take_new t reported now = (t', fresh)" "reported_in i (reported, now)"
  shows "length (filter (\<lambda>m. msg_id m = i) fresh) = (if still_valid i (reported, now) \<and> i \<notin> shown t then 1 else 0)"
    "i \<in> shown t' \<longleftrightarrow> i \<in> shown t \<or> still_valid i (reported, now)"
proof -
  note sel = take_new_sel [OF assms(1)]
  have dist: "distinct (map msg_id fresh)" using sel(4) assms(2) by (simp add: reported_in_def)
  have mem: "i \<in> msg_id ` set fresh \<longleftrightarrow> still_valid i (reported, now) \<and> i \<notin> shown t"
    using sel(2) by (auto simp: still_valid_def)
  have "length (filter (\<lambda>m. msg_id m = i) fresh) = (if i \<in> msg_id ` set fresh then 1 else 0)"
    using dist by (induction fresh) (auto simp: filter_empty_conv)
  then show "length (filter (\<lambda>m. msg_id m = i) fresh) = (if still_valid i (reported, now) \<and> i \<notin> shown t then 1 else 0)"
    using mem by simp
  show "i \<in> shown t' \<longleftrightarrow> i \<in> shown t \<or> still_valid i (reported, now)"
    using sel(3) mem assms(2) by (auto simp: reported_in_def)
qed

lemma shown_over_run:
  "list_all (reported_in i) polls \<Longrightarrow>
   times_shown i (tracker_run t polls) = (if i \<notin> shown t \<and> list_ex (still_valid i) polls then 1 else 0)"
proof (induction polls arbitrary: t)
  case (Cons poll polls)
  obtain reported now where poll: "poll = (reported, now)" by fastforce
  obtain t' fresh where tn: "take_new t reported now = (t', fresh)" by fastforce
  from Cons.prems poll have "reported_in i (reported, now)" by simp
  note one = take_new_one [OF tn this]
  have "times_shown i (tracker_run t (poll # polls)) =
      length (filter (\<lambda>m. msg_id m = i) fresh) + times_shown i (tracker_run t' polls)"
    by (simp add: poll tn times_shown_def)
  with one Cons poll show ?case by auto
qed (simp add: times_shown_def)

text \<open>A quantity that falls in steps of at most \<open>k\<close> meets every interval that is at least \<open>k\<close> wide.\<close>

lemma meets_interval:
  assumes "successively (\<lambda>a b. a - k \<le> b) rs" "rs \<noteq> []" "lo < hd rs" "last rs \<le> hi" "lo + k \<le> (hi :: int)"
  shows "\<exists>r \<in> set rs. lo < r \<and> r \<le> hi"
  using assms
proof (induction rs)
  case (Cons r rs)
  show ?case
  proof (cases "r \<le> hi")
    case False
    with Cons.prems(4) have ne: "rs \<noteq> []" by auto
    with Cons.prems(1) have "r - k \<le> hd rs" by (cases rs) simp_all
    with False Cons.prems(5) have "lo < hd rs" by simp
    with Cons ne show ?thesis by (cases rs) auto
  qed (use Cons.prems in auto)
qed simp

lemma num_seconds_step:
  assumes "b - a \<le> seconds 29"
  shows "num_seconds (t - a) - 30 \<le> num_seconds (t - b)"
proof -
  have "num_seconds (t - a - seconds 29) \<le> num_seconds (t - b)" using assms by (intro num_seconds_mono) simp
  moreover have "num_seconds x - 30 \<le> num_seconds (x - seconds 29)" for x
  proof (cases "0 \<le> x")
    case True
    show ?thesis
    proof (cases "0 \<le> x - seconds 29")
      case ge: True
      show ?thesis unfolding num_seconds_nonneg [OF True] num_seconds_nonneg [OF ge] by (simp add: seconds_def)
    next
      case lt: False
      then have neg: "x - seconds 29 < 0" by simp
      from True lt show ?thesis unfolding num_seconds_nonneg [OF True] num_seconds_neg [OF neg]
        by (simp add: seconds_def)
    qed
  next
    case False
    then show ?thesis by (simp add: num_seconds_neg seconds_def)
  qed
  ultimately show ?thesis by (metis order_trans)
qed

lemma tightest_mono:
  "r' \<le> r \<Longrightarrow> tightest r = Some th \<Longrightarrow> \<exists>th'. tightest r' = Some th' \<and> th' \<le> th"
  by (auto simp: tightest_cases split: if_splits)

lemma bands_fall:
  "sorted_wrt (\<ge>) rs \<Longrightarrow> sorted_wrt (\<ge>) (List.map_filter tightest rs)"
proof (induction rs)
  case (Cons r rs)
  show ?case
  proof (cases "tightest r")
    case (Some th)
    have "u \<le> th" if "u \<in> set (List.map_filter tightest rs)" for u
      using that Cons.prems tightest_mono [OF _ Some] by (fastforce simp: set_map_filter)
    with Cons Some show ?thesis by simp
  qed (use Cons in simp)
qed (simp add: map_filter_def)

lemma falling_unique:
  assumes "sorted_wrt (\<ge>) xs" "distinct xs" "set xs = {900, 300, 60, 30}"
  shows "xs = [900, 300, 60, 30 :: int]"
proof -
  have "sorted (rev xs)" using assms(1) by (simp add: sorted_wrt_rev)
  moreover have "set (rev xs) = set [30, 60, 300, 900]" using assms(3) by auto
  ultimately have "rev xs = [30, 60, 300, 900]"
    using assms(2) sorted_distinct_set_unique [of "rev xs" "[30, 60, 300, 900]"] by simp
  then have "rev (rev xs) = rev [30, 60, 300, 900]" by simp
  then show ?thesis by simp
qed

lemma all_bands_met:
  assumes "successively (\<lambda>a b. a - 30 \<le> b) rs" "rs \<noteq> []" "300 < hd rs" "last rs \<le> 30"
  shows "set (List.map_filter tightest rs) = {900, 300, 60, 30}"
proof -
  note meets = meets_interval [OF assms(1,2)]
  have "\<exists>r \<in> set rs. 300 < r \<and> r \<le> 900" "\<exists>r \<in> set rs. 60 < r \<and> r \<le> 300" "\<exists>r \<in> set rs. 30 < r \<and> r \<le> 60"
    using assms(3,4) by (auto intro!: meets)
  moreover have "last rs \<in> set rs" using assms(2) by simp
  moreover have "tightest r = Some 900 \<longleftrightarrow> 300 < r \<and> r \<le> 900" "tightest r = Some 300 \<longleftrightarrow> 60 < r \<and> r \<le> 300"
    "tightest r = Some 60 \<longleftrightarrow> 30 < r \<and> r \<le> 60" "tightest r = Some 30 \<longleftrightarrow> r \<le> 30" for r
    by (simp_all add: tightest_cases)
  ultimately have "{900, 300, 60, 30} \<subseteq> set (List.map_filter tightest rs)"
    using assms(4) by (simp only: insert_subset empty_subsetI set_map_filter) blast
  moreover have "set (List.map_filter tightest rs) \<subseteq> {900, 300, 60, 30}"
    by (auto simp: set_map_filter tightest_cases split: if_splits)
  ultimately show ?thesis by blast
qed

section \<open>Properties\<close>

text \<open>
  What one poll decides, for reported actions with different identifiers: a warning for exactly those actions
  that have crossed a threshold which was not yet warned of, for the tightest threshold crossed and with the
  seconds that remain; a cancellation, once and in order, for exactly the actions known from the poll before that are no
  longer reported; a countdown for the last minute; and a quick next poll exactly when some action is within a minute and
  a half. Afterwards the engine knows the reported actions, has forgotten everything about the others, and
  has every crossed tightest threshold down as warned of.
\<close>

theorem engine_poll_exact:
  assumes "distinct (map pa_id actions)" "finite (known e)" "update e actions now = (e', tick)"
  shows "(\<forall>d. d \<in> set (tk_toasts tick) \<longleftrightarrow>
       td_action d \<in> set actions \<and> td_remaining d = num_seconds (pa_at_utc (td_action d) - now) \<and>
       td_threshold d \<in> {900, 300, 60, 30} \<and> td_remaining d \<le> td_threshold d \<and>
       (\<forall>th \<in> {900, 300, 60, 30}. th < td_threshold d \<longrightarrow> th < td_remaining d) \<and>
       (pa_id (td_action d), td_threshold d) \<notin> fired e) \<and>
     set (tk_cancelled tick) = known e - pa_id ` set actions \<and> sorted (tk_cancelled tick) \<and> distinct (tk_cancelled tick) \<and>
     tk_countdown tick = map pa_id (filter (\<lambda>p. num_seconds (pa_at_utc p - now) \<le> 60) actions) \<and>
     tk_next_poll tick = Some (if \<exists>p \<in> set actions. num_seconds (pa_at_utc p - now) \<le> 90 then seconds 2 else seconds 10) \<and>
     known e' = pa_id ` set actions \<and>
     (\<forall>i th. (i, th) \<in> fired e' \<longleftrightarrow>
        (i, th) \<in> fired e \<and> i \<in> pa_id ` set actions \<or>
        (\<exists>p \<in> set actions. pa_id p = i \<and> tightest (num_seconds (pa_at_utc p - now)) = Some th))"
proof -
  note sel = update_sel [OF assms(3)]
  have "d \<in> set (tk_toasts tick) \<longleftrightarrow> td_action d \<in> set actions \<and>
      warning_due {(i, t) \<in> fired e. i \<in> pa_id ` set actions} now (td_action d) = Some d" for d
    unfolding sel(6) [OF assms(1)] set_map_filter by (rule warning_due_of)
  moreover have "(i, th) \<in> fired e' \<longleftrightarrow>
      (i, th) \<in> fired e \<and> i \<in> pa_id ` set actions \<or>
      (\<exists>p \<in> set actions. pa_id p = i \<and> tightest (num_seconds (pa_at_utc p - now)) = Some th)" for i th
    unfolding sel(2) by (auto simp: band_of_def remaining_at_def split: option.splits)
  moreover have "(i, th) \<notin> {(i, t) \<in> fired e. i \<in> pa_id ` set actions} \<longleftrightarrow> (i, th) \<notin> fired e"
    if "i \<in> pa_id ` set actions" for i th
    using that by simp
  ultimately show ?thesis
    using sel(1,3,4,5) assms(2) unfolding remaining_at_def warning_due_iff tightest_iff
    by (simp only: set_sorted_list_of_set sorted_sorted_list_of_set distinct_sorted_list_of_set finite_Diff) blast
qed

lemma warned_news:
  assumes "list_all (pending_in p) polls"
  shows "warned (pa_id p) (engine_run e polls) =
    news {th. (pa_id p, th) \<in> fired e} (List.map_filter tightest (map (\<lambda>poll. remaining_at p (snd poll)) polls))"
proof -
  have "List.map_filter (\<lambda>(_, now). tightest (remaining_at p now)) polls =
      List.map_filter tightest (map (\<lambda>poll. remaining_at p (snd poll)) polls)"
    by (induction polls) (auto simp: map_filter_def split: option.split)
  with warned_run [OF assms] show ?thesis by simp
qed

text \<open>Polls close enough together, from more than five minutes before the action to its last half minute.\<close>

definition watched :: "pending_action \<Rightarrow> datetime list \<Rightarrow> bool" where
  "watched p ts \<longleftrightarrow> ts \<noteq> [] \<and> sorted ts \<and> successively (\<lambda>a b. b - a \<le> seconds 29) ts \<and>
     num_seconds (pa_at_utc p - hd ts) > 300 \<and> num_seconds (pa_at_utc p - last ts) \<le> 30"

lemma warned_in_full:
  assumes "list_all (pending_in p) polls" "watched p (map snd polls)"
  shows "warned (pa_id p) (engine_run default_engine polls) = [900, 300, 60, 30]"
proof -
  define rs where "rs = map (\<lambda>poll. remaining_at p (snd poll)) polls"
  from assms(2) have w: "polls \<noteq> []" "sorted (map snd polls)" "successively (\<lambda>a b. b - a \<le> seconds 29) (map snd polls)"
    "num_seconds (pa_at_utc p - snd (hd polls)) > 300" "num_seconds (pa_at_utc p - snd (last polls)) \<le> 30"
    by (auto simp: watched_def hd_map last_map)
  have "successively (\<lambda>a b. a - 30 \<le> b) rs"
    unfolding rs_def successively_map using w(3) unfolding successively_map
    by (rule successively_mono) (auto simp: remaining_at_def intro: num_seconds_step)
  moreover have "rs \<noteq> []" "300 < hd rs" "last rs \<le> 30"
    using w(1,4,5) by (simp_all add: rs_def hd_map last_map remaining_at_def)
  ultimately have set: "set (List.map_filter tightest rs) = {900, 300, 60, 30}" by (rule all_bands_met)
  have "sorted_wrt (\<ge>) rs"
    unfolding rs_def sorted_wrt_map using w(2) unfolding sorted_wrt_map
    by (rule sorted_wrt_mono_rel [rotated]) (simp add: remaining_at_def num_seconds_mono)
  from news_sorted [OF bands_fall [OF this], of "{}"] news_distinct [of "{}" "List.map_filter tightest rs"] set
  show ?thesis unfolding warned_news [OF assms(1)] rs_def by (simp add: default_engine_def falling_unique)
qed

text \<open>
  Property C8. Over any run of polls in which an action stays pending, the user is warned at most once for each threshold, whatever the
  clock does. If moreover the polls are at most 29 seconds apart (the engine itself asks for 10, and
  for 2 near the end) and they begin more than five minutes before the action and go on to the last half minute,
  then the user is warned exactly four times, of 15 minutes, 5 minutes, 1 minute and 30 seconds, in that order: no
  warning is missed and none is repeated.
\<close>

theorem warnings_each_once_in_order:
  assumes "list_all (pending_in p) polls"
  shows "distinct (warned (pa_id p) (engine_run e polls)) \<and>
    (polls \<noteq> [] \<and> sorted (map snd polls) \<and> successively (\<lambda>a b. b - a \<le> seconds 29) (map snd polls) \<and>
     num_seconds (pa_at_utc p - snd (hd polls)) > 300 \<and> num_seconds (pa_at_utc p - snd (last polls)) \<le> 30 \<longrightarrow>
     warned (pa_id p) (engine_run default_engine polls) = [900, 300, 60, 30])"
  using warned_news [OF assms, of e] news_distinct warned_in_full [OF assms]
  by (auto simp: watched_def hd_map last_map)

definition sample_pending :: pending_action where
  "sample_pending = \<lparr> pa_id = 1, pa_action = ActSleep, pa_at_utc = seconds 320, pa_reason = ReasonSchedule \<rparr>"

definition sample_polls :: "poll list" where
  "sample_polls = map (\<lambda>k. ([sample_pending], seconds (25 * int k))) [0..<13]"

theorem warnings_each_once_in_order_witness:
  "warned 1 (engine_run default_engine sample_polls) = [900, 300, 60, 30]"
proof -
  have pend: "list_all (pending_in sample_pending) sample_polls"
    by (simp add: sample_polls_def pending_in_def list_all_iff)
  have times: "map snd sample_polls = map (\<lambda>k. seconds (25 * int k)) [0..<13]" by (simp add: sample_polls_def)
  have "successively (\<lambda>a b. b - a \<le> seconds 29) (map snd sample_polls)" "sorted (map snd sample_polls)"
    unfolding times by code_simp+
  moreover have "sample_polls \<noteq> []" "snd (hd sample_polls) = 0" "snd (last sample_polls) = seconds 300"
    by (simp_all add: sample_polls_def hd_map last_map seconds_def)
  ultimately show ?thesis
    using warnings_each_once_in_order [OF pend] by (simp add: sample_pending_def) (simp add: seconds_def num_seconds_nonneg)
qed

theorem engine_poll_exact_witness:
  "let tick = snd (update default_engine [sample_pending] (seconds 20))
   in \<lparr> td_action = sample_pending, td_threshold = 300, td_remaining = 300 \<rparr> \<in> set (tk_toasts tick) \<and>
      tk_cancelled tick = [] \<and> tk_next_poll tick = Some (seconds 10)"
proof -
  obtain e' tick where u: "update default_engine [sample_pending] (seconds 20) = (e', tick)" by fastforce
  have rem: "num_seconds (pa_at_utc sample_pending - seconds 20) = 300"
    by (simp add: sample_pending_def seconds_def num_seconds_nonneg)
  have "distinct (map pa_id [sample_pending])" "finite (known default_engine)" by (simp_all add: default_engine_def)
  note poll = engine_poll_exact [OF this u]
  have "\<lparr> td_action = sample_pending, td_threshold = 300, td_remaining = 300 \<rparr> \<in> set (tk_toasts tick)"
    unfolding poll [THEN conjunct1, rule_format] by (simp add: rem default_engine_def)
  moreover have "set (tk_cancelled tick) = {}" "tk_next_poll tick = Some (seconds 10)"
    using poll rem by (simp_all add: default_engine_def)
  ultimately show ?thesis unfolding u by simp
qed

text \<open>
  Property C11. Every administrator message is shown exactly once. A poll shows exactly the reported messages that have not expired and
  have not been shown, oldest first; and over any run of polls that report a message, it is shown once if it is
  still valid in any of them, and never if it had been shown before (in an earlier run of the notifier, whose identifiers were restored).
\<close>

theorem messages_shown_exactly_once:
  assumes "list_all (reported_in i) polls" "take_new t reported now = (t', fresh)"
  shows "times_shown i (tracker_run t polls) = (if i \<notin> shown t \<and> list_ex (still_valid i) polls then 1 else 0) \<and>
    sorted (map msg_sent_utc fresh) \<and>
    set fresh = {m \<in> set reported. now < msg_expires_utc m \<and> msg_id m \<notin> shown t}"
  using shown_over_run [OF assms(1)] take_new_sel [OF assms(2)] by simp

definition sample_msg :: message where
  "sample_msg = \<lparr> msg_id = 5, msg_title = None, msg_body = ''Dinner'', msg_sent_utc = 0, msg_expires_utc = seconds 60 \<rparr>"

theorem messages_shown_exactly_once_witness:
  "times_shown 5 (tracker_run (with_shown []) [([sample_msg], 0), ([sample_msg], seconds 10), ([sample_msg], seconds 20)]) = 1"
proof -
  let ?polls = "[([sample_msg], 0), ([sample_msg], seconds 10), ([sample_msg], seconds 20)]"
  have "list_all (reported_in 5) ?polls" by (simp add: reported_in_def sample_msg_def)
  moreover obtain t' fresh where "take_new (with_shown []) [sample_msg] 0 = (t', fresh)" by fastforce
  ultimately show ?thesis
    using messages_shown_exactly_once [of 5 ?polls "with_shown []"]
    by (simp add: with_shown_def still_valid_def sample_msg_def seconds_def)
qed

end
