(* ===== verification/Notifier_Text.thy ===== *)
theory Notifier_Text
  imports Notifier_Engine Client
begin

text \<open>
  \<^verbatim>\<open>notifier/src/text.rs\<close>, the wording of warnings and messages, and the part of \<^verbatim>\<open>notifier/src/ui.rs\<close> that builds the toast: \<open>escape\<close> is
  the source's five passes of \<^verbatim>\<open>str::replace\<close>, and \<open>toast_xml\<close> the document given to Windows. The documents are read back by
  \<open>read_text\<close>, which stands for what an XML reader finds in the \<^verbatim>\<open>text\<close> elements.
\<close>

section \<open>Wording\<close>

record toast_text =
  tt_title :: string
  tt_body :: string
  tt_urgent :: bool

fun what :: "notice_action \<Rightarrow> string" where
  "what ActShutdown = ''shut down''"
| "what ActRestart = ''restart''"
| "what ActSleep = ''go to sleep''"
| "what ActLogoff = ''sign you out''"
| "what ActLock = ''lock''"
| "what ActBreakStart = ''start a break''"

fun why :: "notice_reason \<Rightarrow> string" where
  "why ReasonSchedule = ''Scheduled''"
| "why ReasonDailyLimit = ''Daily limit reached''"
| "why ReasonMandatoryBreak = ''Time for a break''"
| "why ReasonRemoteCommand = ''Requested by an administrator''"

definition remaining_phrase :: "int \<Rightarrow> string" where
  "remaining_phrase seconds0 =
     (let s = max seconds0 0 in
      if s \<ge> 120 then ''in '' @ show_int ((s + 30) sdiv 60) @ '' minutes''
      else if s \<ge> 60 then ''in 1 minute''
      else if s \<le> 1 then ''in 1 second''
      else ''in '' @ show_int s @ '' seconds'')"

definition warning_text :: "toast_due \<Rightarrow> string \<Rightarrow> toast_text" where
  "warning_text due at_local =
     \<lparr> tt_title = ''This computer will '' @ what (pa_action (td_action due)) @ '' '' @ remaining_phrase (td_remaining due),
       tt_body = why (pa_reason (td_action due)) @ '': '' @ what (pa_action (td_action due)) @ '' at '' @ at_local @
         ''. Save your work.'',
       tt_urgent = (td_threshold due \<le> 60) \<rparr>"

definition message_text :: "string option \<Rightarrow> string \<Rightarrow> toast_text" where
  "message_text title body =
     \<lparr> tt_title = (case title of Some t \<Rightarrow> t | None \<Rightarrow> ''TimeLord''), tt_body = body, tt_urgent = False \<rparr>"

section \<open>The toast document\<close>

text \<open>\<^verbatim>\<open>str::replace\<close> of one character\<close>

definition replace_char :: "char \<Rightarrow> string \<Rightarrow> string \<Rightarrow> string" where
  "replace_char c r s = concat (map (\<lambda>x. if x = c then r else [x]) s)"

definition escape :: "string \<Rightarrow> string" where
  "escape s =
     replace_char (CHR 0x27) ''&apos;'' (replace_char (CHR 0x22) ''&quot;'' (replace_char (CHR ''>'') ''&gt;''
       (replace_char (CHR ''<'') ''&lt;'' (replace_char (CHR ''&'') ''&amp;'' s))))"

abbreviation quote :: string where "quote \<equiv> [CHR 0x22]"

definition toast_xml :: "toast_text \<Rightarrow> string" where
  "toast_xml t =
     (let (scenario, actions) =
        (if tt_urgent t
         then ('' scenario='' @ quote @ ''reminder'' @ quote,
               ''<actions><action content='' @ quote @ ''Dismiss'' @ quote @ '' arguments='' @ quote @ ''dismiss'' @ quote @
               '' activationType='' @ quote @ ''system'' @ quote @ ''/></actions>'')
         else ([], []))
      in ''<toast'' @ scenario @ ''><visual><binding template='' @ quote @ ''ToastGeneric'' @ quote @ ''><text>'' @
         escape (tt_title t) @ ''</text><text>'' @ escape (tt_body t) @ ''</text></binding></visual>'' @ actions @ ''</toast>'')"

section \<open>Reading it back\<close>

definition escape_char :: "char \<Rightarrow> string" where
  "escape_char c =
     (if c = CHR ''&'' then ''&amp;'' else if c = CHR ''<'' then ''&lt;'' else if c = CHR ''>'' then ''&gt;''
      else if c = CHR 0x22 then ''&quot;'' else if c = CHR 0x27 then ''&apos;'' else [c])"

definition entities :: "(string \<times> char) list" where
  "entities = [(''&amp;'', CHR ''&''), (''&lt;'', CHR ''<''), (''&gt;'', CHR ''>''), (''&quot;'', CHR 0x22), (''&apos;'', CHR 0x27)]"

definition has_prefix :: "string \<Rightarrow> string \<Rightarrow> bool" where
  "has_prefix p s \<longleftrightarrow> take (length p) s = p"

text \<open>The character data of an XML text node; \<open>n\<close> bounds the length.\<close>

fun unescape :: "nat \<Rightarrow> string \<Rightarrow> string" where
  "unescape 0 s = []"
| "unescape (Suc n) [] = []"
| "unescape (Suc n) (c # s) =
     (case find (\<lambda>(e, _). has_prefix e (c # s)) entities of
        Some (e, d) \<Rightarrow> d # unescape n (drop (length e) (c # s))
      | None \<Rightarrow> c # unescape n s)"

fun find_after :: "string \<Rightarrow> string \<Rightarrow> string option" where
  "find_after p [] = None"
| "find_after p (c # s) = (if has_prefix p (c # s) then Some (drop (length p) (c # s)) else find_after p s)"

text \<open>The text of the next \<^verbatim>\<open>text\<close> element, up to the next tag, and the rest.\<close>

definition read_text :: "string \<Rightarrow> (string \<times> string) option" where
  "read_text s =
     (case find_after ''<text>'' s of
        None \<Rightarrow> None
      | Some r \<Rightarrow> (let raw = takeWhile (\<lambda>c. c \<noteq> CHR ''<'') r
                   in Some (unescape (length raw) raw, dropWhile (\<lambda>c. c \<noteq> CHR ''<'') r)))"

lemma replace_char_append [simp]: "replace_char c r (s @ t) = replace_char c r s @ replace_char c r t"
  by (simp add: replace_char_def)

lemma escape_append: "escape (s @ t) = escape s @ escape t"
  by (simp add: escape_def)

lemma escape_single: "escape [c] = escape_char c"
  by (simp add: escape_def escape_char_def replace_char_def)

lemma escape_one_pass: "escape s = concat (map escape_char s)"
proof (induction s)
  case Nil
  then show ?case by (simp add: escape_def replace_char_def)
next
  case (Cons c s)
  then show ?case using escape_append [of "[c]" s] by (simp add: escape_single)
qed

lemma escape_no_markup:
  "CHR ''<'' \<notin> set (escape s)" "CHR ''>'' \<notin> set (escape s)" "CHR 0x22 \<notin> set (escape s)" "CHR 0x27 \<notin> set (escape s)"
  by (auto simp: escape_one_pass escape_char_def split: if_splits)

lemma unescape_step: "unescape (Suc n) (escape_char c @ t) = c # unescape n t"
  by (auto simp: escape_char_def entities_def has_prefix_def)

lemma length_escape_char: "1 \<le> length (escape_char c)"
  by (simp add: escape_char_def)

lemma unescape_escape: "length (escape s) \<le> n \<Longrightarrow> unescape n (escape s) = s"
proof (induction s arbitrary: n)
  case Nil
  then show ?case by (cases n) (simp_all add: escape_def replace_char_def)
next
  case (Cons c s)
  have e: "escape (c # s) = escape_char c @ escape s"
    using escape_append [of "[c]" s] by (simp add: escape_single)
  then have "length (escape s) + 1 \<le> n" using Cons.prems length_escape_char [of c] by simp
  then obtain k where k: "n = Suc k" "length (escape s) \<le> k"
    by (cases n) (simp_all del: One_nat_def)
  from Cons.IH [OF k(2)] show ?case unfolding e k(1) unescape_step by simp
qed

lemma read_text_step:
  assumes "find_after ''<text>'' s = Some (escape t @ CHR ''<'' # rest)"
  shows "read_text s = Some (t, CHR ''<'' # rest)"
proof -
  have "takeWhile (\<lambda>c. c \<noteq> CHR ''<'') (escape t @ CHR ''<'' # rest) = escape t"
    "dropWhile (\<lambda>c. c \<noteq> CHR ''<'') (escape t @ CHR ''<'' # rest) = CHR ''<'' # rest"
    using escape_no_markup(1) [of t] by (auto simp: takeWhile_append dropWhile_append)
  then show ?thesis using assms unescape_escape [of t "length (escape t)"] by (simp add: read_text_def Let_def)
qed

section \<open>Properties\<close>

text \<open>
  Property C31. Escaping by five passes of replacement is the same as replacing every special character once (the
  ampersand goes first, so no inserted entity is escaped again), the result holds no markup character, and reading the entities
  back gives the text: two texts never have the same escaped form.
\<close>

theorem escape_faithful:
  "escape s = concat (map escape_char s) \<and> set (escape s) \<inter> {CHR ''<'', CHR ''>'', CHR 0x22, CHR 0x27} = {} \<and>
   unescape (length (escape s)) (escape s) = s"
  using escape_one_pass escape_no_markup [of s] unescape_escape [of s "length (escape s)"] by auto

text \<open>
  The toast document shows the title and the body as they are, whatever characters they contain: a reader finds two
  text elements, whose contents are the title and the body, and no third one. The document keeps the toast on
  screen (scenario and button) exactly for an urgent text.
\<close>

theorem toast_shows_text:
  "\<exists>rest rest'. read_text (toast_xml t) = Some (tt_title t, rest) \<and> read_text rest = Some (tt_body t, rest') \<and>
     read_text rest' = None \<and>
     (find_after '' scenario='' (toast_xml (t\<lparr>tt_title := [], tt_body := []\<rparr>)) \<noteq> None \<longleftrightarrow> tt_urgent t)"
proof -
  define tail where "tail = ''/text></binding></visual>'' @ (if tt_urgent t then
      ''<actions><action content='' @ quote @ ''Dismiss'' @ quote @ '' arguments='' @ quote @ ''dismiss'' @ quote @
      '' activationType='' @ quote @ ''system'' @ quote @ ''/></actions>'' else []) @ ''</toast>''"
  have "find_after ''<text>'' (toast_xml t) =
      Some (escape (tt_title t) @ CHR ''<'' # ''/text><text>'' @ escape (tt_body t) @ CHR ''<'' # tail)"
    by (cases "tt_urgent t") (simp_all add: toast_xml_def tail_def has_prefix_def)
  from read_text_step [OF this]
  have 1: "read_text (toast_xml t) = Some (tt_title t, CHR ''<'' # ''/text><text>'' @ escape (tt_body t) @ CHR ''<'' # tail)" .
  have 2: "read_text (CHR ''<'' # ''/text><text>'' @ escape (tt_body t) @ CHR ''<'' # tail) = Some (tt_body t, CHR ''<'' # tail)"
    by (rule read_text_step) (simp add: has_prefix_def)
  have 3: "read_text (CHR ''<'' # tail) = None"
    by (cases "tt_urgent t") (simp_all add: read_text_def tail_def has_prefix_def)
  have 4: "find_after '' scenario='' (toast_xml (t\<lparr>tt_title := [], tt_body := []\<rparr>)) \<noteq> None \<longleftrightarrow> tt_urgent t"
    by (cases "tt_urgent t") (simp_all add: toast_xml_def has_prefix_def escape_def replace_char_def)
  from 1 2 3 4 show ?thesis by blast
qed

end
