(* ===== verification/Notifier.thy ===== *)
theory Notifier
  imports Notifier_Text Filesystem
begin

text \<open>
  The notifier program: its memory of shown messages (\<^verbatim>\<open>notifier/src/state.rs\<close>, an instance of \<open>cached_file\<close>), its log
  (\<^verbatim>\<open>logfile.rs\<close>), the round trip to the service (\<^verbatim>\<open>transport.rs\<close>) and one turn of the loop in \<^verbatim>\<open>main.rs\<close>. What the user sees is a
  list of \<open>ui_action\<close>s. The pipe, JSON and the local time zone are fields of \<open>notifier_env\<close>.
\<close>

section \<open>Remembering shown messages\<close>

type_synonym ids_codec = "uuid list codec"

definition load_shown :: "ids_codec \<Rightarrow> filesystem \<Rightarrow> path \<Rightarrow> uuid list" where
  "load_shown C fs p =
     (case read_to_string fs p of
        Inl _ \<Rightarrow> []
      | Inr text \<Rightarrow> (case from_text C text of Some ids \<Rightarrow> ids | None \<Rightarrow> []))"

definition save_shown :: "ids_codec \<Rightarrow> filesystem \<Rightarrow> path \<Rightarrow> uuid list \<Rightarrow> filesystem \<times> (io_error + unit)" where
  "save_shown C fs p ids =
     (case (if p = [] then None else mkdir_fault fs (butlast p)) of
        Some e \<Rightarrow> (fs, Inl (IoOther e))
      | None \<Rightarrow> write_via_temp fs p (to_text C ids))"

interpretation shown_cache: cached_file codec_ok to_text "\<lambda>ids. ids" "\<lambda>C fs p ids. write_via_temp fs p (to_text C ids)" load_shown
  by unfold_locales (auto simp: load_shown_def codec_simps)

section \<open>The log\<close>

definition MAX_BYTES :: nat where
  "MAX_BYTES = 256 * 1024"

text \<open>Opening for append and writing a line.\<close>

definition fs_append :: "filesystem \<Rightarrow> path \<Rightarrow> string \<Rightarrow> filesystem \<times> (io_error + unit)" where
  "fs_append fs p bytes = fs_write fs p ((case files fs p of Some t \<Rightarrow> t | None \<Rightarrow> []) @ bytes)"

definition too_big :: "filesystem \<Rightarrow> path \<Rightarrow> nat \<Rightarrow> bool" where
  "too_big fs p max_bytes = (case files fs p of Some t \<Rightarrow> length t > max_bytes | None \<Rightarrow> False)"

definition log_append :: "string \<Rightarrow> filesystem \<Rightarrow> path \<Rightarrow> string \<Rightarrow> nat \<Rightarrow> filesystem \<times> (io_error + unit)" where
  "log_append stamp fs p msg max_bytes =
     (case (if p = [] then None else mkdir_fault fs (butlast p)) of
        Some e \<Rightarrow> (fs, Inl (IoOther e))
      | None \<Rightarrow>
          (let fs1 = (if too_big fs p max_bytes then fst (fs_rename fs p (with_extension p ''log.old'')) else fs)
           in fs_append fs1 p (stamp @ '' '' @ msg @ [CHR 0x0A])))"

section \<open>One turn of the notifier\<close>

datatype ui_action =
    ShowWarning uuid toast_text
  | DismissWarning uuid
  | ShowMessage uuid toast_text

record notifier_env =
  ne_enc_request :: "request \<Rightarrow> string"
  ne_dec_response :: "string \<Rightarrow> response option"
  ne_pipe :: "string \<Rightarrow> string + string"  \<comment> \<open>bytes written, line read\<close>
  ne_ids :: ids_codec
  ne_local_time :: "datetime \<Rightarrow> string"
  ne_state_path :: path
  ne_stamp :: string
  ne_io_text :: "io_error \<Rightarrow> string"

definition log_line :: "notifier_env \<Rightarrow> string \<Rightarrow> filesystem \<Rightarrow> filesystem" where
  "log_line N msg fs =
     fst (log_append (ne_stamp N) fs (with_file_name (ne_state_path N) ''notifier.log'') msg MAX_BYTES)"

definition transport_call :: "notifier_env \<Rightarrow> request \<Rightarrow> string + response" where
  "transport_call N rq =
     (case ne_pipe N (ne_enc_request N rq @ [CHR 0x0A]) of
        Inl e \<Rightarrow> Inl e
      | Inr line \<Rightarrow> (case ne_dec_response N line of Some r \<Rightarrow> Inr r | None \<Rightarrow> Inl ''invalid response''))"

record notifier =
  no_engine :: engine
  no_tracker :: message_tracker
  no_service_was_down :: bool

definition notifier_start :: "notifier_env \<Rightarrow> filesystem \<Rightarrow> notifier" where
  "notifier_start N fs =
     \<lparr> no_engine = default_engine, no_tracker = with_shown (load_shown (ne_ids N) fs (ne_state_path N)),
       no_service_was_down = False \<rparr>"

definition show_new_messages ::
  "notifier_env \<Rightarrow> message_tracker \<Rightarrow> filesystem \<Rightarrow> message_tracker \<times> filesystem \<times> ui_action list" where
  "show_new_messages N t fs =
     (case transport_call N GetMessages of
        Inr (Messages server_utc msgs) \<Rightarrow>
          (let before = shown_ids t;
               (t', fresh) = take_new t msgs server_utc;
               ui = map (\<lambda>m. ShowMessage (msg_id m) (message_text (msg_title m) (msg_body m))) fresh;
               after = shown_ids t';
               fs' = (if after \<noteq> before then
                        (case save_shown (ne_ids N) fs (ne_state_path N) after of
                           (fs1, Inl e) \<Rightarrow> log_line N (''could not save shown messages: '' @ ne_io_text N e) fs1
                         | (fs1, Inr _) \<Rightarrow> fs1)
                      else fs)
           in (t', fs', ui))
      | _ \<Rightarrow> (t, fs, []))"

text \<open>
  \<open>t1\<close> and \<open>t2\<close> are the two readings of the user's clock: the time judged is the service's, moved by what passed between them.
\<close>

definition pending_turn ::
  "notifier_env \<Rightarrow> datetime \<Rightarrow> datetime \<Rightarrow> notifier \<Rightarrow> filesystem \<Rightarrow> notifier \<times> filesystem \<times> ui_action list \<times> nanos" where
  "pending_turn N t1 t2 s fs =
     (case transport_call N GetPending of
        Inr (Pending server_utc actions) \<Rightarrow>
          (let skew = t1 - server_utc;
               (e', tick) = update (no_engine s) actions (t2 - skew);
               ui = map DismissWarning (tk_cancelled tick) @
                    map (\<lambda>d. ShowWarning (pa_id (td_action d)) (warning_text d (ne_local_time N (pa_at_utc (td_action d)))))
                      (tk_toasts tick)
           in (s\<lparr>no_engine := e', no_service_was_down := False\<rparr>, fs, ui,
               (case tk_next_poll tick of Some d \<Rightarrow> d | None \<Rightarrow> seconds 10)))
      | Inr _ \<Rightarrow> (s, fs, [], seconds 10)
      | Inl err \<Rightarrow>
          (if \<not> no_service_was_down s
           then (s\<lparr>no_service_was_down := True\<rparr>, log_line N (''service unavailable: '' @ err) fs, [], seconds 10)
           else (s, fs, [], seconds 10)))"

definition notifier_turn ::
  "notifier_env \<Rightarrow> datetime \<Rightarrow> datetime \<Rightarrow> notifier \<Rightarrow> filesystem \<Rightarrow> notifier \<times> filesystem \<times> ui_action list \<times> nanos" where
  "notifier_turn N t1 t2 s fs =
     (let (t', fs1, ui1) = show_new_messages N (no_tracker s) fs;
          (s', fs2, ui2, wait) = pending_turn N t1 t2 (s\<lparr>no_tracker := t'\<rparr>) fs1
      in (s', fs2, ui1 @ ui2, wait))"

section \<open>Lemmas\<close>

lemma pending_turn_sel:
  assumes "pending_turn N t1 t2 s fs = (s', fs', ui, wait)"
  shows "no_tracker s' = no_tracker s" "fs' = fs \<or> (\<exists>msg. fs' = log_line N msg fs)" "wait \<in> {seconds 2, seconds 10}"
proof -
  show "no_tracker s' = no_tracker s"
    using assms by (auto simp: pending_turn_def Let_def split: sum.splits response.splits prod.splits if_splits)
  show "fs' = fs \<or> (\<exists>msg. fs' = log_line N msg fs)"
    using assms by (auto simp: pending_turn_def Let_def split: sum.splits response.splits prod.splits if_splits)
  have "(case tk_next_poll (snd (update e acts now)) of Some d \<Rightarrow> d | None \<Rightarrow> seconds 10) \<in> {seconds 2, seconds 10}" for e acts now
    by (cases "update e acts now") (simp add: update_sel(5))
  then show "wait \<in> {seconds 2, seconds 10}"
    using assms by (auto simp: pending_turn_def Let_def split_def split: sum.splits response.splits if_splits)
qed

lemma fs_write_elsewhere: "q \<noteq> p \<Longrightarrow> read_to_string (fst (fs_write fs p bytes)) q = read_to_string fs q"
  by (cases "write_result fs p") (auto simp: fs_write_def read_other_file split: option.split)

lemma fs_rename_elsewhere:
  "q \<noteq> p \<Longrightarrow> q \<noteq> p' \<Longrightarrow> read_to_string (fst (fs_rename fs p p')) q = read_to_string fs q"
  by (auto simp: fs_rename_def read_to_string_def split: option.split)

lemma log_append_elsewhere:
  assumes "q \<noteq> p" "q \<noteq> with_extension p ''log.old''"
  shows "read_to_string (fst (log_append stamp fs p msg n)) q = read_to_string fs q"
proof (cases "if p = [] then None else mkdir_fault fs (butlast p)")
  case None
  then show ?thesis
    using fs_write_elsewhere [OF assms(1)] fs_rename_elsewhere [OF assms]
    by (simp add: log_append_def fs_append_def Let_def)
qed (simp add: log_append_def)

lemma log_line_elsewhere:
  assumes "q \<noteq> with_file_name (ne_state_path N) ''notifier.log''"
    "q \<noteq> with_extension (with_file_name (ne_state_path N) ''notifier.log'') ''log.old''"
  shows "read_to_string (log_line N msg fs) q = read_to_string fs q"
  unfolding log_line_def by (rule log_append_elsewhere [OF assms])

text \<open>The paths in the notifier's directory.\<close>

lemma state_file_apart:
  assumes "ne_state_path N = d @ [''notifier-shown.json'']"
  shows "ne_state_path N \<noteq> with_file_name (ne_state_path N) ''notifier.log''"
    "ne_state_path N \<noteq> with_extension (with_file_name (ne_state_path N) ''notifier.log'') ''log.old''"
    "json_file (ne_state_path N)"
  using assms
  by (auto simp: with_file_name_def with_extension_def file_stem_def json_file_def intro: exI [of _ "''notifier-shown''"])

lemma load_after_log:
  assumes "ne_state_path N = d @ [''notifier-shown.json'']"
  shows "load_shown (ne_ids N) (log_line N msg fs) (ne_state_path N) = load_shown (ne_ids N) fs (ne_state_path N)"
  by (rule shown_cache.load_read) (rule log_line_elsewhere [OF state_file_apart(1,2) [OF assms]])

definition saves_work :: "notifier_env \<Rightarrow> filesystem \<Rightarrow> bool" where
  "saves_work N fs \<longleftrightarrow> read_fault fs (ne_state_path N) = None \<and>
     (\<forall>ids. snd (save_shown (ne_ids N) fs (ne_state_path N) ids) = Inr ())"

lemma save_shown_load:
  assumes "codec_ok (ne_ids N)" "json_file (ne_state_path N)" "saves_work N fs"
  shows "load_shown (ne_ids N) (fst (save_shown (ne_ids N) fs (ne_state_path N) ids)) (ne_state_path N) = ids"
proof -
  let ?p = "ne_state_path N" and ?C = "ne_ids N"
  from assms(3) have ok: "snd (save_shown ?C fs ?p ids) = Inr ()" by (simp add: saves_work_def)
  then have "save_shown ?C fs ?p ids = write_via_temp fs ?p (to_text ?C ids)"
    by (auto simp: save_shown_def split: option.splits if_splits)
  with ok obtain fs' where "write_via_temp fs ?p (to_text ?C ids) = (fs', Inr ())" "fst (save_shown ?C fs ?p ids) = fs'"
    by (metis prod.collapse fst_conv)
  with shown_cache.save_then_load [OF assms(1,2) this(1)] assms(3) show ?thesis by (simp add: saves_work_def)
qed

lemma finite_shown_after: "finite (shown t) \<Longrightarrow> take_new t reported now = (t', fresh) \<Longrightarrow> finite (shown t')"
  by (simp add: take_new_sel(3))

lemma with_shown_ids: "finite (shown t) \<Longrightarrow> with_shown (shown_ids t) = t"
  by (simp add: with_shown_def shown_ids_def)

lemma show_new_messages_cases:
  assumes "show_new_messages N t fs = (t', fs', ui)"
  obtains "t' = t" "fs' = fs" "ui = []"
  | now reported fresh where "transport_call N GetMessages = Inr (Messages now reported)" "take_new t reported now = (t', fresh)"
      "ui = map (\<lambda>m. ShowMessage (msg_id m) (message_text (msg_title m) (msg_body m))) fresh"
      "fs' = (if shown_ids t' \<noteq> shown_ids t then
                (case save_shown (ne_ids N) fs (ne_state_path N) (shown_ids t') of
                   (fs1, Inl e) \<Rightarrow> log_line N (''could not save shown messages: '' @ ne_io_text N e) fs1
                 | (fs1, Inr _) \<Rightarrow> fs1)
              else fs)"
  using assms by (auto simp: show_new_messages_def Let_def split: sum.splits response.splits prod.splits)

text \<open>
  The file remembers what the tracker does, and goes on to after a poll that can write it.
\<close>

lemma memory_kept:
  assumes "show_new_messages N t fs = (t', fs', ui)" "ne_state_path N = d @ [''notifier-shown.json'']" "codec_ok (ne_ids N)"
    "saves_work N fs" "with_shown (load_shown (ne_ids N) fs (ne_state_path N)) = t" "finite (shown t)"
  shows "with_shown (load_shown (ne_ids N) fs' (ne_state_path N)) = t' \<and> finite (shown t')"
  using assms(1)
proof (cases rule: show_new_messages_cases)
  case 1
  then show ?thesis using assms by simp
next
  case (2 now reported fresh)
  have fin: "finite (shown t')" using finite_shown_after [OF assms(6) 2(2)] .
  show ?thesis
  proof (cases "shown_ids t' = shown_ids t")
    case True
    with with_shown_ids [OF fin] with_shown_ids [OF assms(6)] have "t' = t" by metis
    with True 2 assms fin show ?thesis by simp
  next
    case False
    obtain fs1 where fs1: "save_shown (ne_ids N) fs (ne_state_path N) (shown_ids t') = (fs1, Inr ())"
      using assms(4) by (metis prod.collapse saves_work_def)
    with save_shown_load [OF assms(3) state_file_apart(3) [OF assms(2)] assms(4), of "shown_ids t'"]
    have "load_shown (ne_ids N) fs1 (ne_state_path N) = shown_ids t'" by simp
    with False 2(4) fs1 fin show ?thesis by (simp add: with_shown_ids)
  qed
qed

section \<open>Properties\<close>

text \<open>
  Property C24. What the notifier has shown survives it: as long as its file can be written, a notifier started after any turn
  (because the user logs on again, or it crashed) has exactly the memory of the one before, so it repeats no
  message and skips none. The log line a turn may write does not touch that file.
\<close>

theorem shown_messages_survive_restart:
  assumes "notifier_turn N t1 t2 s fs = (s', fs', ui, wait)" "ne_state_path N = d @ [''notifier-shown.json'']"
    "codec_ok (ne_ids N)" "saves_work N fs" "finite (shown (no_tracker s))"
    "no_tracker (notifier_start N fs) = no_tracker s"
  shows "no_tracker (notifier_start N fs') = no_tracker s' \<and> finite (shown (no_tracker s')) \<and> wait \<in> {seconds 2, seconds 10}"
proof -
  obtain t' fs1 ui1 where sm: "show_new_messages N (no_tracker s) fs = (t', fs1, ui1)" by (metis prod.exhaust)
  obtain s2 fs2 ui2 w where pt: "pending_turn N t1 t2 (s\<lparr>no_tracker := t'\<rparr>) fs1 = (s2, fs2, ui2, w)" by (metis prod.exhaust)
  from assms(1) sm pt have eq: "s' = s2" "fs' = fs2" "wait = w" by (auto simp: notifier_turn_def)
  from memory_kept [OF sm assms(2-4)] assms(5,6)
  have kept: "with_shown (load_shown (ne_ids N) fs1 (ne_state_path N)) = t'" "finite (shown t')"
    by (simp_all add: notifier_start_def)
  from pending_turn_sel(2) [OF pt] have "load_shown (ne_ids N) fs2 (ne_state_path N) = load_shown (ne_ids N) fs1 (ne_state_path N)"
    using load_after_log [OF assms(2)] by auto
  with kept pending_turn_sel(1,3) [OF pt] eq show ?thesis by (simp add: notifier_start_def)
qed

definition sample_notifier_env :: notifier_env where
  "sample_notifier_env =
     \<lparr> ne_enc_request = (\<lambda>rq. case rq of GetPending \<Rightarrow> ''P'' | GetMessages \<Rightarrow> ''M''),
       ne_dec_response = (\<lambda>line. if line = ''M'' then Some (Messages 0 [sample_msg]) else Some (Pending 0 [sample_pending])),
       ne_pipe = (\<lambda>bytes. Inr (butlast bytes)), ne_ids = codec_of (serial_list serial_word),
       ne_local_time = (\<lambda>_. ''22:30''), ne_state_path = [''notifier-shown.json''], ne_stamp = [],
       ne_io_text = (\<lambda>_. []) \<rparr>"

lemma sample_notifier_ok:
  "codec_ok (ne_ids sample_notifier_env)" "saves_work sample_notifier_env empty_fs"
  "no_tracker (notifier_start sample_notifier_env empty_fs) = with_shown []"
  by (simp_all add: sample_notifier_env_def codec_of_ok saves_work_def save_shown_def write_via_temp_empty_fs
      notifier_start_def load_shown_def read_to_string_def)
    (simp_all add: empty_fs_def write_via_temp_empty_fs [unfolded empty_fs_def])

theorem shown_messages_survive_restart_witness:
  "\<exists>s' fs' ui wait. notifier_turn sample_notifier_env 0 0 (notifier_start sample_notifier_env empty_fs) empty_fs = (s', fs', ui, wait) \<and>
     no_tracker (notifier_start sample_notifier_env fs') = no_tracker s' \<and> no_tracker s' = with_shown [5]"
proof -
  let ?N = sample_notifier_env and ?s = "notifier_start sample_notifier_env empty_fs"
  obtain s' fs' ui wait where turn: "notifier_turn ?N 0 0 ?s empty_fs = (s', fs', ui, wait)" by (metis prod.exhaust)
  have "no_tracker s' = with_shown [5]"
  proof -
    have "transport_call ?N GetMessages = Inr (Messages 0 [sample_msg])"
      by (simp add: transport_call_def sample_notifier_env_def)
    moreover have "fst (take_new (with_shown []) [sample_msg] 0) = with_shown [5]"
      by (simp add: take_new_def with_shown_def sample_msg_def seconds_def)
    ultimately have t: "fst (show_new_messages ?N (no_tracker ?s) empty_fs) = with_shown [5]"
      by (simp add: show_new_messages_def sample_notifier_ok Let_def split_def)
    obtain t' fs1 ui1 where sm: "show_new_messages ?N (no_tracker ?s) empty_fs = (t', fs1, ui1)" by (metis prod.exhaust)
    obtain s2 fs2 ui2 w where pt: "pending_turn ?N 0 0 (?s\<lparr>no_tracker := t'\<rparr>) fs1 = (s2, fs2, ui2, w)" by (metis prod.exhaust)
    from turn sm pt t pending_turn_sel(1) [OF pt] show ?thesis by (simp add: notifier_turn_def)
  qed
  moreover have "no_tracker (notifier_start ?N fs') = no_tracker s'"
    using shown_messages_survive_restart [OF turn, of "[]"] sample_notifier_ok
    by (simp add: with_shown_def) (simp add: sample_notifier_env_def)
  ultimately show ?thesis using turn by blast
qed

text \<open>
  The log stays bounded and loses at most what an earlier rotation had set aside: after a line was
  written (and the rename, if one was due, worked) the log is no longer than the limit and that line, ends with the line, and
  what it held before is either still there or, if it was over the limit, all in the rotated file.
\<close>

theorem log_append_bounded:
  assumes "log_append stamp fs p msg max_bytes = (fs', Inr ())" "rename_fault fs p = None" "p \<noteq> with_extension p ''log.old''"
    "line = stamp @ '' '' @ msg @ [CHR 0x0A]" "old = (case files fs p of Some t \<Rightarrow> t | None \<Rightarrow> [])"
  shows "\<exists>new. files fs' p = Some new \<and> length new \<le> max_bytes + length line \<and>
    (if length old > max_bytes then new = line \<and> files fs' (with_extension p ''log.old'') = Some old
     else new = old @ line)"
proof -
  have mk: "(if p = [] then None else mkdir_fault fs (butlast p)) = None"
    using assms(1) by (cases "if p = [] then None else mkdir_fault fs (butlast p)") (simp_all add: log_append_def)
  let ?q = "with_extension p ''log.old''"
  define fs1 where "fs1 = (if too_big fs p max_bytes then fst (fs_rename fs p ?q) else fs)"
  have fs': "fs_append fs1 p line = (fs', Inr ())"
    using assms(1,4) mk by (simp add: log_append_def fs1_def Let_def)
  then have f: "files fs' = (files fs1)(p := Some ((case files fs1 p of Some t \<Rightarrow> t | None \<Rightarrow> []) @ line))"
    by (auto simp: fs_append_def fs_write_def split: write_outcome.splits option.splits)
  show ?thesis
  proof (cases "length old > max_bytes")
    case True
    then have "files fs p = Some old" using assms(5) by (auto split: option.splits)
    with True have "files fs1 = (files fs)(?q := Some old, p := None)"
      using assms(2) by (simp add: fs1_def too_big_def fs_rename_def)
    with True f assms(3) show ?thesis by auto
  next
    case False
    then have "fs1 = fs" using assms(5) by (auto simp: fs1_def too_big_def split: option.splits)
    with False f assms(5) show ?thesis by simp
  qed
qed

theorem log_append_bounded_witness:
  "\<exists>fs'. log_append ''now'' (empty_fs\<lparr>files := [[''notifier.log''] \<mapsto> ''0123456789'']\<rparr>) [''notifier.log''] ''x'' 4 = (fs', Inr ()) \<and>
     files fs' [''notifier.log''] = Some (''now x'' @ [CHR 0x0A]) \<and> files fs' [''notifier.log.old''] = Some ''0123456789''"
proof -
  let ?fs = "empty_fs\<lparr>files := [[''notifier.log''] \<mapsto> ''0123456789'']\<rparr>" and ?p = "[''notifier.log'']"
  have q: "with_extension ?p ''log.old'' = [''notifier.log.old'']"
    by (simp add: with_extension_def file_stem_def)
  obtain fs' where ap: "log_append ''now'' ?fs ?p ''x'' 4 = (fs', Inr ())"
    by (simp add: log_append_def fs_append_def fs_write_def fs_rename_def too_big_def empty_fs_def q Let_def)
  from log_append_bounded [OF ap _ _ refl refl] ap show ?thesis by (auto simp: q empty_fs_def)
qed

end
