(* ===== verification/Notifier_Link.thy ===== *)
theory Notifier_Link
  imports System Notify_Pipe Notifier
begin

text \<open>
  The two ends of the pipe together (\<^verbatim>\<open>agent/src/notify_pipe.rs\<close> and \<^verbatim>\<open>notifier/src/transport.rs\<close>): how the bytes one side writes
  become the lines the other reads, the rights the client asks for, and that a round trip delivers the agent's
  answer. The JSON of both ends is serde's; what is used of it is \<open>pipe_codecs_ok\<close>.
\<close>

section \<open>Lines\<close>

text \<open>
  \<^verbatim>\<open>AsyncBufReadExt::lines\<close>: a line ends at a line feed, which is dropped together with a carriage return before
  it; what is left at the end of the input is a line too.
\<close>

definition chomp :: "string \<Rightarrow> string" where
  "chomp line = (if line \<noteq> [] \<and> last line = CHR 0x0D then butlast line else line)"

function lines_of :: "string \<Rightarrow> string list" where
  "lines_of [] = []"
| "lines_of (c # cs) =
     (case dropWhile (\<lambda>x. x \<noteq> CHR 0x0A) (c # cs) of
        [] \<Rightarrow> [c # cs]
      | _ # rest \<Rightarrow> chomp (takeWhile (\<lambda>x. x \<noteq> CHR 0x0A) (c # cs)) # lines_of rest)"
  by pat_completeness auto

termination
proof (relation "measure length")
  fix c :: char and cs x rest
  assume "dropWhile (\<lambda>x. x \<noteq> CHR 0x0A) (c # cs) = x # rest"
  then show "(rest, c # cs) \<in> measure length"
    using length_dropWhile_le [of "\<lambda>x. x \<noteq> CHR 0x0A" "c # cs"] by simp
qed simp

text \<open>\<^verbatim>\<open>BufRead::read_line\<close>: up to and with the first line feed.\<close>

definition read_line :: "string \<Rightarrow> string" where
  "read_line bytes = takeWhile (\<lambda>x. x \<noteq> CHR 0x0A) bytes @ (if CHR 0x0A \<in> set bytes then [CHR 0x0A] else [])"

section \<open>The exchange\<close>

definition CLIENT_ACCESS :: u32 where
  "CLIENT_ACCESS = 0x0012008b"

text \<open>
  What the client reads after writing \<open>bytes\<close> into a connection that works, while the agent is \<open>a\<close>.
\<close>

definition pipe_exchange :: "('x) pipe_env_scheme \<Rightarrow> moment \<Rightarrow> agent \<Rightarrow> string \<Rightarrow> string + string" where
  "pipe_exchange P m a bytes =
     Inr (read_line (concat (serve_connection P
       (map (\<lambda>line. (m, a, Line line, True)) (lines_of bytes) @ [(m, a, EndOfInput, True)]))))"

abbreviation "linked P m a N \<equiv> N\<lparr>ne_pipe := pipe_exchange P m a\<rparr>"

text \<open>
  What is used of serde: a value written by one end is read back by the other, compact JSON has no line breaks
  and is never empty, and trailing white space does not matter.
\<close>

definition pipe_codecs_ok :: "('x) pipe_env_scheme \<Rightarrow> notifier_env \<Rightarrow> bool" where
  "pipe_codecs_ok P N \<longleftrightarrow>
     (\<forall>rq. ne_enc_request N rq \<noteq> [] \<and> set (ne_enc_request N rq) \<inter> {CHR 0x0A, CHR 0x0D} = {} \<and>
        dec_request P (ne_enc_request N rq) = Some rq) \<and>
     (\<forall>r. \<exists>json. enc_response P r = Some json \<and> CHR 0x0A \<notin> set json \<and> ne_dec_response N (json @ [CHR 0x0A]) = Some r)"

lemma takeWhile_line: "x \<notin> set line \<Longrightarrow> takeWhile (\<lambda>y. y \<noteq> x) (line @ x # rest) = line"
  by (induction line) auto

lemma dropWhile_line: "x \<notin> set line \<Longrightarrow> dropWhile (\<lambda>y. y \<noteq> x) (line @ x # rest) = x # rest"
  by (induction line) auto

lemma lines_of_one:
  assumes "line \<noteq> []" "set line \<inter> {CHR 0x0A, CHR 0x0D} = {}"
  shows "lines_of (line @ [CHR 0x0A]) = [line]"
proof -
  obtain c cs where line: "line = c # cs" using assms(1) by (cases line) auto
  have "last line \<noteq> CHR 0x0D" using assms(2) last_in_set [OF assms(1)] by (metis disjoint_iff insertCI)
  then have "chomp line = line" by (simp add: chomp_def)
  then show ?thesis
    using takeWhile_line [of "CHR 0x0A" line "[]"] dropWhile_line [of "CHR 0x0A" line "[]"] assms(2)
    unfolding line append_Cons lines_of.simps by (simp add: line)
qed

lemma read_line_one: "CHR 0x0A \<notin> set line \<Longrightarrow> read_line (line @ [CHR 0x0A]) = line @ [CHR 0x0A]"
  using takeWhile_line [of "CHR 0x0A" line "[]"] by (simp add: read_line_def)

lemma linked_call:
  assumes "pipe_codecs_ok P N"
  shows "transport_call (linked P m a N) rq =
    Inr (respond P rq (schedule_for_notices m a) (live_messages m a) (agent_now m a))"
proof -
  let ?r = "respond P rq (schedule_for_notices m a) (live_messages m a) (agent_now m a)"
  from assms have rq: "ne_enc_request N rq \<noteq> []" "set (ne_enc_request N rq) \<inter> {CHR 0x0A, CHR 0x0D} = {}"
    "dec_request P (ne_enc_request N rq) = Some rq" unfolding pipe_codecs_ok_def by blast+
  from assms obtain json where json: "enc_response P ?r = Some json" "CHR 0x0A \<notin> set json"
    "ne_dec_response N (json @ [CHR 0x0A]) = Some ?r" unfolding pipe_codecs_ok_def by blast
  have "pipe_exchange P m a (ne_enc_request N rq @ [CHR 0x0A]) = Inr (json @ [CHR 0x0A])"
    by (simp add: pipe_exchange_def lines_of_one [OF rq(1,2)] handle_line_def rq(3) json(1) read_line_one [OF json(2)])
  then show ?thesis by (simp add: transport_call_def json(3))
qed

text \<open>
  Property C29. A round trip over the pipe gives the notifier exactly the agent's answer: the actions that are coming and the live messages, both as the
  agent's schedule, messages and trusted clock are at that moment, whatever else the notifier's environment is.
\<close>

theorem pipe_roundtrip:
  assumes "pipe_codecs_ok P N"
  shows "transport_call (N\<lparr>ne_pipe := pipe_exchange P m a\<rparr>) GetPending =
      Inr (Pending (agent_now m a) (upcoming_actions P (schedule_for_notices m a) (agent_now m a))) \<and>
    transport_call (N\<lparr>ne_pipe := pipe_exchange P m a\<rparr>) GetMessages =
      Inr (Messages (agent_now m a) (map to_message (live_messages m a)))"
proof -
  have "filter (\<lambda>x. am_expires_at x > agent_now m a) (live_messages m a) = live_messages m a"
    by (simp add: live_messages_def live_def)
  then show ?thesis by (simp add: linked_call [OF assms] respond_def)
qed

section \<open>A concrete link\<close>

text \<open>Serialisers that write zeros and ones only.\<close>

definition plain :: "'a serial \<Rightarrow> bool" where
  "plain s \<longleftrightarrow> serial_ok s \<and> (\<forall>a. set (put s a) \<subseteq> set ''01'')"

lemma plain_nat: "plain serial_nat"
proof -
  have "set (put serial_nat n) \<subseteq> set ''01''" for n by (auto simp: serial_nat_def)
  then show ?thesis by (simp add: plain_def)
qed

lemma plain_iso: "plain s \<Longrightarrow> (\<And>a. g (f a) = a) \<Longrightarrow> plain (serial_iso f g s)"
  by (simp add: plain_def serial_iso_ok) (simp add: serial_iso_def)

lemma plain_prod: "plain s \<Longrightarrow> plain t \<Longrightarrow> plain (serial_prod s t)"
  by (simp add: plain_def) (simp add: serial_prod_def split_def)

lemma plain_list: "plain s \<Longrightarrow> plain (serial_list s)"
proof -
  assume s: "plain s"
  have "set (put (serial_list s) xs) \<subseteq> set ''01''" for xs
    using plain_nat s by (auto simp: serial_list_def plain_def)
  with s show ?thesis by (simp add: plain_def)
qed

lemma plain_values: "plain serial_int" "plain (serial_word :: 'a::len word serial)" "plain serial_string"
  "plain s \<Longrightarrow> plain (serial_option s)" "(\<And>v. v \<in> set vs) \<Longrightarrow> plain (serial_enum vs)"
  unfolding serial_int_def serial_word_def serial_string_def serial_option_def serial_enum_def
  by (auto intro!: plain_iso plain_prod plain_list plain_nat split: option.splits)

definition serial_pending :: "pending_action serial" where
  "serial_pending = serial_iso (\<lambda>p. (pa_id p, pa_action p, pa_at_utc p, pa_reason p))
     (\<lambda>(i, act, at, r). \<lparr> pa_id = i, pa_action = act, pa_at_utc = at, pa_reason = r \<rparr>)
     (serial_prod serial_word (serial_prod (serial_enum [ActShutdown, ActRestart, ActSleep, ActLogoff, ActLock, ActBreakStart])
       (serial_prod serial_int (serial_enum [ReasonSchedule, ReasonDailyLimit, ReasonMandatoryBreak, ReasonRemoteCommand]))))"

definition serial_user_message :: "message serial" where
  "serial_user_message = serial_iso (\<lambda>m. (msg_id m, msg_title m, msg_body m, msg_sent_utc m, msg_expires_utc m))
     (\<lambda>(i, t, b, s, e). \<lparr> msg_id = i, msg_title = t, msg_body = b, msg_sent_utc = s, msg_expires_utc = e \<rparr>)
     (serial_prod serial_word (serial_prod (serial_option serial_string) (serial_prod serial_string
       (serial_prod serial_int serial_int))))"

definition serial_response :: "response serial" where
  "serial_response = serial_iso
     (\<lambda>r. case r of Pending t ps \<Rightarrow> (0, t, ps, []) | Messages t ms \<Rightarrow> (1, t, [], ms))
     (\<lambda>(k, t, ps, ms). if k = 0 then Pending t ps else Messages t ms)
     (serial_prod serial_nat (serial_prod serial_int (serial_prod (serial_list serial_pending) (serial_list serial_user_message))))"

lemma plain_enums:
  "plain (serial_enum [ActShutdown, ActRestart, ActSleep, ActLogoff, ActLock, ActBreakStart])"
  "plain (serial_enum [ReasonSchedule, ReasonDailyLimit, ReasonMandatoryBreak, ReasonRemoteCommand])"
proof -
  have "v \<in> set [ActShutdown, ActRestart, ActSleep, ActLogoff, ActLock, ActBreakStart]" for v
    by (cases v) simp_all
  then show "plain (serial_enum [ActShutdown, ActRestart, ActSleep, ActLogoff, ActLock, ActBreakStart])"
    by (rule plain_values(5))
  have "v \<in> set [ReasonSchedule, ReasonDailyLimit, ReasonMandatoryBreak, ReasonRemoteCommand]" for v
    by (cases v) simp_all
  then show "plain (serial_enum [ReasonSchedule, ReasonDailyLimit, ReasonMandatoryBreak, ReasonRemoteCommand])"
    by (rule plain_values(5))
qed

lemma plain_response: "plain serial_response"
  unfolding serial_response_def serial_pending_def serial_user_message_def
  by (intro plain_iso plain_prod plain_list plain_nat plain_values(1-4) plain_enums) (auto split: response.split)

definition linked_pipe_env :: pipe_env where
  "linked_pipe_env =
     \<lparr> uuid_to_string = uuid_to_string sample_text_env, uuid_parse_str = uuid_parse_str sample_text_env,
       to_rfc3339 = to_rfc3339 sample_text_env, parse_rfc3339 = parse_rfc3339 sample_text_env,
       new_v5 = (\<lambda>_ name. of_nat (length name)),
       dec_request = (\<lambda>line. if line = ''P'' then Some GetPending else if line = ''M'' then Some GetMessages else None),
       enc_response = (\<lambda>r. Some (put serial_response r)) \<rparr>"

definition linked_notifier_env :: notifier_env where
  "linked_notifier_env = sample_notifier_env\<lparr>ne_dec_response := \<lambda>line. map_option fst (get serial_response line)\<rparr>"

lemma linked_codecs_ok: "pipe_codecs_ok linked_pipe_env linked_notifier_env"
proof -
  have "get serial_response (put serial_response r @ [CHR 0x0A]) = Some (r, [CHR 0x0A])"
    "CHR 0x0A \<notin> set (put serial_response r)" for r
    using plain_response by (auto simp: plain_def)
  then show ?thesis
    by (simp add: pipe_codecs_ok_def linked_pipe_env_def linked_notifier_env_def sample_notifier_env_def split: request.split)
qed

theorem pipe_roundtrip_witness:
  "\<exists>ps. transport_call (linked_notifier_env\<lparr>ne_pipe := pipe_exchange linked_pipe_env (sample_moment 0) (sy_agent sample_boot)\<rparr>)
     GetPending = Inr (Pending 0 ps)"
proof -
  have "agent_now (sample_moment 0) (sy_agent sample_boot) = 0"
    by (simp add: agent_now_def trusted_now_def sample_boot_sel clock_new_def sample_moment_def millis_def)
  with pipe_roundtrip [OF linked_codecs_ok, of "sample_moment 0" "sy_agent sample_boot"] show ?thesis by auto
qed

section \<open>The rights\<close>

text \<open>
  The client asks for exactly the rights the access list gives to users: reading and writing data and attributes (1, 2, 8, 0x80), the security descriptor and waiting
  (0x20000, 0x100000), and not 4, which would allow it to create instances of the pipe and pose as the service.
\<close>

lemma client_access_granted:
  "CLIENT_ACCESS = USER_RIGHTS" "CLIENT_ACCESS = or 1 (or 2 (or 8 (or 0x80 (or 0x20000 0x100000))))"
  "and CLIENT_ACCESS 4 = 0"
  unfolding user_rights(1) by (simp_all add: CLIENT_ACCESS_def)

end
