(* ===== verification/Notices.thy ===== *)
theory Notices
  imports Agent_Laws Notifier_Link
begin

text \<open>
  The agent and the notifier together. What the service announces over the pipe is what its enforcement loop will
  do at that time if nothing new is learnt before it.
\<close>

section \<open>Announcements and enforcement\<close>

lemma view_persists:
  assumes "fst (enforcement_view m g a) = Some sc" "mono m' = mono m + d" "0 \<le> d"
  shows "fst (enforcement_view m' g a) = Some sc"
  using assms by (auto simp: enforcement_view_def enforcement_ready_def Let_def split: if_splits)

lemma window_entered:
  assumes "active_window sc now = None" "active_window sc now' = Some w" "now \<le> now'"
  shows "w \<in> set (windows sc) \<and> now < off_at w \<and> off_at w \<le> now'"
proof -
  from active_window_Some [OF assms(2)] have w: "w \<in> set (windows sc)" "off_at w \<le> now'" "now' < on_at w"
    by (auto simp: in_window_def)
  moreover have "\<not> in_window now w" using assms(1) w(1) by (simp add: active_window_None)
  ultimately show ?thesis using assms(3) by (auto simp: in_window_def)
qed

lemma turn_acts:
  assumes "sys m' = sys m + d" "mono m' = mono m + d" "0 \<le> d" "schedule_for_notices m a = Some sc"
  shows "en_action (enforcement_turn E m' m1 outcome (a, None)) =
    (if active_window sc (agent_now m' a) = None then None else Some (action sc))"
proof -
  have "en_action (enforcement_turn E m' m1 outcome (a, None)) =
      (case fst (enforcement_view m' SCHEDULE_SYNC_GRACE a) of
         None \<Rightarrow> None
       | Some sc \<Rightarrow> if active_window sc (agent_now m' a) = None then None else Some (action sc))"
    by (rule enforcement_turn_act) simp
  moreover have "fst (enforcement_view m' SCHEDULE_SYNC_GRACE a) = Some sc"
    using view_persists [OF _ assms(2,3)] assms(4) by (simp add: schedule_for_notices_def)
  ultimately show ?thesis by simp
qed

text \<open>A schedule is held back while it is neither confirmed nor out of its grace period.\<close>

lemma held_back:
  "schedule_for_notices m a = None \<longleftrightarrow>
     ag_schedule a = None \<or> \<not> (confirmed (ag_sync a) \<and> is_ready (ag_clock a)) \<and> mono m - since (ag_sync a) < seconds 90"
proof -
  have "0 < seconds 90" by (simp add: seconds_def)
  then show ?thesis
    by (auto simp: schedule_for_notices_def enforcement_view_def enforcement_ready_def SCHEDULE_SYNC_GRACE_def Let_def)
qed

lemma window_start_active:
  "w \<in> set (windows sc) \<Longrightarrow> off_at w < on_at w \<Longrightarrow> active_window sc (off_at w) \<noteq> None"
  by (auto simp: active_window_None in_window_def)

lemma announcement_kept:
  assumes "sys m' = sys m + d" "mono m' = mono m + d" "0 \<le> d" "p \<in> set (upcoming_actions P (schedule_for_notices m a) (agent_now m a))"
    "\<forall>sc w. schedule_for_notices m a = Some sc \<and> w \<in> set (windows sc) \<longrightarrow> off_at w < on_at w" "agent_now m' a = pa_at_utc p"
  shows "\<exists>act. en_action (enforcement_turn E m' m1 outcome (a, None)) = Some act \<and> notice_of act = pa_action p"
proof -
  from upcoming_sound [OF assms(4)] obtain sc w where sc: "schedule_for_notices m a = Some sc" "w \<in> set (windows sc)" "pa_at_utc p = off_at w"
    "pa_action p = notice_of (action sc)" by blast
  then have "active_window sc (agent_now m' a) \<noteq> None" using assms(5,6) window_start_active by simp
  with turn_acts [OF assms(1-3) sc(1), of E m1 outcome] sc(4) show ?thesis by simp
qed

lemma action_announced:
  assumes "sys m' = sys m + d" "mono m' = mono m + d" "0 \<le> d" "d \<le> seconds 1800" "schedule_for_notices m a = Some sc"
    "active_window sc (agent_now m a) = None" "en_action (enforcement_turn E m' m1 outcome (a, None)) = Some act"
  shows "\<exists>p \<in> set (upcoming_actions P (Some sc) (agent_now m a)). pa_action p = notice_of act \<and>
     agent_now m a < pa_at_utc p \<and> pa_at_utc p \<le> agent_now m' a"
proof -
  have now: "agent_now m' a = agent_now m a + d" by (rule agent_now_later [OF assms(1)])
  from assms(7) turn_acts [OF assms(1-3,5), of E m1 outcome] have "active_window sc (agent_now m' a) \<noteq> None" "act = action sc"
    by (auto split: if_splits)
  then obtain w where w: "active_window sc (agent_now m' a) = Some w" by blast
  from window_entered [OF assms(6) w] now assms(3)
  have w: "w \<in> set (windows sc)" "agent_now m a < off_at w" "off_at w \<le> agent_now m' a" by simp_all
  then have "off_at w \<le> agent_now m a + seconds HORIZON_SECONDS" using assms(4) now by (simp add: HORIZON_SECONDS_def)
  with w \<open>act = action sc\<close> show ?thesis by (force simp: upcoming_action_iff)
qed

lemma held_then_acts:
  assumes "schedule_for_notices m a = None" "en_action (enforcement_turn E m' m1 outcome (a, None)) = Some act"
  shows "\<not> (confirmed (ag_sync a) \<and> is_ready (ag_clock a))"
    "mono m - since (ag_sync a) < seconds 90" "seconds 90 \<le> mono m' - since (ag_sync a)"
proof -
  note acts = enforcement_turn_acts [OF refl assms(2)]
  from acts(1) have "ag_schedule a \<noteq> None" by blast
  with assms(1) held_back [of m a] show held: "\<not> (confirmed (ag_sync a) \<and> is_ready (ag_clock a))" "mono m - since (ag_sync a) < seconds 90"
    by simp_all
  with acts(2) show "seconds 90 \<le> mono m' - since (ag_sync a)" by blast
qed

text \<open>
  Property C7. The announcements are kept. If the service announces an action and nothing changes (both
  clocks advance alike, the agent's state stays), then the enforcement loop asks for exactly that action at exactly the announced time,
  provided the off window is not empty. Conversely, whatever the enforcement loop does within half an hour of a poll was announced in that poll, for a time
  not after it is done, with two exceptions: the device was already inside an off window at the poll, or the schedule was still held back at the poll
  (neither confirmed nor out of its grace period, so that the poll announced nothing) and the grace period has ended since. (Shutdown requests silenced by the
  cooldown are left out.)
\<close>

theorem announced_iff_enforced:
  assumes "sys m' = sys m + d" "mono m' = mono m + d" "0 \<le> d" "sched = schedule_for_notices m a"
  shows "(\<forall>p \<in> set (upcoming_actions P sched (agent_now m a)).
      (\<forall>sc w. sched = Some sc \<and> w \<in> set (windows sc) \<longrightarrow> off_at w < on_at w) \<and> agent_now m' a = pa_at_utc p \<longrightarrow>
      (\<exists>act. en_action (enforcement_turn E m' m1 outcome (a, None)) = Some act \<and> notice_of act = pa_action p)) \<and>
    (\<forall>act. d \<le> seconds 1800 \<and> en_action (enforcement_turn E m' m1 outcome (a, None)) = Some act \<longrightarrow>
      (\<exists>p \<in> set (upcoming_actions P sched (agent_now m a)). pa_action p = notice_of act \<and>
         agent_now m a < pa_at_utc p \<and> pa_at_utc p \<le> agent_now m' a) \<or>
      (\<exists>sc. sched = Some sc \<and> active_window sc (agent_now m a) \<noteq> None) \<or>
      sched = None \<and> upcoming_actions P sched (agent_now m a) = [] \<and> \<not> (confirmed (ag_sync a) \<and> is_ready (ag_clock a)) \<and>
        mono m - since (ag_sync a) < seconds 90 \<and> seconds 90 \<le> mono m' - since (ag_sync a))"
proof (intro conjI ballI allI impI; (elim conjE)?)
  fix p
  assume "p \<in> set (upcoming_actions P sched (agent_now m a))"
    "\<forall>sc w. sched = Some sc \<and> w \<in> set (windows sc) \<longrightarrow> off_at w < on_at w" "agent_now m' a = pa_at_utc p"
  then show "\<exists>act. en_action (enforcement_turn E m' m1 outcome (a, None)) = Some act \<and> notice_of act = pa_action p"
    unfolding assms(4) by (rule announcement_kept [OF assms(1-3)])
next
  fix act
  assume d: "d \<le> seconds 1800" and en: "en_action (enforcement_turn E m' m1 outcome (a, None)) = Some act"
  show "(\<exists>p \<in> set (upcoming_actions P sched (agent_now m a)). pa_action p = notice_of act \<and>
         agent_now m a < pa_at_utc p \<and> pa_at_utc p \<le> agent_now m' a) \<or>
      (\<exists>sc. sched = Some sc \<and> active_window sc (agent_now m a) \<noteq> None) \<or>
      sched = None \<and> upcoming_actions P sched (agent_now m a) = [] \<and> \<not> (confirmed (ag_sync a) \<and> is_ready (ag_clock a)) \<and>
        mono m - since (ag_sync a) < seconds 90 \<and> seconds 90 \<le> mono m' - since (ag_sync a)"
  proof (cases sched)
    case None
    with held_then_acts [OF _ en, of m] assms(4) show ?thesis by (simp add: upcoming_actions_def)
  next
    case (Some sc)
    then have sc: "schedule_for_notices m a = Some sc" using assms(4) by simp
    show ?thesis
    proof (cases "active_window sc (agent_now m a)")
      case None
      from action_announced [OF assms(1-3) d sc None en] show ?thesis unfolding Some ..
    qed (use Some in simp)
  qed
qed

text \<open>
  The last case is real: a window that starts while the schedule is held back is enforced when the grace period ends, and no poll before that
  announces it.
\<close>

theorem grace_ends_unannounced:
  assumes "ag_schedule a = Some sc" "\<not> (confirmed (ag_sync a) \<and> is_ready (ag_clock a))"
    "seconds 90 \<le> mono m' - since (ag_sync a)" "active_window sc (agent_now m' a) \<noteq> None"
  shows "en_action (enforcement_turn E m' m1 outcome (a, None)) = Some (action sc) \<and>
    (\<forall>m. mono m - since (ag_sync a) < seconds 90 \<longrightarrow> upcoming_actions P (schedule_for_notices m a) (agent_now m a) = [])"
proof
  have "fst (enforcement_view m' SCHEDULE_SYNC_GRACE a) = Some sc"
    using assms(1,3) by (auto simp: enforcement_view_def enforcement_ready_def SCHEDULE_SYNC_GRACE_def Let_def)
  with enforcement_turn_act [of None m' E m1 outcome a] assms(4)
  show "en_action (enforcement_turn E m' m1 outcome (a, None)) = Some (action sc)" by simp
  show "\<forall>m. mono m - since (ag_sync a) < seconds 90 \<longrightarrow> upcoming_actions P (schedule_for_notices m a) (agent_now m a) = []"
    using assms(1,2) by (simp add: held_back [THEN iffD2] upcoming_actions_def)
qed

definition sample_pipe_env :: pipe_env where
  "sample_pipe_env =
     \<lparr> uuid_to_string = uuid_to_string sample_text_env, uuid_parse_str = uuid_parse_str sample_text_env,
       to_rfc3339 = to_rfc3339 sample_text_env, parse_rfc3339 = parse_rfc3339 sample_text_env,
       new_v5 = (\<lambda>_ name. of_nat (length name)),
       dec_request = (\<lambda>line. if line = ''P'' then Some GetPending else if line = ''M'' then Some GetMessages else None),
       enc_response = (\<lambda>r. Some (case r of Pending _ _ \<Rightarrow> ''P'' | Messages _ _ \<Rightarrow> ''M'')) \<rparr>"

lemma waiting_agent_notices:
  "schedule_for_notices (sample_moment 0) waiting_agent =
     Some (sample_schedule\<lparr>windows := [\<lparr> off_at = seconds 30, on_at = seconds 90 \<rparr>]\<rparr>)"
  by (simp add: schedule_for_notices_def waiting_agent_def enforcement_view_def enforcement_ready_def sample_boot_sel
      clock_new_def is_ready_def Let_def)

lemma waiting_agent_now: "agent_now (sample_moment t) waiting_agent = t"
  by (simp add: waiting_agent_def agent_now_def trusted_now_def sample_boot_sel clock_new_def sample_moment_def millis_def)

theorem announced_iff_enforced_witness:
  "\<exists>p \<in> set (upcoming_actions sample_pipe_env (schedule_for_notices (sample_moment 0) waiting_agent) 0).
     pa_at_utc p = seconds 30 \<and> pa_action p = ActShutdown \<and>
     (\<exists>act. en_action (enforcement_turn sample_agent_env (sample_moment (seconds 30)) (sample_moment (seconds 30)) PowerDone
        (waiting_agent, None)) = Some act \<and> notice_of act = ActShutdown)"
proof -
  let ?sched = "schedule_for_notices (sample_moment 0) waiting_agent"
  have "\<exists>p \<in> set (upcoming_actions sample_pipe_env ?sched 0). pa_at_utc p = seconds 30 \<and> pa_action p = ActShutdown"
    unfolding waiting_agent_notices
    by (simp add: upcoming_action_iff sample_schedule_def notice_of_def HORIZON_SECONDS_def seconds_def)
  then obtain p where p: "p \<in> set (upcoming_actions sample_pipe_env ?sched 0)" "pa_at_utc p = seconds 30" "pa_action p = ActShutdown"
    by blast
  have time: "sys (sample_moment (seconds 30)) = sys (sample_moment 0) + seconds 30"
    "mono (sample_moment (seconds 30)) = mono (sample_moment 0) + seconds 30" "0 \<le> seconds 30"
    by (simp_all add: sample_moment_def seconds_def)
  have ne: "\<forall>sc w. ?sched = Some sc \<and> w \<in> set (windows sc) \<longrightarrow> off_at w < on_at w"
    unfolding waiting_agent_notices by (auto simp: seconds_def)
  from announced_iff_enforced [OF time refl, THEN conjunct1, rule_format, of p sample_pipe_env waiting_agent sample_agent_env
      "sample_moment (seconds 30)" PowerDone, unfolded waiting_agent_now, OF p(1) conjI [OF ne p(2) [symmetric]]]
  have "\<exists>act. en_action (enforcement_turn sample_agent_env (sample_moment (seconds 30)) (sample_moment (seconds 30)) PowerDone
        (waiting_agent, None)) = Some act \<and> notice_of act = pa_action p" .
  with p show ?thesis by auto
qed

section \<open>The notifier linked to the agent\<close>

text \<open>
  A run of the notifier against an agent that learns nothing new: each visit is a turn of the notifier's loop, with the moment at which
  the agent answers and the two readings of the user's clock. The result is what the user sees.
\<close>

type_synonym visit = "moment \<times> datetime \<times> datetime"

fun notifier_run :: "pipe_env \<Rightarrow> notifier_env \<Rightarrow> agent \<Rightarrow> notifier \<Rightarrow> filesystem \<Rightarrow> visit list \<Rightarrow> ui_action list" where
  "notifier_run P N a s fs [] = []"
| "notifier_run P N a s fs ((m, t1, t2) # visits) =
     (case notifier_turn (linked P m a N) t1 t2 s fs of
        (s', fs', ui, _) \<Rightarrow> ui @ notifier_run P N a s' fs' visits)"

fun is_warning_of :: "uuid \<Rightarrow> ui_action \<Rightarrow> bool" where
  "is_warning_of i (ShowWarning j _) = (i = j)"
| "is_warning_of i _ = False"

definition judged_time :: "agent \<Rightarrow> visit \<Rightarrow> datetime" where
  "judged_time a = (\<lambda>(m, t1, t2). agent_now m a + (t2 - t1))"

definition poll_at :: "pipe_env \<Rightarrow> agent \<Rightarrow> visit \<Rightarrow> poll" where
  "poll_at P a v = (upcoming_actions P (schedule_for_notices (fst v) a) (agent_now (fst v) a), judged_time a v)"

abbreviation "show_warning N d \<equiv>
  ShowWarning (pa_id (td_action d)) (warning_text d (ne_local_time N (pa_at_utc (td_action d))))"

abbreviation "warnings_of i tick \<equiv> filter (\<lambda>d. pa_id (td_action d) = i) (tk_toasts tick)"

lemma linked_turn:
  assumes "pipe_codecs_ok P N" "notifier_turn (linked P m a N) t1 t2 s fs = (s', fs', ui, wait)"
    "update (no_engine s) (fst (poll_at P a (m, t1, t2))) (snd (poll_at P a (m, t1, t2))) = (e', tick)"
  shows "no_engine s' = e'" "filter (is_warning_of i) ui = map (show_warning N) (warnings_of i tick)"
proof -
  obtain t' fs1 ui1 where sm: "show_new_messages (linked P m a N) (no_tracker s) fs = (t', fs1, ui1)" by (metis prod.exhaust)
  obtain s2 fs2 ui2 w where pt: "pending_turn (linked P m a N) t1 t2 (s\<lparr>no_tracker := t'\<rparr>) fs1 = (s2, fs2, ui2, w)"
    by (metis prod.exhaust)
  from assms(2) sm pt have eq: "s' = s2" "ui = ui1 @ ui2" by (auto simp: notifier_turn_def)
  have "s2 = s\<lparr>no_tracker := t', no_engine := e', no_service_was_down := False\<rparr>"
    "ui2 = map DismissWarning (tk_cancelled tick) @ map (show_warning N) (tk_toasts tick)"
    using pt assms(3) linked_call [OF assms(1), of m a GetPending]
    by (simp_all add: pending_turn_def respond_def poll_at_def judged_time_def Let_def algebra_simps)
  moreover have "filter (is_warning_of i) ui1 = []"
    using sm by (cases rule: show_new_messages_cases) (auto simp: filter_empty_conv)
  moreover have "filter (is_warning_of i) (map DismissWarning us) = []" for us by (induction us) simp_all
  moreover have "filter (is_warning_of i) (map (show_warning N) ds) = map (show_warning N) (filter (\<lambda>d. pa_id (td_action d) = i) ds)" for ds
    by (induction ds) auto
  ultimately show "no_engine s' = e'" "filter (is_warning_of i) ui = map (show_warning N) (warnings_of i tick)"
    by (simp_all add: eq)
qed

lemma notifier_run_warnings:
  assumes "pipe_codecs_ok P N"
  shows "filter (is_warning_of i) (notifier_run P N a s fs visits) =
    map (show_warning N) (concat (map (warnings_of i) (engine_run (no_engine s) (map (poll_at P a) visits))))"
proof (induction visits arbitrary: s fs)
  case (Cons v visits)
  obtain m t1 t2 where v: "v = (m, t1, t2)" by (metis prod.exhaust)
  obtain s' fs' ui wait where turn: "notifier_turn (linked P m a N) t1 t2 s fs = (s', fs', ui, wait)" by (metis prod.exhaust)
  obtain e' tick where u: "update (no_engine s) (fst (poll_at P a v)) (snd (poll_at P a v)) = (e', tick)" by fastforce
  note step = linked_turn [OF assms turn u [unfolded v]]
  have "engine_run (no_engine s) (poll_at P a v # ps) = tick # engine_run e' ps" for ps
    using u by (cases "poll_at P a v") simp
  with Cons.IH [of s' fs'] step turn show ?case by (simp add: v)
qed simp

lemma warned_actions:
  assumes "list_all (pending_in p) polls" "d \<in> set (concat (map (warnings_of (pa_id p)) (engine_run e polls)))"
  shows "td_action d = p"
  using assms
proof (induction polls arbitrary: e)
  case (Cons poll polls)
  obtain actions now where poll: "poll = (actions, now)" by fastforce
  obtain e' tick where u: "update e actions now = (e', tick)" by fastforce
  from Cons.prems(1) poll have p: "distinct (map pa_id actions)" "p \<in> set actions" by (simp_all add: pending_in_def)
  show ?case
  proof (cases "d \<in> set (warnings_of (pa_id p) tick)")
    case True
    then have "td_action d \<in> set actions" "pa_id (td_action d) = pa_id p"
      using update_sel(6) [OF u p(1)] by (auto simp: set_map_filter dest: warning_due_Some)
    with p show ?thesis by (metis distinct_map inj_onD)
  next
    case False
    with Cons u poll show ?thesis by auto
  qed
qed simp

definition notice_for :: "pipe_env \<Rightarrow> schedule \<Rightarrow> off_window \<Rightarrow> pending_action" where
  "notice_for P sc w = \<lparr> pa_id = action_id P (notice_of (action sc)) (off_at w), pa_action = notice_of (action sc),
     pa_at_utc = off_at w, pa_reason = ReasonSchedule \<rparr>"

lemma upcoming_distinct:
  assumes "ids_distinct P sc" "distinct (map off_at (windows sc))"
  shows "distinct (map pa_id (upcoming_actions P (Some sc) now))"
proof -
  have "inj_on (\<lambda>w. action_id P (notice_of (action sc)) (off_at w)) (set (windows sc))"
    using assms by (auto simp: ids_distinct_def inj_on_def distinct_map)
  moreover have "distinct (windows sc)" using assms(2) by (simp add: distinct_map)
  ultimately show ?thesis
    by (auto simp: upcoming_actions_def Let_def comp_def distinct_map intro: inj_on_subset)
qed

lemma notice_pending:
  assumes "ids_distinct P sc" "distinct (map off_at (windows sc))" "w \<in> set (windows sc)"
    "schedule_for_notices (fst v) a = Some sc" "agent_now (fst v) a < off_at w" "off_at w \<le> agent_now (fst v) a + seconds 1800"
  shows "pending_in (notice_for P sc w) (poll_at P a v)"
  using assms upcoming_distinct [OF assms(1,2)]
  by (auto simp: pending_in_def poll_at_def notice_for_def upcoming_action_iff HORIZON_SECONDS_def)

text \<open>Both clocks have gone on alike.\<close>

definition runs_on :: "moment \<Rightarrow> moment \<Rightarrow> bool" where
  "runs_on m m' \<longleftrightarrow> sys m' - sys m = mono m' - mono m \<and> mono m \<le> mono m'"

lemma notices_persist:
  "runs_on m m' \<Longrightarrow> schedule_for_notices m a = Some sc \<Longrightarrow> schedule_for_notices m' a = Some sc"
  using view_persists [of m SCHEDULE_SYNC_GRACE a sc m' "mono m' - mono m"]
  by (simp add: runs_on_def schedule_for_notices_def)

text \<open>
  Property C3. Nobody is cut off unwarned. Take an agent whose schedule may be enforced at some moment and that learns nothing new from then on, and a
  notifier started next to it that comes round at least every 29 seconds (it waits 10, and 2 near the end), from more than five and at most thirty minutes
  before an off window to its last half minute. Then the user sees exactly four warnings of that window, at 15 minutes, 5 minutes, 1 minute and 30
  seconds before it, in that order, each naming the window's start; and at that start the enforcement loop asks for the
  schedule's action.
\<close>

theorem warned_then_enforced:
  assumes codecs: "pipe_codecs_ok P N" and sched: "schedule_for_notices m0 a = Some sc"
    and w: "w \<in> set (windows sc)" "off_at w < on_at w"
    and ids: "ids_distinct P sc" "distinct (map off_at (windows sc))"
    and visits: "list_all (\<lambda>(m, _, _). runs_on m0 m \<and> agent_now m a < off_at w \<and> off_at w \<le> agent_now m a + seconds 1800) visits"
    and watched: "watched (notice_for P sc w) (map (judged_time a) visits)"
    and then_: "runs_on m0 m'" "agent_now m' a = off_at w"
  shows "(\<exists>ds. map td_threshold ds = [900, 300, 60, 30] \<and>
      filter (is_warning_of (action_id P (notice_of (action sc)) (off_at w))) (notifier_run P N a (notifier_start N fs) fs visits) =
        map (\<lambda>d. ShowWarning (action_id P (notice_of (action sc)) (off_at w)) (warning_text d (ne_local_time N (off_at w)))) ds) \<and>
    en_action (enforcement_turn E m' m1 outcome (a, None)) = Some (action sc)"
proof
  let ?p = "notice_for P sc w" and ?polls = "map (poll_at P a) visits"
  let ?ds = "concat (map (warnings_of (pa_id ?p)) (engine_run default_engine ?polls))"
  have pending: "list_all (pending_in ?p) ?polls"
    using visits notices_persist [OF _ sched] unfolding list_all_iff set_map
    by (auto intro!: notice_pending [OF ids w(1)])
  have "map snd ?polls = map (judged_time a) visits" by (simp add: poll_at_def comp_def)
  with watched have "watched ?p (map snd ?polls)" by (simp only:)
  from warned_in_full [OF pending this] have "map td_threshold ?ds = [900, 300, 60, 30]"
    by (simp add: warned_def map_concat comp_def)
  moreover have "filter (is_warning_of (pa_id ?p)) (notifier_run P N a (notifier_start N fs) fs visits) = map (show_warning N) ?ds"
    unfolding notifier_run_warnings [OF codecs] by (simp add: notifier_start_def)
  moreover have "map (show_warning N) ?ds = map (\<lambda>d. ShowWarning (pa_id ?p) (warning_text d (ne_local_time N (off_at w)))) ?ds"
  proof (intro map_cong refl)
    fix d assume "d \<in> set ?ds"
    from warned_actions [OF pending this] have "td_action d = ?p" .
    then show "show_warning N d = ShowWarning (pa_id ?p) (warning_text d (ne_local_time N (off_at w)))"
      by (simp add: notice_for_def)
  qed
  ultimately show "\<exists>ds. map td_threshold ds = [900, 300, 60, 30] \<and>
      filter (is_warning_of (action_id P (notice_of (action sc)) (off_at w))) (notifier_run P N a (notifier_start N fs) fs visits) =
        map (\<lambda>d. ShowWarning (action_id P (notice_of (action sc)) (off_at w)) (warning_text d (ne_local_time N (off_at w)))) ds"
    by (intro exI [of _ ?ds] conjI) (simp_all only: notice_for_def pending_action.simps)
  from then_(1) have "sys m' = sys m0 + (mono m' - mono m0)" "mono m' = mono m0 + (mono m' - mono m0)" "0 \<le> mono m' - mono m0"
    by (simp_all add: runs_on_def)
  from turn_acts [OF this sched] window_start_active [OF w] then_(2)
  show "en_action (enforcement_turn E m' m1 outcome (a, None)) = Some (action sc)" by simp
qed

definition patient_schedule :: schedule where
  "patient_schedule = sample_schedule\<lparr>windows := [\<lparr> off_at = seconds 320, on_at = seconds 3600 \<rparr>]\<rparr>"

definition patient_agent :: agent where
  "patient_agent = waiting_agent\<lparr>ag_schedule := Some patient_schedule\<rparr>"

definition sample_visits :: "visit list" where
  "sample_visits = map (\<lambda>k. (sample_moment (seconds (25 * int k)), 0, 0)) [0..<13]"

lemma patient_agent_now: "agent_now (sample_moment t) patient_agent = t"
  using waiting_agent_now [of t] by (simp add: patient_agent_def agent_now_def)

theorem warned_then_enforced_witness:
  "\<exists>ds. map td_threshold ds = [900, 300, 60, 30] \<and>
     filter (is_warning_of (action_id linked_pipe_env ActShutdown (seconds 320)))
       (notifier_run linked_pipe_env linked_notifier_env patient_agent (notifier_start linked_notifier_env empty_fs) empty_fs sample_visits) =
     map (\<lambda>d. ShowWarning (action_id linked_pipe_env ActShutdown (seconds 320)) (warning_text d ''22:30'')) ds \<and>
     en_action (enforcement_turn sample_agent_env (sample_moment (seconds 320)) (sample_moment (seconds 321)) PowerDone (patient_agent, None)) =
       Some Shutdown"
proof -
  let ?w = "\<lparr> off_at = seconds 320, on_at = seconds 3600 \<rparr>" and ?m = sample_moment
  have sched: "schedule_for_notices (?m 0) patient_agent = Some patient_schedule"
    using waiting_agent_notices
    by (simp add: patient_agent_def schedule_for_notices_def enforcement_view_def Let_def split: if_splits)
  have w: "?w \<in> set (windows patient_schedule)" "off_at ?w < on_at ?w" "ids_distinct linked_pipe_env patient_schedule"
    "distinct (map off_at (windows patient_schedule))"
    by (simp_all add: patient_schedule_def ids_distinct_def seconds_def)
  have times: "map (judged_time patient_agent) sample_visits = map (\<lambda>k. seconds (25 * int k)) [0..<13]"
    by (simp add: sample_visits_def judged_time_def comp_def patient_agent_now)
  have visits: "list_all (\<lambda>(m, _, _). runs_on (?m 0) m \<and> agent_now m patient_agent < off_at ?w \<and>
      off_at ?w \<le> agent_now m patient_agent + seconds 1800) sample_visits"
    by (auto simp: list_all_iff sample_visits_def patient_agent_now runs_on_def) (simp_all add: sample_moment_def seconds_def)
  have "successively (\<lambda>a b. b - a \<le> seconds 29) (map (\<lambda>k. seconds (25 * int k)) [0..<13])"
    "sorted (map (\<lambda>k. seconds (25 * int k)) [0..<13])"
    by code_simp+
  then have watched: "watched (notice_for linked_pipe_env patient_schedule ?w) (map (judged_time patient_agent) sample_visits)"
    unfolding times by (simp add: watched_def notice_for_def hd_map last_map) (simp add: seconds_def num_seconds_nonneg)
  have m': "runs_on (?m 0) (?m (seconds 320))" "agent_now (?m (seconds 320)) patient_agent = off_at ?w"
    by (simp_all add: runs_on_def sample_moment_def seconds_def patient_agent_now [unfolded sample_moment_def])
  have "ne_local_time linked_notifier_env t = ''22:30''" for t by (simp add: linked_notifier_env_def sample_notifier_env_def)
  moreover have "notice_of (action patient_schedule) = ActShutdown" "action patient_schedule = Shutdown"
    by (simp_all add: patient_schedule_def sample_schedule_def notice_of_def)
  moreover note warned_then_enforced [OF linked_codecs_ok sched w visits watched m', of empty_fs sample_agent_env "?m (seconds 321)" PowerDone]
  ultimately show ?thesis by auto
qed

end
