(* ===== verification/Notifier_Ui.thy ===== *)
theory Notifier_Ui
  imports Notifier
begin

text \<open>
  \<^verbatim>\<open>notifier/src/ui.rs\<close> and the start of \<^verbatim>\<open>notifier/src/main.rs\<close>: what becomes of the notifier's \<open>ui_action\<close>s. On Windows each is a
  call to the notification platform, keyed by tag and group; a call that fails is logged. Elsewhere it is printed. Whether a call
  succeeds, the session's mutex and the registry are the environment. \<open>notification_centre\<close> is what Microsoft documents of the platform: a toast replaces
  the one with its tag and group.
\<close>

section \<open>Start\<close>

record init_answer =
  ia_mutex :: "string + bool"  \<comment> \<open>\<^verbatim>\<open>CreateMutexW\<close>: an error, or whether the mutex existed already\<close>
  ia_create_key :: "string option"
  ia_set_value :: "string option"

definition register_aumid :: "init_answer \<Rightarrow> string option" where
  "register_aumid ia = (case ia_create_key ia of Some e \<Rightarrow> Some e | None \<Rightarrow> ia_set_value ia)"

definition ui_init :: "bool \<Rightarrow> init_answer \<Rightarrow> notifier_env \<Rightarrow> filesystem \<Rightarrow> bool \<times> filesystem" where
  "ui_init windows_build ia N fs =
     (if \<not> windows_build then (True, fs)
      else
        (let first = (case ia_mutex ia of Inr existed \<Rightarrow> \<not> existed | Inl _ \<Rightarrow> True) in
         if first then
           (case register_aumid ia of
              Some e \<Rightarrow> (True, log_line N (''could not register toast identity: '' @ e) fs)
            | None \<Rightarrow> (True, fs))
         else (False, fs)))"

definition default_path :: "(string \<Rightarrow> path option) \<Rightarrow> path \<Rightarrow> path" where
  "default_path var temp =
     (case var ''LOCALAPPDATA'' of
        Some base \<Rightarrow> base
      | None \<Rightarrow> (case var ''XDG_STATE_HOME'' of Some base \<Rightarrow> base | None \<Rightarrow> temp)) @ [''TimeLord'', ''notifier-shown.json'']"

text \<open>\<open>None\<close>: another notifier already runs in this session, and this one ends.\<close>

definition notifier_main :: "bool \<Rightarrow> init_answer \<Rightarrow> notifier_env \<Rightarrow> filesystem \<Rightarrow> notifier option \<times> filesystem" where
  "notifier_main windows_build ia N fs =
     (case ui_init windows_build ia N fs of
        (False, fs1) \<Rightarrow> (None, fs1)
      | (True, fs1) \<Rightarrow> (Some (notifier_start N fs1), fs1))"

section \<open>Showing\<close>

definition AUMID :: string where "AUMID = ''TimeLord.Notifier''"

datatype platform_call =
    ShowToast string string string  \<comment> \<open>tag, group, document\<close>
  | RemoveToast string string
  | PrintLine string

record ui_env =
  ue_windows :: bool
  ue_uuid_text :: "uuid \<Rightarrow> string"
  ue_fails :: "platform_call \<Rightarrow> string option"

definition show_call :: "ui_env \<Rightarrow> string \<Rightarrow> string \<Rightarrow> toast_text \<Rightarrow> platform_call" where
  "show_call U tag grp t =
     (if ue_windows U then ShowToast tag grp (toast_xml t)
      else PrintLine (''[toast '' @ tag @ (if tt_urgent t then '' URGENT'' else []) @ ''] '' @ tt_title t @ '' - '' @ tt_body t))"

definition dismiss_call :: "ui_env \<Rightarrow> string \<Rightarrow> string \<Rightarrow> platform_call" where
  "dismiss_call U tag grp = (if ue_windows U then RemoveToast tag grp else PrintLine (''[dismiss '' @ tag @ '']''))"

fun ui_call :: "ui_env \<Rightarrow> ui_action \<Rightarrow> platform_call" where
  "ui_call U (ShowWarning i t) = show_call U (ue_uuid_text U i) ''timelord-actions'' t"
| "ui_call U (DismissWarning i) = dismiss_call U (ue_uuid_text U i) ''timelord-actions''"
| "ui_call U (ShowMessage i t) = show_call U (ue_uuid_text U i) ''timelord-messages'' t"

fun failure_text :: "platform_call \<Rightarrow> string" where
  "failure_text (ShowToast _ _ _) = ''could not show toast: ''"
| "failure_text (RemoveToast _ _) = ''could not dismiss toast: ''"
| "failure_text (PrintLine _) = []"

definition perform :: "ui_env \<Rightarrow> notifier_env \<Rightarrow> ui_action \<Rightarrow> filesystem \<Rightarrow> filesystem" where
  "perform U N act fs =
     (case (if ue_windows U then ue_fails U (ui_call U act) else None) of
        Some e \<Rightarrow> log_line N (failure_text (ui_call U act) @ e) fs
      | None \<Rightarrow> fs)"

section \<open>The notification centre\<close>

fun centre_step :: "platform_call \<Rightarrow> (string \<times> string \<rightharpoonup> string) \<Rightarrow> string \<times> string \<rightharpoonup> string" where
  "centre_step (ShowToast tag grp doc) c = c((tag, grp) \<mapsto> doc)"
| "centre_step (RemoveToast tag grp) c = c((tag, grp) := None)"
| "centre_step (PrintLine _) c = c"

definition notification_centre :: "ui_env \<Rightarrow> ui_action list \<Rightarrow> string \<times> string \<rightharpoonup> string" where
  "notification_centre U acts =
     fold centre_step (filter (\<lambda>c. ue_fails U c = None) (map (ui_call U) acts)) Map.empty"

text \<open>What the last of the actions on a warning left.\<close>

fun last_warning :: "uuid \<Rightarrow> ui_action list \<Rightarrow> toast_text option" where
  "last_warning i [] = None"
| "last_warning i (ShowWarning j t # acts) = (if i = j then Some t else last_warning i acts)"
| "last_warning i (DismissWarning j # acts) = (if i = j then None else last_warning i acts)"
| "last_warning i (ShowMessage _ _ # acts) = last_warning i acts"

lemma centre_actions:
  assumes "ue_windows U" "inj (ue_uuid_text U)" "\<forall>c. ue_fails U c = None"
  shows "notification_centre U (rev acts) (ue_uuid_text U i, ''timelord-actions'') = map_option toast_xml (last_warning i acts)"
proof (induction acts)
  case Nil
  then show ?case by (simp add: notification_centre_def)
next
  case (Cons act acts)
  have "notification_centre U (rev acts @ [act]) = centre_step (ui_call U act) (notification_centre U (rev acts))"
    by (simp add: notification_centre_def assms(3))
  with Cons assms(1,2) show ?case
    by (cases act) (simp_all add: show_call_def dismiss_call_def inj_eq)
qed

text \<open>
  The user never sees two warnings of one action, nor a warning of a cancelled one: as long as the calls succeed, what the notification centre
  holds for an action is the document of the warning shown last, and nothing once it was dismissed. Messages, even
  one with the action's identifier, do not disturb it.
\<close>

theorem one_toast_per_action:
  assumes "ue_windows U" "inj (ue_uuid_text U)" "\<forall>c. ue_fails U c = None"
  shows "notification_centre U acts (ue_uuid_text U i, ''timelord-actions'') = map_option toast_xml (last_warning i (rev acts))"
  using centre_actions [OF assms, of "rev acts"] by simp

theorem one_toast_per_action_witness:
  "let U = \<lparr> ue_windows = True, ue_uuid_text = uuid_to_string sample_text_env, ue_fails = \<lambda>_. None \<rparr>;
       t = \<lparr> tt_title = ''a'', tt_body = ''b'', tt_urgent = False \<rparr>; u = t\<lparr>tt_urgent := True\<rparr>
   in notification_centre U [ShowWarning 1 t, ShowWarning 2 t, ShowMessage 1 t, ShowWarning 1 u]
        (uuid_to_string sample_text_env 1, ''timelord-actions'') = Some (toast_xml u)"
proof -
  let ?U = "\<lparr> ue_windows = True, ue_uuid_text = uuid_to_string sample_text_env, ue_fails = \<lambda>_. None \<rparr>"
  have "inj (uuid_to_string sample_text_env)"
    by (rule injI) (metis option.inject sample_text_env_ok text_env_ok_def)
  with one_toast_per_action [of ?U] show ?thesis by (simp add: Let_def)
qed

end
