(* ===== verification/Platform.thy ===== *)
theory Platform
  imports Recorder Config
begin

text \<open>
  The platform backends, \<^verbatim>\<open>agent/src/platform/windows.rs\<close> and \<^verbatim>\<open>dev.rs\<close>: how operating system notifications, or typed
  commands, become session events for the recorder. The numeric codes of the Windows API are the fields of
  \<open>win_codes\<close>; what the session queries answer is \<open>win_env\<close>. The calls themselves
  (windows, registration, the message queue) are not modelled, the messages they deliver are; nor are the prompts of the
  development backend and errors of its console.
\<close>

section \<open>Windows\<close>

record win_codes =
  WM_WTSSESSION_CHANGE :: u32
  WM_POWERBROADCAST :: u32
  WM_DESTROY :: u32
  PBT_APMSUSPEND :: u32
  PBT_APMRESUMEAUTOMATIC :: u32
  PBT_APMRESUMESUSPEND :: u32
  WTS_SESSION_LOGON :: u32
  WTS_SESSION_LOGOFF :: u32
  WTS_SESSION_LOCK :: u32
  WTS_SESSION_UNLOCK :: u32
  WTS_CONSOLE_CONNECT :: u32
  WTS_CONSOLE_DISCONNECT :: u32
  WTS_REMOTE_CONNECT :: u32
  WTS_REMOTE_DISCONNECT :: u32
  WTS_SESSIONSTATE_LOCK :: u32
  WTS_SESSIONSTATE_UNLOCK :: u32
  WTSActive :: int
  WTSConnected :: int

record session_info =
  si_level :: u32
  si_flags :: "32 word"

record win_env =
  we_codes :: win_codes
  we_user_name :: "session_id \<Rightarrow> string option"
  we_session_info :: "session_id \<Rightarrow> session_info option"
  we_sessions :: "(session_id \<times> int) list option"

definition wts_reason_to_event :: "win_codes \<Rightarrow> u32 \<Rightarrow> session_id \<Rightarrow> session_event option" where
  "wts_reason_to_event C reason sid =
     (if reason = WTS_SESSION_LOGON C then Some (Logon sid)
      else if reason = WTS_SESSION_LOGOFF C then Some (Logoff sid)
      else if reason = WTS_SESSION_LOCK C then Some (Lock sid)
      else if reason = WTS_SESSION_UNLOCK C then Some (Unlock sid)
      else if reason = WTS_CONSOLE_CONNECT C then Some (ConsoleConnect sid)
      else if reason = WTS_CONSOLE_DISCONNECT C then Some (ConsoleDisconnect sid)
      else if reason = WTS_REMOTE_CONNECT C then Some (RemoteConnect sid)
      else if reason = WTS_REMOTE_DISCONNECT C then Some (RemoteDisconnect sid)
      else None)"

definition session_username :: "win_env \<Rightarrow> session_id \<Rightarrow> string option" where
  "session_username W sid =
     (case we_user_name W sid of Some name \<Rightarrow> if name = [] then None else Some name | None \<Rightarrow> None)"

definition session_locked :: "win_env \<Rightarrow> session_id \<Rightarrow> bool option" where
  "session_locked W sid =
     (case we_session_info W sid of
        None \<Rightarrow> None
      | Some info \<Rightarrow>
          if si_level info \<noteq> 1 then None
          else if si_flags info = WTS_SESSIONSTATE_LOCK (we_codes W) then Some True
          else if si_flags info = WTS_SESSIONSTATE_UNLOCK (we_codes W) then Some False
          else None)"

text \<open>The recorder is parked in a cell; a failure to handle an event is logged.\<close>

definition dispatch ::
  "recorder_env \<Rightarrow> call_values \<Rightarrow> session_event \<Rightarrow> string option \<Rightarrow> usage_recorder option \<Rightarrow> usage_recorder option" where
  "dispatch R c event username cell = map_option (\<lambda>r. fst (handle R c event username r)) cell"

datatype wnd_result = LResult int | DefProc

text \<open>
  The parameters of a message are pointer-sized and cut to 32 bits. \<^verbatim>\<open>WM_DESTROY\<close> only posts the quit message that
  ends the pump later. \<open>W\<close> is what the system answers at that moment.
\<close>

definition wndproc ::
  "recorder_env \<Rightarrow> win_env \<Rightarrow> call_values \<Rightarrow> u32 \<Rightarrow> 64 word \<Rightarrow> 64 word \<Rightarrow> usage_recorder option \<Rightarrow>
   usage_recorder option \<times> wnd_result" where
  "wndproc R W c msg wparam lparam cell =
     (let C = we_codes W in
      if msg = WM_WTSSESSION_CHANGE C then
        (let reason = ucast wparam; sid = ucast lparam in
         (case wts_reason_to_event C reason sid of
            Some event \<Rightarrow> dispatch R c event (session_username W sid) cell
          | None \<Rightarrow> cell, LResult 0))
      else if msg = WM_POWERBROADCAST C then
        (let code = ucast wparam;
             event = (if code = PBT_APMSUSPEND C then Some Suspend
                      else if code = PBT_APMRESUMEAUTOMATIC C \<or> code = PBT_APMRESUMESUSPEND C then Some Resume
                      else None)
         in (case event of Some ev \<Rightarrow> dispatch R c ev None cell | None \<Rightarrow> cell, LResult 1))
      else if msg = WM_DESTROY C then (cell, LResult 0)
      else (cell, DefProc))"

text \<open>A session found at startup; \<open>c\<close> and \<open>c'\<close> are the values drawn by the two calls.\<close>

definition seed_session ::
  "recorder_env \<Rightarrow> win_env \<Rightarrow> usage_recorder option \<Rightarrow> (call_values \<times> call_values) \<times> session_id \<times> int \<Rightarrow> usage_recorder option" where
  "seed_session R W cell = (\<lambda>((c, c'), sid, state).
     if state = WTSActive (we_codes W) \<or> state = WTSConnected (we_codes W) then
       (case session_username W sid of
          None \<Rightarrow> cell
        | Some username \<Rightarrow>
            (let cell1 = dispatch R c (Logon sid) (Some username) cell
             in if session_locked W sid = Some True then dispatch R c' (Lock sid) None cell1 else cell1))
     else cell)"

definition seed_active_sessions ::
  "recorder_env \<Rightarrow> win_env \<Rightarrow> (call_values \<times> call_values) list \<Rightarrow> usage_recorder option \<Rightarrow> usage_recorder option" where
  "seed_active_sessions R W cs cell =
     (case we_sessions W of None \<Rightarrow> cell | Some entries \<Rightarrow> foldl (seed_session R W) cell (zip cs entries))"

text \<open>
  \<^verbatim>\<open>run\<close>: seed, dispatch the messages retrieved before the quit message, close the open session.
\<close>

type_synonym window_message = "call_values \<times> win_env \<times> u32 \<times> 64 word \<times> 64 word"

fun pump :: "recorder_env \<Rightarrow> window_message list \<Rightarrow> usage_recorder option \<Rightarrow> usage_recorder option" where
  "pump R [] cell = cell"
| "pump R ((c, W, msg, wparam, lparam) # msgs) cell = pump R msgs (fst (wndproc R W c msg wparam lparam cell))"

definition windows_run ::
  "recorder_env \<Rightarrow> win_env \<Rightarrow> (call_values \<times> call_values) list \<Rightarrow> window_message list \<Rightarrow> call_values \<Rightarrow> usage_recorder \<Rightarrow>
   usage_recorder option" where
  "windows_run R W cs msgs c r =
     map_option (\<lambda>r. fst (shutdown R c r)) (pump R msgs (seed_active_sessions R W cs (Some r)))"

text \<open>
  What has to work before that: the hidden window and the two registrations. When one of them fails \<^verbatim>\<open>run\<close> returns its error; the
  recorder then stays where it is and its open session is not closed.
\<close>

record win_setup =
  ws_module :: "string option"
  ws_class_atom :: u16
  ws_window :: "string option"
  ws_session_notification :: "string option"
  ws_power_notification :: "string option"

definition create_message_window :: "win_setup \<Rightarrow> string option" where
  "create_message_window S =
     (case ws_module S of
        Some e \<Rightarrow> Some ''GetModuleHandleW''
      | None \<Rightarrow>
          if ws_class_atom S = 0 then Some ''RegisterClassExW failed''
          else (case ws_window S of Some e \<Rightarrow> Some ''CreateWindowExW failed'' | None \<Rightarrow> None))"

definition windows_main ::
  "recorder_env \<Rightarrow> win_setup \<Rightarrow> win_env \<Rightarrow> (call_values \<times> call_values) list \<Rightarrow> window_message list \<Rightarrow> call_values \<Rightarrow> usage_recorder \<Rightarrow>
   usage_recorder option \<times> (string + unit)" where
  "windows_main R S W cs msgs c r =
     (if create_message_window S \<noteq> None then (Some r, Inl ''creating notification window'')
      else
        (case ws_session_notification S of
           Some e \<Rightarrow> (Some r, Inl (''WTSRegisterSessionNotification failed: '' @ e))
         | None \<Rightarrow>
             if ws_power_notification S \<noteq> None then (Some r, Inl ''RegisterSuspendResumeNotification failed'')
             else (windows_run R W cs msgs c r, Inr ())))"

text \<open>How the results of the power calls are read; the arguments are what the calls gave.\<close>

definition windows_suspend :: "int \<Rightarrow> string \<Rightarrow> string + unit" where
  "windows_suspend result last_error =
     (if result \<noteq> 0 then Inr () else Inl (''SetSuspendState failed: '' @ last_error))"

definition windows_shutdown :: "string + bool \<times> string \<Rightarrow> string + unit" where
  "windows_shutdown output =
     (case output of
        Inl e \<Rightarrow> Inl (''running shutdown.exe'')
      | Inr (success, stderr) \<Rightarrow> if success then Inr () else Inl (''shutdown.exe failed: '' @ trim stderr))"

section \<open>Development\<close>

definition SESSION_ID :: session_id where "SESSION_ID = 1"

definition starts_white :: "string \<Rightarrow> bool" where
  "starts_white s \<longleftrightarrow> list_ex (\<lambda>w. take (length w) s = w) white_space"

fun take_word :: "string \<Rightarrow> string \<times> string" where
  "take_word [] = ([], [])"
| "take_word (c # s) = (if starts_white (c # s) then ([], c # s) else (case take_word s of (w, r) \<Rightarrow> (c # w, r)))"

text \<open>The first two items of \<^verbatim>\<open>split_whitespace\<close>; no word is empty.\<close>

definition next_word :: "string \<Rightarrow> string option \<times> string" where
  "next_word s = (case take_word (strip white_space s) of (w, r) \<Rightarrow> (if w = [] then None else Some w, r))"

datatype dev_command =
    CmdNone
  | CmdHelp
  | CmdQuit
  | CmdStatus
  | CmdUnrecognised string
  | CmdEvent session_event "string option"

definition parse_command :: "string \<Rightarrow> dev_command" where
  "parse_command line =
     (let (first, rest) = next_word (trim line);
          cmd = (case first of Some w \<Rightarrow> w | None \<Rightarrow> [])
      in if cmd = [] then CmdNone
         else if cmd = ''help'' then CmdHelp
         else if cmd = ''quit'' \<or> cmd = ''exit'' then CmdQuit
         else if cmd = ''logon'' then
           CmdEvent (Logon SESSION_ID) (Some (case fst (next_word rest) of Some u \<Rightarrow> u | None \<Rightarrow> ''dev-user''))
         else if cmd = ''logoff'' then CmdEvent (Logoff SESSION_ID) None
         else if cmd = ''lock'' then CmdEvent (Lock SESSION_ID) None
         else if cmd = ''unlock'' then CmdEvent (Unlock SESSION_ID) None
         else if cmd = ''console-connect'' then CmdEvent (ConsoleConnect SESSION_ID) None
         else if cmd = ''console-disconnect'' then CmdEvent (ConsoleDisconnect SESSION_ID) None
         else if cmd = ''remote-connect'' then CmdEvent (RemoteConnect SESSION_ID) None
         else if cmd = ''remote-disconnect'' then CmdEvent (RemoteDisconnect SESSION_ID) None
         else if cmd = ''suspend'' then CmdEvent Suspend None
         else if cmd = ''resume'' then CmdEvent Resume None
         else if cmd = ''status'' then CmdStatus
         else CmdUnrecognised cmd)"

text \<open>The loop over the typed lines, then the clean shutdown; an error of the store ends it without one.\<close>

fun dev_loop :: "recorder_env \<Rightarrow> (call_values \<times> string) list \<Rightarrow> usage_recorder \<Rightarrow> usage_recorder \<times> (store_error + unit)" where
  "dev_loop R [] r = (r, Inr ())"
| "dev_loop R ((c, line) # rest) r =
     (case parse_command line of
        CmdQuit \<Rightarrow> (r, Inr ())
      | CmdEvent event username \<Rightarrow>
          (case handle R c event username r of
             (r', Inl e) \<Rightarrow> (r', Inl e)
           | (r', Inr _) \<Rightarrow> dev_loop R rest r')
      | _ \<Rightarrow> dev_loop R rest r)"

definition dev_run ::
  "recorder_env \<Rightarrow> (call_values \<times> string) list \<Rightarrow> call_values \<Rightarrow> usage_recorder \<Rightarrow> usage_recorder \<times> (store_error + unit)" where
  "dev_run R script c r =
     (case dev_loop R script r of
        (r', Inl e) \<Rightarrow> (r', Inl e)
      | (r', Inr _) \<Rightarrow> shutdown R c r')"

definition dev_suspend :: "string + unit" where "dev_suspend = Inr ()"

definition dev_shutdown :: "string + unit" where "dev_shutdown = Inr ()"

definition dev_shutdown_requested :: bool where "dev_shutdown_requested = False"

section \<open>What the backends report\<close>

text \<open>The notifications that the inputs of a backend amount to.\<close>

definition reported_at :: "call_values \<Rightarrow> session_event \<Rightarrow> string option \<Rightarrow> notification" where
  "reported_at c ev u = (c, ev, u, clock_now c)"

definition is_present :: "win_env \<Rightarrow> session_id \<times> int \<Rightarrow> bool" where
  "is_present W = (\<lambda>(sid, state).
     (state = WTSActive (we_codes W) \<or> state = WTSConnected (we_codes W)) \<and> session_username W sid \<noteq> None)"

fun seed_reports :: "win_env \<Rightarrow> ((call_values \<times> call_values) \<times> session_id \<times> int) list \<Rightarrow> notification list" where
  "seed_reports W [] = []"
| "seed_reports W (((c, c'), sid, state) # es) =
     (if is_present W (sid, state) then
        reported_at c (Logon sid) (session_username W sid) #
        (if session_locked W sid = Some True then [reported_at c' (Lock sid) None] else [])
      else []) @ seed_reports W es"

definition startup_reports :: "win_env \<Rightarrow> (call_values \<times> call_values) list \<Rightarrow> notification list" where
  "startup_reports W cs = (case we_sessions W of None \<Rightarrow> [] | Some entries \<Rightarrow> seed_reports W (zip cs entries))"

definition message_reports :: "window_message \<Rightarrow> notification list" where
  "message_reports = (\<lambda>(c, W, msg, wparam, lparam).
     if msg = WM_WTSSESSION_CHANGE (we_codes W) then
       (case wts_reason_to_event (we_codes W) (ucast wparam) (ucast lparam) of
          Some ev \<Rightarrow> [reported_at c ev (session_username W (ucast lparam))] | None \<Rightarrow> [])
     else if msg = WM_POWERBROADCAST (we_codes W) then
       (if ucast wparam = PBT_APMSUSPEND (we_codes W) then [reported_at c Suspend None]
        else if ucast wparam = PBT_APMRESUMEAUTOMATIC (we_codes W) \<or> ucast wparam = PBT_APMRESUMESUSPEND (we_codes W)
        then [reported_at c Resume None] else [])
     else [])"

fun script_reports :: "(call_values \<times> string) list \<Rightarrow> notification list" where
  "script_reports [] = []"
| "script_reports ((c, line) # rest) =
     (case parse_command line of
        CmdQuit \<Rightarrow> []
      | CmdEvent ev u \<Rightarrow> reported_at c ev u # script_reports rest
      | _ \<Rightarrow> script_reports rest)"

lemma dispatch_Some: "dispatch R c ev u (Some r) = Some (recorder_step R r (reported_at c ev u))"
  by (simp add: dispatch_def reported_at_def handle_def)

lemma seed_session_reports:
  "foldl (seed_session R W) (Some r) es = Some (foldl (recorder_step R) r (seed_reports W es))"
proof (induction W es arbitrary: r rule: seed_reports.induct)
  case (2 W c c' sid state es)
  have "seed_session R W (Some r) ((c, c'), sid, state) =
      Some (foldl (recorder_step R) r (seed_reports W [((c, c'), sid, state)]))"
    by (auto simp: seed_session_def is_present_def dispatch_Some Let_def split: option.split)
  with 2 show ?case by simp
qed simp

lemma seed_active_reports:
  "seed_active_sessions R W cs (Some r) = Some (foldl (recorder_step R) r (startup_reports W cs))"
  by (simp add: seed_active_sessions_def startup_reports_def seed_session_reports split: option.split)

lemma wndproc_reports:
  "fst (wndproc R W c msg wparam lparam (Some r)) =
     Some (foldl (recorder_step R) r (message_reports (c, W, msg, wparam, lparam)))"
  by (simp add: wndproc_def message_reports_def Let_def dispatch_Some split: option.split)

lemma pump_reports:
  "pump R msgs (Some r) = Some (foldl (recorder_step R) r (concat (map message_reports msgs)))"
proof (induction msgs arbitrary: r)
  case (Cons m msgs)
  then show ?case by (cases m) (simp add: wndproc_reports)
qed simp

lemma windows_run_reports:
  "windows_run R W cs msgs c r =
     Some (fst (shutdown R c (foldl (recorder_step R) r (startup_reports W cs @ concat (map message_reports msgs)))))"
  by (simp add: windows_run_def seed_active_reports pump_reports)

lemma handle_at_lawful:
  assumes "mirrors E used recs r" "store_lawful (re_store E)" "new_session_id c \<notin> used" "rfc_range now"
  obtains r' recs' where "handle_at E c ev u now r = (r', Inr ())" "mirrors E (insert (new_session_id c) used) recs' r'"
proof (cases "repeated_logon (r_tracker r) ev")
  case True
  with assms(1) mirrors_used [of E used recs r "insert (new_session_id c) used"] show ?thesis
    by (intro that [of r recs]) (auto simp: handle_at_def)
next
  case False
  from handle_at_mirrors [OF assms this, of u] that show ?thesis by blast
qed

lemma dev_loop_reports:
  assumes "mirrors E used recs r" "store_lawful (re_store E)" "fresh_ids used (script_reports script)"
    "good_times (script_reports script)"
  shows "dev_loop E script r = (foldl (recorder_step E) r (script_reports script), Inr ())"
  using assms(1,3,4)
proof (induction script arbitrary: used recs r)
  case (Cons x script)
  obtain c line where x: "x = (c, line)" by (cases x)
  show ?case
  proof (cases "parse_command line")
    case (CmdEvent ev u)
    with Cons.prems have fresh: "new_session_id c \<notin> used" "rfc_range (clock_now c)"
      "fresh_ids (insert (new_session_id c) used) (script_reports script)" "good_times (script_reports script)"
      by (simp_all add: x reported_at_def good_times_def)
    obtain r' recs' where r': "handle_at E c ev u (clock_now c) r = (r', Inr ())"
      "mirrors E (insert (new_session_id c) used) recs' r'"
      by (rule handle_at_lawful [OF Cons.prems(1) assms(2) fresh(1,2)])
    from Cons.IH [OF r'(2) fresh(3,4)] r'(1) CmdEvent show ?thesis
      by (simp add: x handle_def reported_at_def)
  qed (use Cons in \<open>simp_all add: x\<close>)
qed simp

section \<open>Clean stops\<close>

text \<open>
  What the agent asks of a backend: on a healthy store, running it is handling the notifications it reports, one
  after the other, and then shutting the recorder down.
\<close>

locale session_backend =
  fixes run :: "recorder_env \<Rightarrow> 'i \<Rightarrow> call_values \<Rightarrow> usage_recorder \<Rightarrow> usage_recorder option"
    and reports :: "'i \<Rightarrow> notification list"
  assumes feeds: "store_lawful (re_store E) \<Longrightarrow> mirrors E used recs r \<Longrightarrow> fresh_ids used (reports i) \<Longrightarrow>
    good_times (reports i) \<Longrightarrow> rfc_range (clock_now c) \<Longrightarrow>
    run E i c r = Some (fst (shutdown E c (foldl (recorder_step E) r (reports i))))"
begin

lemma clean_stop:
  assumes law: "store_lawful (re_store E)" and m: "mirrors E used recs r" and fresh: "fresh_ids used (reports i)"
    and times: "good_times (reports i)" and now: "rfc_range (clock_now c)"
  shows "\<exists>r' used'. run E i c r = Some r' \<and> open_since (r_tracker r') = None \<and>
     mirrors E used' (recs @ (let es = accepted (r_tracker r) (reports i) in
       ended_records (transitions apply_event (r_tracker r) es) @
       (case open_since (final_state apply_event (r_tracker r) es) of
          None \<Rightarrow> []
        | Some t \<Rightarrow> [\<lparr> rec_start = t, rec_end = clock_now c, rec_end_reason = EndAgentShutdown \<rparr>]))) r'"
proof -
  let ?r = "foldl (recorder_step E) r (reports i)"
  from recorder_run_mirrors [OF m law fresh times] obtain used' where
    st: "r_tracker ?r = final_state apply_event (r_tracker r) (accepted (r_tracker r) (reports i))"
      "mirrors E used' (recs @ ended_records (transitions apply_event (r_tracker r) (accepted (r_tracker r) (reports i)))) ?r"
    by (auto simp: Let_def)
  from shutdown_mirrors [OF law st(2) now] feeds [OF law m fresh times now] st(1) show ?thesis
    by (auto simp: Let_def)
qed

lemma restart_idle:
  assumes "store_lawful (re_store E)" "mirrors E used recs r" "fresh_ids used (reports i)"
    "good_times (reports i)" "rfc_range (clock_now c)"
  shows "\<exists>r' r''. run E i c r = Some r' \<and> from_store E (r_store r') = Inr r'' \<and> \<not> recorder_is_active r''"
  using clean_stop [OF assms] from_store_mirrors [OF assms(1)]
  by (fastforce simp: recorder_is_active_def is_active_def)

end

definition windows_backend ::
  "recorder_env \<Rightarrow> win_env \<times> (call_values \<times> call_values) list \<times> window_message list \<Rightarrow> call_values \<Rightarrow> usage_recorder \<Rightarrow>
   usage_recorder option" where
  "windows_backend E = (\<lambda>(W, cs, msgs). windows_run E W cs msgs)"

definition windows_reports :: "win_env \<times> (call_values \<times> call_values) list \<times> window_message list \<Rightarrow> notification list" where
  "windows_reports = (\<lambda>(W, cs, msgs). startup_reports W cs @ concat (map message_reports msgs))"

definition dev_backend ::
  "recorder_env \<Rightarrow> (call_values \<times> string) list \<Rightarrow> call_values \<Rightarrow> usage_recorder \<Rightarrow> usage_recorder option" where
  "dev_backend E script c r = (case dev_run E script c r of (r', Inr _) \<Rightarrow> Some r' | (_, Inl _) \<Rightarrow> None)"

interpretation win: session_backend windows_backend windows_reports
  by unfold_locales (auto simp: windows_backend_def windows_reports_def windows_run_reports)

interpretation dev: session_backend dev_backend script_reports
proof
  fix E :: recorder_env and used recs and r :: usage_recorder and i and c :: call_values
  assume law: "store_lawful (re_store E)" and m: "mirrors E used recs r" and fresh: "fresh_ids used (script_reports i)"
    and times: "good_times (script_reports i)" and now: "rfc_range (clock_now c)"
  let ?r = "foldl (recorder_step E) r (script_reports i)"
  from recorder_run_mirrors [OF m law fresh times] obtain used' recs' where "mirrors E used' recs' ?r"
    by (auto simp: Let_def)
  from shutdown_mirrors [OF law this now] obtain r' where "shutdown E c ?r = (r', Inr ())" by blast
  then show "dev_backend E i c r = Some (fst (shutdown E c ?r))"
    by (simp add: dev_backend_def dev_run_def dev_loop_reports [OF m law fresh times])
qed

section \<open>Properties\<close>

text \<open>
  Property C10. A run of the Windows backend ends with every usage session closed in the database. Whatever sessions are found at
  startup and whatever window messages arrive, the store ends up holding the sessions it had, those the
  translated notifications finished, and the one still open when the pump stops, ended with the reason
  \<^verbatim>\<open>AgentShutdown\<close>; the next start finds nothing to resume.
\<close>

theorem windows_run_closes_sessions:
  assumes "store_lawful (re_store E)" "mirrors E used recs r"
    "fresh_ids used (startup_reports W cs @ concat (map message_reports msgs))"
    "good_times (startup_reports W cs @ concat (map message_reports msgs))" "rfc_range (clock_now c)"
  shows "let es = accepted (r_tracker r) (startup_reports W cs @ concat (map message_reports msgs)) in
     \<exists>r' used' r''. windows_run E W cs msgs c r = Some r' \<and>
       mirrors E used' (recs @ ended_records (transitions apply_event (r_tracker r) es) @
         (case open_since (final_state apply_event (r_tracker r) es) of
            None \<Rightarrow> []
          | Some t \<Rightarrow> [\<lparr> rec_start = t, rec_end = clock_now c, rec_end_reason = EndAgentShutdown \<rparr>])) r' \<and>
       from_store E (r_store r') = Inr r'' \<and> \<not> recorder_is_active r''"
proof -
  note asm = assms(1,2) assms(3,4) [folded windows_reports_def [THEN fun_cong, of "(W, cs, msgs)", simplified]] assms(5)
  from win.clean_stop [OF asm] win.restart_idle [OF asm] show ?thesis
    by (auto simp: windows_backend_def windows_reports_def Let_def)
qed

definition sample_codes :: win_codes where
  "sample_codes =
     \<lparr> WM_WTSSESSION_CHANGE = 0x2B1, WM_POWERBROADCAST = 0x218, WM_DESTROY = 2,
       PBT_APMSUSPEND = 4, PBT_APMRESUMEAUTOMATIC = 18, PBT_APMRESUMESUSPEND = 7,
       WTS_SESSION_LOGON = 5, WTS_SESSION_LOGOFF = 6, WTS_SESSION_LOCK = 7, WTS_SESSION_UNLOCK = 8,
       WTS_CONSOLE_CONNECT = 1, WTS_CONSOLE_DISCONNECT = 2, WTS_REMOTE_CONNECT = 3, WTS_REMOTE_DISCONNECT = 4,
       WTS_SESSIONSTATE_LOCK = 0, WTS_SESSIONSTATE_UNLOCK = 1, WTSActive = 0, WTSConnected = 1 \<rparr>"

definition sample_windows :: win_env where
  "sample_windows =
     \<lparr> we_codes = sample_codes, we_user_name = (\<lambda>sid. if sid = 0 then Some [] else Some ''kid''),
       we_session_info = (\<lambda>sid. if sid = 2 then Some \<lparr> si_level = 1, si_flags = 0 \<rparr> else None),
       we_sessions = Some [(0, 0), (1, 0), (2, 1), (3, 4)] \<rparr>"

definition sample_window_messages :: "window_message list" where
  "sample_window_messages =
     [(sample_call 30, sample_windows, 0x218, 4, 0), (sample_call 40, sample_windows, 0x218, 7, 0)]"

definition sample_draws :: "(call_values \<times> call_values) list" where
  "sample_draws = map (\<lambda>n. (sample_call (100 + 20 * n), sample_call (110 + 20 * n))) [0, 1, 2, 3]"

lemma sample_windows_reports:
  "startup_reports sample_windows sample_draws @ concat (map message_reports sample_window_messages) =
     [(sample_call 120, Logon 1, Some ''kid'', 0), (sample_call 140, Logon 2, Some ''kid'', 0),
      (sample_call 150, Lock 2, None, 0), (sample_call 30, Suspend, None, 0), (sample_call 40, Resume, None, 0)]"
  by (simp add: startup_reports_def message_reports_def sample_windows_def sample_draws_def sample_window_messages_def
      sample_codes_def is_present_def session_username_def session_locked_def reported_at_def sample_call_def)

theorem windows_run_closes_sessions_witness:
  "\<exists>r' used' r''. windows_run sample_recorder_env sample_windows sample_draws sample_window_messages (sample_call 99) new_recorder = Some r' \<and>
     mirrors sample_recorder_env used'
       [\<lparr> rec_start = 0, rec_end = 0, rec_end_reason = EndSuspend \<rparr>, \<lparr> rec_start = 0, rec_end = 0, rec_end_reason = EndAgentShutdown \<rparr>] r' \<and>
     from_store sample_recorder_env (r_store r') = Inr r'' \<and> \<not> recorder_is_active r''"
proof -
  let ?ns = "startup_reports sample_windows sample_draws @ concat (map message_reports sample_window_messages)"
  let ?es = "[(Logon 1, 0), (Logon 2, 0), (Lock 2, 0), (Suspend, 0), (Resume, 0)] :: (session_event \<times> datetime) list"
  have ok: "fresh_ids {} ?ns" "good_times ?ns" "rfc_range (clock_now (sample_call 99))"
    unfolding sample_windows_reports
    by (simp_all add: sample_call_def good_times_def rfc_range_def rfc_min_def rfc_end_def seconds_def)
  have acc: "accepted (r_tracker new_recorder) ?ns = ?es"
    unfolding sample_windows_reports
    by (simp add: repeated_logon_def is_logged_on_def new_recorder_def tracker_new_def apply_event_recompute connect_session_def)
  have trs: "ended_records (transitions apply_event (r_tracker new_recorder) ?es) =
      [\<lparr> rec_start = 0, rec_end = 0, rec_end_reason = EndSuspend \<rparr>]"
    and fin: "open_since (final_state apply_event (r_tracker new_recorder) ?es) = Some 0"
    by code_simp+
  have law: "store_lawful (re_store sample_recorder_env)" by (simp add: sample_store_lawful)
  from windows_run_closes_sessions [OF law mirrors_new ok(1,2), of "sample_call 99"] ok(3) show ?thesis
    unfolding acc Let_def trs fin by (simp add: sample_call_def)
qed

text \<open>What a session event does to the tracker and to the user names, whether or not the store accepts it.\<close>

lemma handle_at_tracker:
  "r_tracker (fst (handle_at E c ev u now r)) =
     (if repeated_logon (r_tracker r) ev then r_tracker r else fst (apply_event (r_tracker r) ev now))"
  using persist_transition_sel(1) [of E c]
  by (fastforce simp: handle_at_def Let_def split: prod.split sum.split)

lemma handle_at_usernames:
  assumes "\<nexists>sid. ev = Logoff sid"
  shows "r_session_usernames (fst (handle_at E c ev u now r)) =
     (if repeated_logon (r_tracker r) ev then r_session_usernames r
      else r_session_usernames (remember_username ev u r))"
  using persist_transition_sel(3) [of E c] assms
  by (fastforce simp: handle_at_def forget_username_def Let_def split: prod.split sum.split session_event.split)

lemma is_logged_on_apply:
  "is_logged_on (fst (apply_event t (Logon sid) at)) x \<longleftrightarrow> x = sid \<or> is_logged_on t x"
  "is_logged_on (fst (apply_event t (Lock sid) at)) x \<longleftrightarrow> x = sid \<or> is_logged_on t x"
  by (auto simp: is_logged_on_def connect_session_def set_visible_def)

lemma presence_visible_apply:
  "presence_visible (fst (apply_event t e at)) sid =
     (if event_session_id e = Some sid then shows_session e else presence_visible t sid)"
  "suspended (fst (apply_event t e at)) = (if event_session_id e = None then e = Suspend else suspended t)"
  by (simp_all add: apply_event_recompute presence_visible_def flip: presence_visible_update)
    (simp_all add: presence_visible_def suspended_update)

text \<open>The state of a recorder that seeding works on: its tracker follows some history.\<close>

definition in_step :: "usage_recorder \<Rightarrow> bool" where
  "in_step r \<longleftrightarrow> (\<exists>hist. tracks hist (r_tracker r))"

lemma in_step_recorder_step [inv_intros]: "in_step r \<Longrightarrow> in_step (recorder_step E r n)"
  using tracks_step by (cases n) (fastforce simp: in_step_def handle_at_tracker)

lemma in_step_run: "in_step r \<Longrightarrow> in_step (foldl (recorder_step E) r ns)"
  by (induction ns arbitrary: r) (auto intro: in_step_recorder_step)

lemma in_step_active: "in_step r \<Longrightarrow> recorder_is_active r \<longleftrightarrow> any_visible (r_tracker r)"
  by (auto simp: in_step_def tracks_def recorder_is_active_def is_active_def)

lemma seed_one:
  fixes E :: recorder_env and W :: win_env and c c' :: call_values and sid :: session_id and state :: int
  assumes "\<not> is_logged_on (r_tracker r) sid"
  defines "r' \<equiv> foldl (recorder_step E) r (seed_reports W [((c, c'), sid, state)])"
  shows "is_logged_on (r_tracker r') x \<longleftrightarrow> is_logged_on (r_tracker r) x \<or> x = sid \<and> is_present W (sid, state)"
    and "presence_visible (r_tracker r') x \<longleftrightarrow>
      (if x = sid \<and> is_present W (sid, state) then session_locked W sid \<noteq> Some True else presence_visible (r_tracker r) x)"
    and "suspended (r_tracker r') = suspended (r_tracker r)"
    and "fmlookup (r_session_usernames r') x =
      (if x = sid \<and> is_present W (sid, state) then session_username W sid else fmlookup (r_session_usernames r) x)"
  using assms(1)
  by (auto simp: r'_def reported_at_def handle_at_tracker handle_at_usernames repeated_logon_def is_logged_on_apply
      presence_visible_apply remember_username_def is_present_def simp del: apply_event.simps split: option.split)

definition listed_user :: "win_env \<Rightarrow> (session_id \<times> int) list \<Rightarrow> session_id \<Rightarrow> bool" where
  "listed_user W entries sid = list_ex (\<lambda>e. fst e = sid \<and> is_present W e) entries"

lemma seed_all:
  assumes "distinct (map (fst \<circ> snd) es)" "\<forall>e \<in> set es. \<not> is_logged_on (r_tracker r) (fst (snd e))"
  shows "let r' = foldl (recorder_step E) r (seed_reports W es);
       listed = listed_user W (map snd es) x in
     presence_visible (r_tracker r') x = (if listed then session_locked W x \<noteq> Some True else presence_visible (r_tracker r) x) \<and>
     suspended (r_tracker r') = suspended (r_tracker r) \<and>
     fmlookup (r_session_usernames r') x = (if listed then session_username W x else fmlookup (r_session_usernames r) x)"
  using assms
proof (induction es arbitrary: r)
  case (Cons e es)
  obtain c c' sid state where e: "e = ((c, c'), sid, state)" by (metis prod.exhaust)
  define r1 where "r1 = foldl (recorder_step E) r (seed_reports W [((c, c'), sid, state)])"
  have run: "foldl (recorder_step E) r (seed_reports W (e # es)) = foldl (recorder_step E) r1 (seed_reports W es)"
    by (simp add: e r1_def)
  from Cons.prems have "\<not> is_logged_on (r_tracker r) sid" by (simp add: e)
  note one = seed_one [OF this, of E W c c' state, folded r1_def]
  have new: "sid \<notin> fst ` snd ` set es" using Cons.prems(1) by (simp add: e image_image)
  have "\<not> is_logged_on (r_tracker r1) (fst (snd y))" if "y \<in> set es" for y
    using Cons.prems(2) new that by (fastforce simp: one(1))
  with Cons.prems(1) Cons.IH [of r1]
  have IH: "let r' = foldl (recorder_step E) r1 (seed_reports W es);
       listed = listed_user W (map snd es) x in
     presence_visible (r_tracker r') x = (if listed then session_locked W x \<noteq> Some True else presence_visible (r_tracker r1) x) \<and>
     suspended (r_tracker r') = suspended (r_tracker r1) \<and>
     fmlookup (r_session_usernames r') x = (if listed then session_username W x else fmlookup (r_session_usernames r1) x)"
    by simp
  have listed: "listed_user W (map snd (e # es)) x \<longleftrightarrow>
      x = sid \<and> is_present W (sid, state) \<or> listed_user W (map snd es) x"
    by (auto simp: e listed_user_def)
  have "\<not> listed_user W (map snd es) x" if "x = sid"
    using new that by (auto simp: listed_user_def list_ex_iff)
  with IH show ?case unfolding run listed Let_def one(2-4) by (cases "x = sid") simp_all
qed (simp add: listed_user_def)

text \<open>
  Property C25. Starting up while people are already logged on: after the startup sweep a new recorder is active exactly when some listed
  session is active or connected, has a user, and is not reported as locked, and it knows the names of exactly those sessions' users,
  whatever the store does. A session whose lock state Windows does not know counts as in use.
\<close>

theorem startup_sees_sessions:
  assumes "we_sessions W = Some entries" "distinct (map fst entries)" "length cs = length entries"
  shows "\<exists>r. seed_active_sessions E W cs (Some new_recorder) = Some r \<and>
     (recorder_is_active r \<longleftrightarrow>
       (\<exists>sid. listed_user W entries sid \<and> session_locked W sid \<noteq> Some True)) \<and>
     (\<forall>sid. fmlookup (r_session_usernames r) sid =
        (if listed_user W entries sid then session_username W sid else None))"
proof -
  let ?es = "zip cs entries"
  let ?r = "foldl (recorder_step E) new_recorder (seed_reports W ?es)"
  have d: "distinct (map (fst \<circ> snd) ?es)" "map snd ?es = entries"
    using assms(2,3) by (simp_all flip: map_map)
  have n: "\<forall>e \<in> set ?es. \<not> is_logged_on (r_tracker new_recorder) (fst (snd e))"
    by (simp add: new_recorder_def tracker_new_def is_logged_on_def)
  have none: "\<not> presence_visible (r_tracker new_recorder) x" "\<not> suspended (r_tracker new_recorder)"
    "fmlookup (r_session_usernames new_recorder) x = None" for x
    by (simp_all add: new_recorder_def tracker_new_def presence_visible_def)
  note all = seed_all [OF d(1) n, of E W, unfolded Let_def d(2)]
  have "in_step new_recorder" using tracks_new by (auto simp: in_step_def new_recorder_def)
  then have "recorder_is_active ?r \<longleftrightarrow> any_visible (r_tracker ?r)" by (intro in_step_active in_step_run)
  also have "\<dots> \<longleftrightarrow> (\<exists>sid. listed_user W entries sid \<and> session_locked W sid \<noteq> Some True)"
  proof -
    have "presence_visible (r_tracker ?r) x \<longleftrightarrow>
        listed_user W entries x \<and> session_locked W x \<noteq> Some True"
      and "\<not> suspended (r_tracker ?r)" for x
      using all [of x] none(1) [of x] none(2) by simp_all
    then show ?thesis unfolding any_visible_iff by (metis (no_types, lifting))
  qed
  finally have act: "recorder_is_active ?r \<longleftrightarrow>
      (\<exists>sid. listed_user W entries sid \<and> session_locked W sid \<noteq> Some True)" .
  have seeded: "seed_active_sessions E W cs (Some new_recorder) = Some ?r"
    by (simp add: seed_active_reports startup_reports_def assms(1))
  have "fmlookup (r_session_usernames ?r) sid =
      (if listed_user W entries sid then session_username W sid else None)" for sid
    using all [of sid] none(3) [of sid] by simp
  with seeded act show ?thesis by blast
qed

theorem startup_sees_sessions_witness:
  "\<exists>r. seed_active_sessions sample_recorder_env sample_windows sample_draws (Some new_recorder) = Some r \<and>
     recorder_is_active r \<and> fmlookup (r_session_usernames r) 1 = Some ''kid''"
proof -
  have e: "we_sessions sample_windows = Some [(0, 0), (1, 0), (2, 1), (3, 4)]" by (simp add: sample_windows_def)
  have p: "is_present sample_windows (1, 0)" "session_locked sample_windows 1 = None" "session_username sample_windows 1 = Some ''kid''"
    by (simp_all add: is_present_def sample_windows_def sample_codes_def session_username_def session_locked_def)
  from startup_sees_sessions [OF e, of sample_draws sample_recorder_env] p show ?thesis
    by (fastforce simp: sample_draws_def listed_user_def)
qed

end
