(* ===== verification/Cli.thy ===== *)
theory Cli
  imports Agent_Laws
begin

text \<open>
  The command line and the Windows service wrapper: \<^verbatim>\<open>agent/src/main.rs\<close> and the control handler of
  \<^verbatim>\<open>agent/src/service_win.rs\<close>, with the stop flags of \<^verbatim>\<open>agent/src/platform/windows.rs\<close>. Argument parsing is clap's; a command gives
  its lasting effects and the lines it prints.
\<close>

section \<open>Commands\<close>

record run_args =
  ra_controller_url :: "string option"
  ra_device_id :: "string option"
  ra_device_name :: "string option"
  ra_no_discovery :: bool

record discover_args =
  da_force :: bool

datatype command =
    CmdRun run_args
  | CmdService
  | CmdInstall
  | CmdUninstall
  | CmdStatusReport
  | CmdDiscover discover_args
  | CmdTestEvent

definition to_cli_overrides :: "run_args \<Rightarrow> overrides" where
  "to_cli_overrides a =
     \<lparr> ov_controller_url = ra_controller_url a, ov_device_id = ra_device_id a, ov_device_name = ra_device_name a,
       ov_discovery_enabled = (if ra_no_discovery a then Some False else None) \<rparr>"

text \<open>Which entry point a command line leads to; \<open>windows_build\<close> is the compile-time platform.\<close>

datatype entry_point =
    RunBlocking overrides
  | ServiceRun
  | ServiceInstall
  | ServiceUninstall
  | Unsupported string
  | StatusReport
  | DiscoverOnce discover_args
  | TestEvent

text \<open>\<^verbatim>\<open>data_dir\<close> of \<^verbatim>\<open>agent/src/lib.rs\<close>; \<open>var_dir\<close> is \<^verbatim>\<open>TIMELORD_DATA_DIR\<close>.\<close>

definition data_dir :: "bool \<Rightarrow> path option \<Rightarrow> filesystem \<Rightarrow> io_error + path" where
  "data_dir windows_build var_dir fs =
     (let dir = (case var_dir of
                   Some d \<Rightarrow> d
                 | None \<Rightarrow> if windows_build then [''C:'', ''ProgramData'', ''TimeLord''] else [''.'', ''timelord-data''])
      in case mkdir_fault fs dir of Some e \<Rightarrow> Inl (IoOther e) | None \<Rightarrow> Inr dir)"

definition run_service :: "bool \<Rightarrow> entry_point" where
  "run_service windows_build =
     (if windows_build then ServiceRun
      else Unsupported ''`service` mode requires the Windows Service Control Manager and only runs on Windows'')"

definition install_service :: "bool \<Rightarrow> entry_point" where
  "install_service windows_build =
     (if windows_build then ServiceInstall else Unsupported ''service installation is only supported on Windows'')"

definition uninstall_service :: "bool \<Rightarrow> entry_point" where
  "uninstall_service windows_build =
     (if windows_build then ServiceUninstall else Unsupported ''service installation is only supported on Windows'')"

definition main_command :: "bool \<Rightarrow> command option \<Rightarrow> entry_point" where
  "main_command windows_build cmd =
     (case cmd of
        Some (CmdRun args) \<Rightarrow> RunBlocking (to_cli_overrides args)
      | Some CmdService \<Rightarrow> run_service windows_build
      | None \<Rightarrow> if windows_build then run_service windows_build else RunBlocking no_overrides
      | Some CmdInstall \<Rightarrow> install_service windows_build
      | Some CmdUninstall \<Rightarrow> uninstall_service windows_build
      | Some CmdStatusReport \<Rightarrow> StatusReport
      | Some (CmdDiscover args) \<Rightarrow> DiscoverOnce args
      | Some CmdTestEvent \<Rightarrow> TestEvent)"

text \<open>
  Where the log goes and what is logged: \<open>valid_filter\<close> says which filters \<^verbatim>\<open>EnvFilter\<close> can parse. A log directory that cannot be created is ignored.
\<close>

record log_settings =
  log_directory :: path
  log_file_prefix :: string
  log_filter :: string

definition init_logging :: "(string \<Rightarrow> string option) \<Rightarrow> (string \<Rightarrow> bool) \<Rightarrow> path \<Rightarrow> log_settings" where
  "init_logging var valid_filter dir =
     \<lparr> log_directory = dir @ [''logs''], log_file_prefix = ''agent.log'',
       log_filter = (case var ''RUST_LOG'' of
                       Some f \<Rightarrow> if valid_filter f then f else ''info''
                     | None \<Rightarrow> ''info'') \<rparr>"

text \<open>\<open>cmd\<close> is what clap has made of the arguments.\<close>

definition main ::
  "bool \<Rightarrow> (string \<Rightarrow> string option) \<Rightarrow> (string \<Rightarrow> bool) \<Rightarrow> path option \<Rightarrow> filesystem \<Rightarrow> command option \<Rightarrow>
   io_error + log_settings \<times> path \<times> entry_point" where
  "main windows_build var valid_filter var_dir fs cmd =
     (case data_dir windows_build var_dir fs of
        Inl e \<Rightarrow> Inl e
      | Inr dir \<Rightarrow> Inr (init_logging var valid_filter dir, dir, main_command windows_build cmd))"

text \<open>
  What the commands meet. \<open>ce_path_text\<close> is \<^verbatim>\<open>Path::display\<close>, \<open>ce_duration_text\<close> the debug rendering of a duration, \<open>ce_service_state\<close> the answer of
  \<^verbatim>\<open>service_win::query_status\<close> in a Windows build (\<open>query_status\<close> of \<open>Service\<close>).
\<close>

record cli_env =
  ce_agent :: agent_env
  ce_var :: "string \<Rightarrow> string option"
  ce_hostname :: string
  ce_fresh_id :: uuid
  ce_os :: string
  ce_arch :: string
  ce_path_text :: "path \<Rightarrow> string"
  ce_duration_text :: "nanos \<Rightarrow> string"
  ce_open_faults :: open_faults
  ce_runtime_fault :: "string option"
  ce_service_state :: "(string + string) option"

datatype cli_error = CliConfig config_error | CliQueue queue_error | CliDiscovery string | CliRuntime string | CliPanic

definition cli_config :: "cli_env \<Rightarrow> filesystem \<Rightarrow> path \<Rightarrow> filesystem \<times> (config_error + agent_config)" where
  "cli_config X fs toml =
     load_config (ae_queue (ce_agent X)) (ae_config_codec (ce_agent X)) (ce_var X) (ce_hostname X) (ce_fresh_id X) fs toml no_overrides"

abbreviation "uuid_shown X \<equiv> uuid_to_string (ae_queue (ce_agent X))"

text \<open>A command changes the files and the event database (\<open>stored\<close>), prints lines, and succeeds or fails. What was printed before a failure stays printed.\<close>

subsection \<open>status\<close>

definition show_bool :: "bool \<Rightarrow> string" where
  "show_bool b = (if b then ''true'' else ''false'')"

fun join_text :: "string \<Rightarrow> string list \<Rightarrow> string" where
  "join_text sep [] = []"
| "join_text sep [x] = x"
| "join_text sep (x # y # xs) = x @ sep @ join_text sep (y # xs)"

definition status_lines :: "cli_env \<Rightarrow> path \<Rightarrow> agent_config \<Rightarrow> string list" where
  "status_lines X dir config =
     [''Data directory:       '' @ ce_path_text X dir,
      ''Device ID:            '' @ uuid_shown X (device_id config),
      ''Device name:          '' @ device_name config,
      ''Controller URL:       '' @ unwrap_or (controller_url config) ''(not configured)'',
      ''Discovery enabled:    '' @ show_bool (discovery_enabled config),
      ''Heartbeat interval:   '' @ show_nat (nat (heartbeat_interval config div seconds 1)) @ ''s'',
      ''NTP time check:       '' @ (if ntp_enabled config then join_text '', '' (ntp_servers config) else ''disabled'')]"

definition service_line :: "cli_env \<Rightarrow> string list" where
  "service_line X =
     (case ce_service_state X of
        None \<Rightarrow> []
      | Some state \<Rightarrow> [''Service state:        '' @ (case state of Inr st \<Rightarrow> st | Inl e \<Rightarrow> ''unknown ('' @ e @ '')'')])"

definition status ::
  "cli_env \<Rightarrow> path \<Rightarrow> filesystem \<times> event_queue option \<Rightarrow> (filesystem \<times> event_queue option) \<times> string list \<times> (cli_error + unit)" where
  "status X dir = (\<lambda>(fs, stored).
     case cli_config X fs (dir @ [''agent.toml'']) of
       (fs', Inl e) \<Rightarrow> ((fs', stored), [], Inl (CliConfig e))
     | (fs', Inr config) \<Rightarrow>
         (case queue_open (ce_open_faults X) stored of
            (stored', Inl e) \<Rightarrow> ((fs', stored'), [], Inl (CliQueue e))
          | (stored', Inr q) \<Rightarrow>
              (case queue_len (ae_queue (ce_agent X)) q of
                 Inl e \<Rightarrow> ((fs', stored'), status_lines X dir config, Inl (CliQueue e))
               | Inr n \<Rightarrow>
                   ((fs', stored'),
                    status_lines X dir config @ [''Pending local events: '' @ show_nat n] @ service_line X, Inr ()))))"

subsection \<open>discover\<close>

text \<open>The dash of the last message is U+2014, here as its three bytes.\<close>

definition candidate_line :: "cli_env \<Rightarrow> discovered_controller \<Rightarrow> string" where
  "candidate_line X c =
     ''  - '' @ dc_controller_name c @ '' ('' @ uuid_shown X (dc_controller_id c) @ '')  priority='' @ show_int (dc_priority c) @
     ''  url='' @ dc_controller_url c @ ''  response_time='' @ ce_duration_text X (dc_response_time c)"

definition found_lines :: "cli_env \<Rightarrow> discovered_controller list \<Rightarrow> discovered_controller \<Rightarrow> string list" where
  "found_lines X found best =
     [''Found '' @ show_nat (length found) @ '' controller(s):''] @ map (candidate_line X) found @
     [[], ''Selected: '' @ dc_controller_name best @ '' ('' @ dc_controller_url best @ '')'']"

definition not_persisted_line :: string where
  "not_persisted_line =
     ''(not persisted '' @ [CHR 0xE2, CHR 0x80, CHR 0x94] @ '' pass --force to save this as the configured controller URL)''"

definition discover_command ::
  "cli_env \<Rightarrow> discovery_io \<Rightarrow> filesystem \<Rightarrow> path \<Rightarrow> discover_args \<Rightarrow> filesystem \<times> string list \<times> (cli_error + unit)" where
  "discover_command X io fs dir args =
     (let toml = dir @ [''agent.toml''] in
      case cli_config X fs toml of
        (fs', Inl e) \<Rightarrow> (fs', [], Inl (CliConfig e))
      | (fs', Inr config) \<Rightarrow>
          (case ce_runtime_fault X of
             Some e \<Rightarrow> (fs', [], Inl (CliRuntime e))
           | None \<Rightarrow>
          (case snd (discover (dio_parse io) (dio_interfaces io) (dio_bind_error io) (dio_request_id io)
                  (discovery_timeout config) (dio_events io)) of
             Inl e \<Rightarrow> (fs', [], Inl (CliDiscovery e))
           | Inr found \<Rightarrow>
               if found = [] then
                 (fs', [''No controller responded within '' @ ce_duration_text X (discovery_timeout config) @ ''.''], Inr ())
               else (case select_best (ae_queue (ce_agent X)) found of
                  None \<Rightarrow> (fs', [''Found '' @ show_nat (length found) @ '' controller(s):''] @ map (candidate_line X) found, Inl CliPanic)
                | Some best \<Rightarrow>
                    if da_force args then
                      (case persist_controller_url (ae_config_codec (ce_agent X)) fs' toml (dc_controller_url best) of
                         (fs'', Inl e) \<Rightarrow> (fs'', found_lines X found best, Inl (CliConfig e))
                       | (fs'', Inr _) \<Rightarrow> (fs'', found_lines X found best @ [''Persisted to '' @ ce_path_text X toml], Inr ()))
                    else (fs', found_lines X found best @ [not_persisted_line], Inr ())))))"

subsection \<open>test-event\<close>

definition cli_register_request :: "cli_env \<Rightarrow> agent_config \<Rightarrow> register_request" where
  "cli_register_request X config =
     \<lparr> rq_device_id = device_id config, rq_device_name = device_name config, rq_hostname = device_name config,
       rq_agent_version = ae_version (ce_agent X), rq_operating_system = ce_os X, rq_operating_system_version = [],
       rq_architecture = ce_arch X, rq_local_ip_addresses = [], rq_network_interfaces = [] \<rparr>"

definition delivered_line :: "event_submission_response \<Rightarrow> string" where
  "delivered_line r =
     ''Delivered: accepted='' @ show_nat (unat (es_accepted r)) @ '' duplicates='' @ show_nat (unat (es_duplicates r)) @
     '' rejected='' @ show_nat (unat (es_rejected r))"

definition deliver_test_event ::
  "cli_env \<Rightarrow> client_env \<Rightarrow> client_env \<Rightarrow> agent_config \<Rightarrow> string \<Rightarrow> queued_event \<Rightarrow> event_queue \<Rightarrow>
   event_queue \<times> string list \<times> (cli_error + unit)" where
  "deliver_test_event X H H' config url event q =
     (let client = client_new url in
      case client_register H client (cli_register_request X config) of
        Inl e \<Rightarrow> (q, [''Registration failed, event stays queued for later delivery: '' @ error_text e], Inr ())
      | Inr resp \<Rightarrow>
          (case submit_events H' client (rr_device_id resp) \<lparr> sr_events = [to_event_item event] \<rparr> of
             Inl e \<Rightarrow> (q, [''Delivery failed, event stays queued for later delivery: '' @ error_text e], Inr ())
           | Inr response \<Rightarrow>
               (case es_results response of
                  result # _ \<Rightarrow>
                    if er_status result \<noteq> Rejected then
                      (case mark_delivered_by_event_id (ae_queue (ce_agent X)) q (ev_id event) of
                         (q', Inl e) \<Rightarrow> (q', [delivered_line response], Inl (CliQueue e))
                       | (q', Inr _) \<Rightarrow> (q', [delivered_line response], Inr ()))
                    else (q, [delivered_line response], Inr ())
                | [] \<Rightarrow> (q, [delivered_line response], Inr ()))))"

definition test_event ::
  "cli_env \<Rightarrow> moment \<Rightarrow> datetime \<Rightarrow> client_env \<Rightarrow> client_env \<Rightarrow> path \<Rightarrow> filesystem \<times> event_queue option \<Rightarrow>
   (filesystem \<times> event_queue option) \<times> string list \<times> (cli_error + unit)" where
  "test_event X m now H H' dir = (\<lambda>(fs, stored).
     case cli_config X fs (dir @ [''agent.toml'']) of
       (fs', Inl e) \<Rightarrow> ((fs', stored), [], Inl (CliConfig e))
     | (fs', Inr config) \<Rightarrow>
         (case queue_open (ce_open_faults X) stored of
            (stored', Inl e) \<Rightarrow> ((fs', stored'), [], Inl (CliQueue e))
          | (_, Inr q) \<Rightarrow>
         (let event = agent_started (draw m 0) (sys m) (ae_version (ce_agent X)) ''CLI_TEST_EVENT'' in
          case enqueue (ae_queue (ce_agent X)) q event now of
            (q1, Inl e) \<Rightarrow> ((fs', Some q1), [], Inl (CliQueue e))
          | (q1, Inr _) \<Rightarrow>
              (let queued = ''Queued test event '' @ uuid_shown X (ev_id event) in
               case controller_url config of
                 None \<Rightarrow>
                   ((fs', Some q1), [queued, ''No controller configured; event will be delivered once one is available.''], Inr ())
               | Some url \<Rightarrow>
                   (case ce_runtime_fault X of
                      Some e \<Rightarrow> ((fs', Some q1), [queued], Inl (CliRuntime e))
                    | None \<Rightarrow>
                        (case deliver_test_event X H H' config url event q1 of
                           (q2, printed, res) \<Rightarrow> ((fs', Some q2), queued # printed, res)))))))"

section \<open>Service control\<close>

datatype service_control = ControlShutdown | ControlStop | ControlInterrogate | ControlOther

datatype control_result = NoError | NotImplemented

text \<open>The process-wide flags, and how many quit messages were posted to the pump thread.\<close>

record service_flags =
  sf_shutdown_requested :: bool
  sf_pump_thread :: "u32 option"
  sf_quits_posted :: nat

definition flags_init :: service_flags where
  "flags_init = \<lparr> sf_shutdown_requested = False, sf_pump_thread = None, sf_quits_posted = 0 \<rparr>"

definition mark_shutdown_requested :: "service_flags \<Rightarrow> service_flags" where
  "mark_shutdown_requested s = s\<lparr>sf_shutdown_requested := True\<rparr>"

text \<open>\<open>posted\<close> is what \<^verbatim>\<open>PostThreadMessageW\<close> answers if it is called: a thread without a message queue (or with a full one) cannot be posted to. The code ignores it.\<close>

definition request_stop :: "bool \<Rightarrow> service_flags \<Rightarrow> service_flags" where
  "request_stop posted s =
     (case sf_pump_thread s of
        Some tid \<Rightarrow> if posted then s\<lparr>sf_quits_posted := sf_quits_posted s + 1\<rparr> else s
      | None \<Rightarrow> s)"

fun event_handler :: "bool \<Rightarrow> service_control \<Rightarrow> service_flags \<Rightarrow> service_flags \<times> control_result" where
  "event_handler posted ControlShutdown s = (request_stop posted (mark_shutdown_requested s), NoError)"
| "event_handler posted ControlStop s = (request_stop posted s, NoError)"
| "event_handler posted ControlInterrogate s = (s, NoError)"
| "event_handler posted ControlOther s = (s, NotImplemented)"

text \<open>The start of the pump sets the thread identifier once (a \<^verbatim>\<open>OnceLock\<close>).\<close>

definition pump_started :: "u32 \<Rightarrow> service_flags \<Rightarrow> service_flags" where
  "pump_started tid s = s\<lparr>sf_pump_thread := (case sf_pump_thread s of Some t \<Rightarrow> Some t | None \<Rightarrow> Some tid)\<rparr>"

datatype service_event = Control service_control bool | PumpStarts u32

fun service_step :: "service_flags \<Rightarrow> service_event \<Rightarrow> service_flags" where
  "service_step s (Control c posted) = fst (event_handler posted c s)"
| "service_step s (PumpStarts tid) = pump_started tid s"

section \<open>Properties\<close>

definition accepted_by_controller :: "cli_env \<Rightarrow> client_env \<Rightarrow> client_env \<Rightarrow> agent_config \<Rightarrow> queued_event \<Rightarrow> bool" where
  "accepted_by_controller X H H' config event \<longleftrightarrow>
     (case controller_url config of
        None \<Rightarrow> False
      | Some url \<Rightarrow>
          (case client_register H (client_new url) (cli_register_request X config) of
             Inl _ \<Rightarrow> False
           | Inr resp \<Rightarrow>
               (case submit_events H' (client_new url) (rr_device_id resp) \<lparr> sr_events = [to_event_item event] \<rparr> of
                  Inl _ \<Rightarrow> False
                | Inr response \<Rightarrow>
                    (case es_results response of [] \<Rightarrow> False | result # _ \<Rightarrow> er_status result \<noteq> Rejected))))"

lemma deliver_test_event_rep:
  assumes law: "queue_lawful (ae_queue (ce_agent X))" and rep: "queue_rep (ae_queue (ce_agent X)) (es @ [x]) q"
    and x: "pe_event x = event" "ev_id event \<notin> event_ids es" and url: "controller_url config = Some url"
  shows "\<exists>q' printed. deliver_test_event X H H' config url event q = (q', printed, Inr ()) \<and>
     queue_rep (ae_queue (ce_agent X)) (if accepted_by_controller X H H' config event then es else es @ [x]) q'"
proof -
  have "filter (\<lambda>y. ev_id (pe_event y) \<noteq> ev_id event) es = es"
    using x(2) by (force simp: filter_id_conv event_ids_def)
  with mark_delivered_by_event_id_rep [of "ae_queue (ce_agent X)" "es @ [x]" q "ev_id event"] law rep x(1)
  obtain q' where "mark_delivered_by_event_id (ae_queue (ce_agent X)) q (ev_id event) = (q', Inr ())"
    "queue_rep (ae_queue (ce_agent X)) es q'" by (auto simp: queue_lawful_def no_fault_def)
  with rep url show ?thesis
    by (auto simp: deliver_test_event_def accepted_by_controller_def split: sum.split list.split)
qed

text \<open>
  Trying the link never loses the trial event: once the configuration is read and the database open, \<^verbatim>\<open>test-event\<close> stores the event before
  it contacts anyone, and the event leaves the queue exactly when a controller is configured, registers
  the device, answers the submission, and its first result is not a rejection; nothing else in the queue changes.
\<close>

theorem test_event_stays_queued:
  assumes law: "queue_lawful (ae_queue (ce_agent X))" and rep: "queue_rep (ae_queue (ce_agent X)) es (create_table queue_init stored)"
    and now: "rfc_range now" "rfc_range (sys m)" and room: "length es < 5000" and new: "draw m 0 \<notin> event_ids es"
    and config: "cli_config X fs (dir @ [''agent.toml'']) = (fs', Inr config)"
    and opens: "\<And>st. ce_open_faults X st = None" "ce_runtime_fault X = None"
  shows "let event = agent_started (draw m 0) (sys m) (ae_version (ce_agent X)) ''CLI_TEST_EVENT'' in
     \<exists>q' printed. test_event X m now H H' dir (fs, stored) = ((fs', Some q'), printed, Inr ()) \<and>
       queue_rep (ae_queue (ce_agent X))
         (if accepted_by_controller X H H' config event then es
          else es @ [entry_of (q_next_id (create_table queue_init stored)) event now]) q'"
proof -
  define event where "event = agent_started (draw m 0) (sys m) (ae_version (ce_agent X)) ''CLI_TEST_EVENT''"
  let ?q = "create_table queue_init stored"
  let ?x = "entry_of (q_next_id ?q) event now"
  have ev: "ev_id event = draw m 0" "ev_occurred_at event = sys m" "pe_event ?x = event"
    by (simp_all add: event_def agent_started_def new_event_def entry_of_def)
  have "appended (q_next_id ?q) es event now = es @ [?x]" using new ev(1) by (simp add: appended_def)
  with enqueue_rep [of "ae_queue (ce_agent X)" es ?q now event] law rep now ev(2) obtain q1 es' where
    q1: "enqueue (ae_queue (ce_agent X)) ?q event now = (q1, Inr ())" "queue_rep (ae_queue (ce_agent X)) es' q1"
      "trimmed (nat MAX_QUEUE_SIZE) (es @ [?x]) es'" by (auto simp: queue_lawful_def)
  from q1(3) room have "es' = es @ [?x]"
    using trimmed_small [of "nat MAX_QUEUE_SIZE" "es @ [?x]" es'] by (simp add: MAX_QUEUE_SIZE_def)
  note opened = queue_file.opening_works [of "ce_open_faults X" stored, OF opens(1)]
  show ?thesis
  proof (cases "controller_url config")
    case None
    with config q1 \<open>es' = _\<close> opened show ?thesis
      by (simp add: test_event_def accepted_by_controller_def flip: event_def)
  next
    case (Some url)
    from deliver_test_event_rep [OF law q1(2) [unfolded \<open>es' = _\<close>] ev(3) _ Some, of H H'] new ev(1)
    obtain q' printed where "deliver_test_event X H H' config url event q1 = (q', printed, Inr ())"
      "queue_rep (ae_queue (ce_agent X)) (if accepted_by_controller X H H' config event then es else es @ [?x]) q'"
      by auto
    with config q1(1) Some opened opens(2) show ?thesis by (simp add: test_event_def flip: event_def)
  qed
qed

text \<open>
  \<^verbatim>\<open>status\<close> leaves the queue as it is (a missing database is created empty) and reports the number of events that wait in it.
\<close>

theorem status_reports_queue:
  assumes "queue_lawful (ae_queue (ce_agent X))" "queue_rep (ae_queue (ce_agent X)) es (create_table queue_init stored)"
    "cli_config X fs (dir @ [''agent.toml'']) = (fs', Inr config)" "\<And>st. ce_open_faults X st = None"
  shows "status X dir (fs, stored) = ((fs', Some (create_table queue_init stored)),
     status_lines X dir config @ [''Pending local events: '' @ show_nat (length es)] @ service_line X, Inr ())"
proof -
  have "queue_len (ae_queue (ce_agent X)) (create_table queue_init stored) = Inr (length es)"
    using assms(1,2) by (simp add: queue_len_def queue_lawful_def no_fault_def queue_rep_def)
  with assms(3) queue_file.opening_works [of "ce_open_faults X" stored, OF assms(4)] show ?thesis by (simp add: status_def)
qed

definition sample_cli_env :: cli_env where
  "sample_cli_env =
     \<lparr> ce_agent = sample_agent_env,
       ce_var = (\<lambda>v. if v = ''TIMELORD_CONTROLLER_URL'' then Some ''http://c'' else None),
       ce_hostname = ''kids-pc'', ce_fresh_id = 7, ce_os = ''windows'', ce_arch = ''x86_64'',
       ce_path_text = concat, ce_duration_text = show_int, ce_open_faults = (\<lambda>_. None), ce_runtime_fault = None,
       ce_service_state = None \<rparr>"

lemma sample_cli_config:
  "\<exists>fs' config. cli_config sample_cli_env empty_fs sample_path = (fs', Inr config) \<and> controller_url config = Some ''http://c''"
proof -
  have "trim ''http://c'' = ''http://c''" by code_simp
  moreover have "trim [] = []" by code_simp
  ultimately show ?thesis
    by (simp add: cli_config_def sample_cli_env_def sample_agent_env_def load_config_def load_file_def read_to_string_def
        empty_fs_def persist_device_id_def save_file_def fs_write_def resolve_config_def device_id_text_def or_else_def
        non_empty_def default_file_config_def no_overrides_def from_process_env_def Let_def)
qed

theorem test_event_stays_queued_witness:
  "\<forall>st. \<exists>fs' q' printed. test_event sample_cli_env (sample_moment 0) 0 (sample_answer_net []) (sample_answer_net [st]) []
       (empty_fs, None) = ((fs', Some q'), printed, Inr ()) \<and>
     queue_rep sample_queue_env
       (if st = Rejected then [entry_of 1 (agent_started (draw (sample_moment 0) 0) 0 (ae_version sample_agent_env) ''CLI_TEST_EVENT'') 0] else []) q'"
proof
  fix st
  obtain fs' config where "cli_config sample_cli_env empty_fs sample_path = (fs', Inr config)"
    "controller_url config = Some ''http://c''" using sample_cli_config by blast
  then have c: "cli_config sample_cli_env empty_fs ([] @ [''agent.toml'']) = (fs', Inr config)" "controller_url config = Some ''http://c''"
    by (simp_all add: sample_path_def)
  let ?X = sample_cli_env
  have q: "ae_queue sample_agent_env = sample_queue_env" "ce_agent ?X = sample_agent_env" "sys (sample_moment 0) = 0"
    "ce_open_faults ?X = (\<lambda>_. None)" "ce_runtime_fault ?X = None"
    by (simp_all add: sample_cli_env_def sample_agent_env_def sample_moment_def)
  have law: "queue_lawful (ae_queue (ce_agent ?X))" by (simp add: q sample_queue_lawful)
  have rep: "queue_rep (ae_queue (ce_agent ?X)) [] (create_table queue_init None)" by (simp add: queue_rep_init)
  have acc: "accepted_by_controller ?X (sample_answer_net []) (sample_answer_net [st]) config e \<longleftrightarrow> st \<noteq> Rejected" for e
    by (simp add: accepted_by_controller_def c(2) client_register_def submit_events_def call_def parse_response_def
        is_success_def sample_answer_net_def sample_controller_net_def)
  from test_event_stays_queued [OF law rep rfc_range_sample _ _ _ c(1), of "sample_moment 0" "sample_answer_net []" "sample_answer_net [st]"]
  show "\<exists>fs' q' printed. test_event sample_cli_env (sample_moment 0) 0 (sample_answer_net []) (sample_answer_net [st]) []
       (empty_fs, None) = ((fs', Some q'), printed, Inr ()) \<and>
     queue_rep sample_queue_env
       (if st = Rejected then [entry_of 1 (agent_started (draw (sample_moment 0) 0) 0 (ae_version sample_agent_env) ''CLI_TEST_EVENT'') 0] else []) q'"
    by (auto simp: q acc event_ids_def Let_def queue_init_def)
qed

definition stopping_control :: "service_event \<Rightarrow> bool" where
  "stopping_control ev \<longleftrightarrow> ev = Control ControlStop True \<or> ev = Control ControlShutdown True"

definition stopped_after_start :: "service_event list \<Rightarrow> bool" where
  "stopped_after_start evs \<longleftrightarrow> (\<exists>pre tid post. evs = pre @ PumpStarts tid # post \<and> list_ex stopping_control post)"

definition pump_in :: "service_event list \<Rightarrow> bool" where
  "pump_in evs \<longleftrightarrow> (\<exists>tid. PumpStarts tid \<in> set evs)"

lemma stopped_after_start_snoc:
  "stopped_after_start (evs @ [ev]) \<longleftrightarrow> stopped_after_start evs \<or> stopping_control ev \<and> pump_in evs"
proof
  assume "stopped_after_start (evs @ [ev])"
  then obtain pre tid post where p: "evs @ [ev] = pre @ PumpStarts tid # post" "list_ex stopping_control post"
    by (auto simp: stopped_after_start_def)
  then obtain post' e where "post = post' @ [e]" by (cases post rule: rev_cases) auto
  with p show "stopped_after_start evs \<or> stopping_control ev \<and> pump_in evs"
    by (auto simp: stopped_after_start_def pump_in_def)
next
  have later: "stopped_after_start (evs @ [ev])" if "evs = pre @ PumpStarts tid # post" "list_ex stopping_control (post @ [ev])"
    for pre tid post
    using that unfolding stopped_after_start_def by (intro exI [of _ pre] exI [of _ tid] exI [of _ "post @ [ev]"]) simp
  assume "stopped_after_start evs \<or> stopping_control ev \<and> pump_in evs"
  then show "stopped_after_start (evs @ [ev])"
  proof
    assume "stopped_after_start evs"
    with later show ?thesis by (fastforce simp: stopped_after_start_def)
  next
    assume now: "stopping_control ev \<and> pump_in evs"
    then obtain pre tid post where "evs = pre @ PumpStarts tid # post" by (auto simp: pump_in_def dest: split_list)
    with later now show ?thesis by fastforce
  qed
qed

lemma service_step_flags:
  "sf_pump_thread (service_step s ev) \<noteq> None \<longleftrightarrow> sf_pump_thread s \<noteq> None \<or> (\<exists>tid. ev = PumpStarts tid)"
  "0 < sf_quits_posted (service_step s ev) \<longleftrightarrow> 0 < sf_quits_posted s \<or> stopping_control ev \<and> sf_pump_thread s \<noteq> None"
  "sf_shutdown_requested (service_step s ev) \<longleftrightarrow> sf_shutdown_requested s \<or> (\<exists>posted. ev = Control ControlShutdown posted)"
proof -
  have stop: "sf_pump_thread (request_stop posted t) = sf_pump_thread t" "sf_shutdown_requested (request_stop posted t) = sf_shutdown_requested t"
    "0 < sf_quits_posted (request_stop posted t) \<longleftrightarrow> 0 < sf_quits_posted t \<or> posted \<and> sf_pump_thread t \<noteq> None" for posted t
    by (simp_all add: request_stop_def split: option.split)
  note flags = stop stopping_control_def mark_shutdown_requested_def pump_started_def
  show "sf_pump_thread (service_step s ev) \<noteq> None \<longleftrightarrow> sf_pump_thread s \<noteq> None \<or> (\<exists>tid. ev = PumpStarts tid)"
    "0 < sf_quits_posted (service_step s ev) \<longleftrightarrow> 0 < sf_quits_posted s \<or> stopping_control ev \<and> sf_pump_thread s \<noteq> None"
    "sf_shutdown_requested (service_step s ev) \<longleftrightarrow> sf_shutdown_requested s \<or> (\<exists>posted. ev = Control ControlShutdown posted)"
  proof (induction ev)
    case (Control c posted)
    case 1 show ?case by (cases c) (simp_all add: flags)
    case 2 show ?case by (cases c) (auto simp: flags)
    case 3 show ?case by (cases c) (simp_all add: flags)
  next
    case (PumpStarts tid)
    case 1 show ?case by (simp add: flags split: option.split)
    case 2 show ?case by (simp add: flags)
    case 3 show ?case by (simp add: flags)
  qed
qed

lemma service_run:
  "sf_pump_thread (foldl service_step flags_init evs) \<noteq> None \<longleftrightarrow> pump_in evs"
  "0 < sf_quits_posted (foldl service_step flags_init evs) \<longleftrightarrow> stopped_after_start evs"
  "sf_shutdown_requested (foldl service_step flags_init evs) \<longleftrightarrow> (\<exists>posted. Control ControlShutdown posted \<in> set evs)"
proof (induction evs rule: rev_induct)
  case Nil
  case 1 show ?case by (simp add: flags_init_def pump_in_def)
  case 2 show ?case by (simp add: flags_init_def stopped_after_start_def)
  case 3 show ?case by (simp add: flags_init_def)
next
  case (snoc ev evs)
  case 1 show ?case using snoc(1) unfolding foldl_append foldl.simps service_step_flags(1) by (auto simp: pump_in_def)
  case 2 show ?case using snoc(1,2) by (simp add: service_step_flags(2) stopped_after_start_snoc del: service_step.simps)
  case 3 show ?case using snoc(3) by (auto simp: service_step_flags(3) simp del: service_step.simps)
qed

text \<open>
  Property C28. What a stop request achieves: the pump is told to quit exactly when a stop or shutdown control arrives after the pump
  thread has registered itself and the quit message can be posted to it, and the shutdown flag is set exactly when a shutdown control has arrived. A request that
  arrives before that, while the agent is still starting, or whose message cannot be posted is acknowledged and dropped.
\<close>

theorem stop_request_effective:
  "let s = foldl service_step flags_init evs in
     (0 < sf_quits_posted s \<longleftrightarrow>
        (\<exists>pre tid post. evs = pre @ PumpStarts tid # post \<and> list_ex stopping_control post)) \<and>
     (sf_shutdown_requested s \<longleftrightarrow> (\<exists>posted. Control ControlShutdown posted \<in> set evs))"
  unfolding Let_def service_run(2,3) stopped_after_start_def by simp

end
