(* ===== verification/Lifecycle.thy ===== *)
theory Lifecycle
  imports Agent Notify_Pipe
begin

text \<open>
  The tasks of \<^verbatim>\<open>run_blocking\<close> (\<^verbatim>\<open>agent/src/agent.rs\<close>) and how they are stopped. Each loop holds a receiver of the watch channel in
  \<open>shutdown_tx\<close> and leaves when it sees a version newer than the one it had when it subscribed;
  \<^verbatim>\<open>Sender::send\<close> does nothing when nobody has subscribed. The clock loop is a task of its own, the five other loops and the pipe
  server are joined into the networking task, which starts them together once the agent is registered. \<^verbatim>\<open>run_blocking\<close> waits for that task, but no longer than
  \<open>SHUTDOWN_FLUSH_TIMEOUT\<close>, and then gives the runtime two more seconds.
\<close>

section \<open>Tasks and the stop signal\<close>

datatype task = ClockSync | Heartbeat | SchedulePoll | MessagePoll | Delivery | Enforcement | PipeServer

definition joined :: "task list" where
  "joined = [Heartbeat, SchedulePoll, MessagePoll, Delivery, Enforcement, PipeServer]"

text \<open>A live task has seen a version of the channel when it subscribed.\<close>

datatype task_state = NotStarted | Live nat | Finished

record lifecycle =
  lc_version :: nat
  lc_task :: "task \<Rightarrow> task_state"

definition lifecycle_init :: lifecycle where
  "lifecycle_init = \<lparr> lc_version = 0, lc_task = (\<lambda>_. NotStarted) \<rparr>"

fun is_live :: "task_state \<Rightarrow> bool" where
  "is_live (Live _) = True"
| "is_live _ = False"

text \<open>The pipe server does not subscribe.\<close>

definition has_receivers :: "lifecycle \<Rightarrow> bool" where
  "has_receivers s = list_ex (\<lambda>t. is_live (lc_task s t)) (ClockSync # butlast joined)"

definition watch_send :: "lifecycle \<Rightarrow> lifecycle" where
  "watch_send s = (if has_receivers s then s\<lparr>lc_version := lc_version s + 1\<rparr> else s)"

datatype life_event =
    ClockStarts bool  \<comment> \<open>whether NTP is enabled\<close>
  | JoinStarts bool  \<comment> \<open>whether the pipe server gets its first instance\<close>
  | LoopStops task
  | PipeFails  \<comment> \<open>no further pipe instance could be made\<close>
  | StopSent

text \<open>\<open>None\<close>: the event cannot happen.\<close>

fun life_next :: "life_event \<Rightarrow> lifecycle \<Rightarrow> lifecycle option" where
  "life_next (ClockStarts enabled) s =
     (if lc_task s ClockSync = NotStarted
      then Some (s\<lparr>lc_task := (lc_task s)(ClockSync := if enabled then Live (lc_version s) else Finished)\<rparr>) else None)"
| "life_next (JoinStarts pipe) s =
     (if list_all (\<lambda>t. lc_task s t = NotStarted) joined
      then Some (s\<lparr>lc_task := (\<lambda>t. if t = ClockSync then lc_task s t
                                   else if t = PipeServer \<and> \<not> pipe then Finished else Live (lc_version s))\<rparr>) else None)"
| "life_next (LoopStops t) s =
     (case lc_task s t of
        Live v \<Rightarrow> if t \<noteq> PipeServer \<and> v < lc_version s then Some (s\<lparr>lc_task := (lc_task s)(t := Finished)\<rparr>) else None
      | _ \<Rightarrow> None)"
| "life_next PipeFails s =
     (if is_live (lc_task s PipeServer) then Some (s\<lparr>lc_task := (lc_task s)(PipeServer := Finished)\<rparr>) else None)"
| "life_next StopSent s = Some (watch_send s)"

fun life_run :: "lifecycle \<Rightarrow> life_event list \<Rightarrow> lifecycle option" where
  "life_run s [] = Some s"
| "life_run s (e # es) = (case life_next e s of None \<Rightarrow> None | Some s' \<Rightarrow> life_run s' es)"

definition networking_done :: "lifecycle \<Rightarrow> bool" where
  "networking_done s = list_all (\<lambda>t. lc_task s t = Finished) joined"

section \<open>The end of a run\<close>

definition SHUTDOWN_FLUSH_TIMEOUT :: nanos where
  "SHUTDOWN_FLUSH_TIMEOUT = seconds 5"

text \<open>When the networking task ends, of the events after the stop with their times since then.\<close>

fun finished_at :: "lifecycle \<Rightarrow> (nanos \<times> life_event) list \<Rightarrow> nanos option" where
  "finished_at s [] = None"
| "finished_at s ((t, e) # es) =
     (case life_next e s of
        None \<Rightarrow> finished_at s es
      | Some s' \<Rightarrow> if networking_done s' then Some t else finished_at s' es)"

text \<open>
  How long \<^verbatim>\<open>run_blocking\<close> still takes after \<^verbatim>\<open>begin_shutdown\<close>, and whether it warns that the networking task did not finish.
  \<open>blocking\<close> is how long the calls handed to the operating system (a suspend, an NTP query) still take.
\<close>

definition run_blocking_end :: "nanos option \<Rightarrow> nanos \<Rightarrow> nanos \<times> bool" where
  "run_blocking_end finished blocking =
     (case finished of
        Some d \<Rightarrow> if d < SHUTDOWN_FLUSH_TIMEOUT then (d + min blocking (seconds 2), False)
                  else (SHUTDOWN_FLUSH_TIMEOUT + min blocking (seconds 2), True)
      | None \<Rightarrow> (SHUTDOWN_FLUSH_TIMEOUT + min blocking (seconds 2), True))"

definition stop_duration :: "lifecycle \<Rightarrow> (nanos \<times> life_event) list \<Rightarrow> nanos \<Rightarrow> nanos" where
  "stop_duration s after blocking =
     fst (run_blocking_end (if networking_done s then Some 0 else finished_at s after) blocking)"

section \<open>Lemmas\<close>

lemma set_tasks: "t \<in> set joined \<longleftrightarrow> t \<noteq> ClockSync" "t \<in> set (ClockSync # butlast joined) \<longleftrightarrow> t \<noteq> PipeServer"
  by (cases t; simp add: joined_def)+

lemma joined_iff: "list_all P joined \<longleftrightarrow> (\<forall>t. t \<noteq> ClockSync \<longrightarrow> P t)"
  by (simp add: list_all_iff set_tasks(1) Ball_def)

lemma has_receivers_iff: "has_receivers s \<longleftrightarrow> (\<exists>t. t \<noteq> PipeServer \<and> is_live (lc_task s t))"
  unfolding has_receivers_def list_ex_iff Bex_def set_tasks(2) ..

lemma life_run_append:
  "life_run s (es @ es') = (case life_run s es of None \<Rightarrow> None | Some s' \<Rightarrow> life_run s' es')"
  by (induction es arbitrary: s) (auto split: option.split)

text \<open>The event that starts a task, and whether a stop came after it.\<close>

fun starts :: "task \<Rightarrow> life_event \<Rightarrow> bool" where
  "starts t (ClockStarts _) = (t = ClockSync)"
| "starts t (JoinStarts _) = (t \<noteq> ClockSync)"
| "starts t _ = False"

definition stopped_later :: "task \<Rightarrow> life_event list \<Rightarrow> bool" where
  "stopped_later t es \<longleftrightarrow> (\<exists>as b bs. es = as @ b # bs \<and> starts t b \<and> StopSent \<in> set bs)"

lemma stopped_later_snoc:
  "stopped_later t (es @ [e]) \<longleftrightarrow> stopped_later t es \<or> e = StopSent \<and> list_ex (starts t) es"
proof
  assume "stopped_later t (es @ [e])"
  then obtain as b bs where "es @ [e] = as @ b # bs" "starts t b" "StopSent \<in> set bs" by (auto simp: stopped_later_def)
  then show "stopped_later t es \<or> e = StopSent \<and> list_ex (starts t) es"
    by (cases bs rule: rev_cases) (auto simp: stopped_later_def list_ex_iff)
next
  assume "stopped_later t es \<or> e = StopSent \<and> list_ex (starts t) es"
  then show "stopped_later t (es @ [e])"
  proof
    assume "stopped_later t es"
    then show ?thesis by (auto simp: stopped_later_def) (metis append_Cons append_assoc in_set_conv_decomp)
  next
    assume e: "e = StopSent \<and> list_ex (starts t) es"
    then obtain b as bs where "es = as @ b # bs" "starts t b" by (auto simp: list_ex_iff in_set_conv_decomp)
    with e have "es @ [e] = as @ b # (bs @ [StopSent])" "StopSent \<in> set (bs @ [StopSent])" by auto
    with \<open>starts t b\<close> show ?thesis unfolding stopped_later_def by blast
  qed
qed

text \<open>
  In every history a task is live from its start on, its version is behind the channel's exactly when a stop came after that start, and a
  subscribed task ends only then.
\<close>

definition history_ok :: "life_event list \<Rightarrow> lifecycle \<Rightarrow> bool" where
  "history_ok es s \<longleftrightarrow>
     (\<forall>t. (lc_task s t = NotStarted \<longleftrightarrow> \<not> list_ex (starts t) es) \<and>
       (\<forall>v. lc_task s t = Live v \<longrightarrow> v \<le> lc_version s \<and> (t \<noteq> PipeServer \<longrightarrow> (v < lc_version s \<longleftrightarrow> stopped_later t es))) \<and>
       (lc_task s t = Finished \<and> t \<noteq> PipeServer \<longrightarrow> stopped_later t es \<or> t = ClockSync \<and> ClockStarts False \<in> set es)) \<and>
     (lc_task s PipeServer = Finished \<longrightarrow> PipeFails \<in> set es \<or> JoinStarts False \<in> set es)"

lemma not_stopped_later: "\<not> list_ex (starts t) es \<Longrightarrow> \<not> stopped_later t es"
  by (auto simp: stopped_later_def list_ex_iff)

lemma history_step:
  assumes "history_ok es s" "life_next e s = Some s'"
  shows "history_ok (es @ [e]) s'"
proof (cases e)
  case (ClockStarts enabled)
  with assms show ?thesis
    using not_stopped_later [of ClockSync es] by (auto simp: history_ok_def stopped_later_snoc split: if_splits)
next
  case (JoinStarts pipe)
  with assms show ?thesis
    using not_stopped_later [of _ es] by (auto simp: history_ok_def stopped_later_snoc joined_iff split: if_splits)
next
  case (LoopStops t)
  with assms show ?thesis
    using not_stopped_later [of t es] by (auto simp: history_ok_def stopped_later_snoc split: task_state.splits if_splits)
next
  case PipeFails
  with assms have "lc_task s PipeServer \<noteq> NotStarted" by (auto split: if_splits)
  with PipeFails assms show ?thesis by (auto simp: history_ok_def stopped_later_snoc split: if_splits)
next
  case StopSent
  have started: "list_ex (starts t) es" if "lc_task s t = Live v" for t v
    using assms(1) that unfolding history_ok_def by (metis task_state.distinct(1))
  show ?thesis
  proof (cases "has_receivers s")
    case True
    with assms StopSent show ?thesis
      by (auto dest: started simp: history_ok_def stopped_later_snoc watch_send_def le_SucI less_Suc_eq_le)
  next
    case False
    then have "lc_task s t \<noteq> Live v" if "t \<noteq> PipeServer" for t v using that by (metis has_receivers_iff is_live.simps(1))
    with assms StopSent False show ?thesis
      by (auto simp: history_ok_def stopped_later_snoc watch_send_def)
  qed
qed

lemma history: "life_run lifecycle_init es = Some s \<Longrightarrow> history_ok es s"
proof (induction es arbitrary: s rule: rev_induct)
  case Nil
  then show ?case by (auto simp: history_ok_def lifecycle_init_def)
next
  case (snoc e es)
  then obtain s0 where "life_run lifecycle_init es = Some s0" "life_next e s0 = Some s"
    by (auto simp: life_run_append split: option.splits)
  with snoc.IH history_step show ?case by blast
qed

section \<open>Properties\<close>

text \<open>
  The stop signal. In every history, a running loop can leave exactly when a stop was sent after the loop had started; a loop that has left did so for
  that reason (the clock loop may also never have begun, with NTP disabled). A stop sent before a loop has started is lost on
  it, because the loop subscribes to the channel as it then is.
\<close>

theorem stop_reaches_running_loops:
  assumes "life_run lifecycle_init es = Some s" "t \<noteq> PipeServer"
  shows "(is_live (lc_task s t) \<longrightarrow> (life_next (LoopStops t) s \<noteq> None \<longleftrightarrow> stopped_later t es)) \<and>
    (lc_task s t = Finished \<longrightarrow> stopped_later t es \<or> t = ClockSync \<and> ClockStarts False \<in> set es)"
proof -
  from history [OF assms(1)] have
    "\<And>v. lc_task s t = Live v \<Longrightarrow> v < lc_version s \<longleftrightarrow> stopped_later t es"
    "lc_task s t = Finished \<Longrightarrow> stopped_later t es \<or> t = ClockSync \<and> ClockStarts False \<in> set es"
    using assms(2) unfolding history_ok_def by blast+
  with assms(2) show ?thesis by (cases "lc_task s t") auto
qed

theorem stop_reaches_running_loops_witness:
  "\<exists>s. life_run lifecycle_init [ClockStarts True, StopSent, JoinStarts False] = Some s \<and>
     life_next (LoopStops ClockSync) s \<noteq> None \<and> life_next (LoopStops Delivery) s = None"
proof -
  let ?es = "[ClockStarts True, StopSent, JoinStarts False]"
  obtain s where s: "life_run lifecycle_init ?es = Some s" and
    live: "is_live (lc_task s ClockSync)" "is_live (lc_task s Delivery)"
    by (simp add: lifecycle_init_def watch_send_def has_receivers_def joined_def)
  have es: "stopped_later t ?es \<longleftrightarrow> t = ClockSync" for t
    using stopped_later_snoc [of t "[ClockStarts True, StopSent]" "JoinStarts False"]
      stopped_later_snoc [of t "[ClockStarts True]" StopSent] stopped_later_snoc [of t "[]" "ClockStarts True"]
    by (simp add: not_stopped_later)
  from stop_reaches_running_loops [OF s, of ClockSync] stop_reaches_running_loops [OF s, of Delivery] live s
  show ?thesis by (auto simp: es)
qed

lemma pipe_keeps_networking:
  "life_next e s = Some s' \<Longrightarrow> is_live (lc_task s PipeServer) \<Longrightarrow> e \<noteq> PipeFails \<Longrightarrow> is_live (lc_task s' PipeServer)"
  by (cases e) (auto simp: watch_send_def joined_iff split: if_splits task_state.splits)

lemma pipe_up:
  "life_run lifecycle_init es = Some s \<Longrightarrow> JoinStarts True \<in> set es \<Longrightarrow> PipeFails \<notin> set es \<Longrightarrow>
   is_live (lc_task s PipeServer)"
proof (induction es arbitrary: s rule: rev_induct)
  case (snoc e es)
  then obtain s0 where s0: "life_run lifecycle_init es = Some s0" "life_next e s0 = Some s"
    by (auto simp: life_run_append split: option.splits)
  show ?case
  proof (cases "e = JoinStarts True")
    case True
    with s0 show ?thesis by (auto split: if_splits)
  next
    case False
    with snoc s0 pipe_keeps_networking [OF s0(2)] show ?thesis by auto
  qed
qed simp

lemma pipe_never_finished:
  "is_live (lc_task s PipeServer) \<Longrightarrow> PipeFails \<notin> snd ` set after \<Longrightarrow> finished_at s after = None"
proof (induction s after rule: finished_at.induct)
  case (2 s t e es)
  have alive: "is_live (lc_task s' PipeServer)" if "life_next e s = Some s'" for s'
    using pipe_keeps_networking [OF that] 2 by auto
  moreover have "\<not> networking_done s'" if "is_live (lc_task s' PipeServer)" for s'
    using that by (auto simp: networking_done_def joined_iff)
  ultimately show ?case using 2 by (auto split: option.split)
qed simp

lemma finished_at_times: "finished_at s after = Some t \<Longrightarrow> t \<in> fst ` set after"
  by (induction s after rule: finished_at.induct) (auto split: option.splits if_splits)

text \<open>Loops that may leave all do, one after the other.\<close>

lemma loops_finish:
  assumes "\<forall>t. t \<noteq> ClockSync \<longrightarrow> lc_task s t = Finished \<or> t \<in> set ts \<and> (\<exists>v. lc_task s t = Live v \<and> v < lc_version s)"
    "PipeServer \<notin> set ts" "\<not> networking_done s"
  shows "finished_at s (map (\<lambda>t. (b, LoopStops t)) ts) = Some b"
  using assms
proof (induction ts arbitrary: s)
  case Nil
  then show ?case by (auto simp: networking_done_def joined_iff)
next
  case (Cons t ts)
  show ?case
  proof (cases "life_next (LoopStops t) s")
    case None
    then have "\<not> (\<exists>v. lc_task s t = Live v \<and> v < lc_version s)"
      using Cons.prems(2) by (auto split: task_state.splits if_splits)
    then have "finished_at s (map (\<lambda>t. (b, LoopStops t)) ts) = Some b" using Cons by (metis list.set_intros(2) set_ConsD)
    with None show ?thesis by simp
  next
    case (Some s')
    then have s': "s' = s\<lparr>lc_task := (lc_task s)(t := Finished)\<rparr>" by (auto split: task_state.splits if_splits)
    show ?thesis
    proof (cases "networking_done s'")
      case False
      have "finished_at s' (map (\<lambda>t. (b, LoopStops t)) ts) = Some b"
        by (rule Cons.IH) (use Cons.prems False in \<open>auto simp: s'\<close>)
      with Some False show ?thesis by simp
    qed (use Some in simp)
  qed
qed

lemma pipe_up_stop_duration:
  assumes "life_run lifecycle_init es = Some s" "JoinStarts True \<in> set es" "PipeFails \<notin> set es \<union> snd ` set after"
  shows "stop_duration s after blocking = seconds 5 + min blocking (seconds 2)"
    "snd (run_blocking_end (finished_at s after) blocking)"
proof -
  have alive: "is_live (lc_task s PipeServer)" using pipe_up [OF assms(1,2)] assms(3) by simp
  then have "\<not> networking_done s" by (auto simp: networking_done_def joined_iff)
  with pipe_never_finished [OF alive] assms(3)
  show "stop_duration s after blocking = seconds 5 + min blocking (seconds 2)"
    "snd (run_blocking_end (finished_at s after) blocking)"
    by (auto simp: stop_duration_def run_blocking_end_def SHUTDOWN_FLUSH_TIMEOUT_def)
qed

text \<open>
  Property C26. Stopping takes at most seven seconds, whatever the tasks do. If the pipe server is gone (as on every system but Windows) and a stop was sent after the loops
  had started, it takes no longer than the loops need to notice it and the operating system needs to return. But while the pipe server is up, the
  networking task never ends: every stop then takes the full five seconds of the timeout, and logs that the
  networking task did not finish.
\<close>

theorem stop_duration_bounds:
  assumes "life_run lifecycle_init es = Some s" "0 \<le> blocking" "\<forall>t \<in> fst ` set after. 0 \<le> t"
  shows "0 \<le> stop_duration s after blocking \<and> stop_duration s after blocking \<le> seconds 7 \<and>
    (lc_task s PipeServer = Finished \<and> stopped_later Delivery es \<and> 0 \<le> b \<and> b < seconds 5 \<longrightarrow>
      stop_duration s (map (\<lambda>t. (b, LoopStops t)) [Heartbeat, SchedulePoll, MessagePoll, Delivery, Enforcement]) blocking
        \<le> b + min blocking (seconds 2)) \<and>
    (JoinStarts True \<in> set es \<and> PipeFails \<notin> set es \<union> snd ` set after \<longrightarrow>
      stop_duration s after blocking = seconds 5 + min blocking (seconds 2) \<and>
      snd (run_blocking_end (finished_at s after) blocking))"
proof (intro conjI impI)
  have nonneg: "finished_at s after = Some d \<Longrightarrow> 0 \<le> d" for d using finished_at_times assms(3) by blast
  then show "0 \<le> stop_duration s after blocking" "stop_duration s after blocking \<le> seconds 7"
    using assms(2) by (auto simp: stop_duration_def run_blocking_end_def SHUTDOWN_FLUSH_TIMEOUT_def seconds_def split: option.split)
next
  assume up: "JoinStarts True \<in> set es \<and> PipeFails \<notin> set es \<union> snd ` set after"
  then show "stop_duration s after blocking = seconds 5 + min blocking (seconds 2)"
    "snd (run_blocking_end (finished_at s after) blocking)"
    using pipe_up_stop_duration [OF assms(1)] by simp_all
next
  assume down: "lc_task s PipeServer = Finished \<and> stopped_later Delivery es \<and> 0 \<le> b \<and> b < seconds 5"
  let ?loops = "[Heartbeat, SchedulePoll, MessagePoll, Delivery, Enforcement]"
  have later: "stopped_later t es" if "t \<noteq> ClockSync" for t
  proof -
    have "starts t = starts Delivery" using that by (intro ext) (rename_tac e, case_tac e, simp_all)
    with down show ?thesis by (simp add: stopped_later_def)
  qed
  have ready: "lc_task s t = Finished \<or> t \<in> set ?loops \<and> (\<exists>v. lc_task s t = Live v \<and> v < lc_version s)" if "t \<noteq> ClockSync" for t
  proof (cases "t = PipeServer")
    case False
    with that have "t \<in> set ?loops" by (cases t) simp_all
    moreover have "lc_task s t \<noteq> NotStarted"
      using history [OF assms(1)] later [OF that] not_stopped_later unfolding history_ok_def by blast
    ultimately show ?thesis
      using history [OF assms(1)] later [OF that] False unfolding history_ok_def by (cases "lc_task s t") auto
  qed (use down in simp)
  show "stop_duration s (map (\<lambda>t. (b, LoopStops t)) ?loops) blocking \<le> b + min blocking (seconds 2)"
  proof (cases "networking_done s")
    case False
    have "finished_at s (map (\<lambda>t. (b, LoopStops t)) ?loops) = Some b"
      by (rule loops_finish) (use ready False in auto)
    then show ?thesis using down False by (simp only: stop_duration_def run_blocking_end_def SHUTDOWN_FLUSH_TIMEOUT_def) simp
  qed (use down assms(2) in \<open>simp add: stop_duration_def run_blocking_end_def SHUTDOWN_FLUSH_TIMEOUT_def seconds_def\<close>)
qed

theorem stop_duration_bounds_witness:
  "\<exists>s. life_run lifecycle_init [ClockStarts True, JoinStarts True, StopSent] = Some s \<and>
     stop_duration s [(seconds 1, LoopStops Delivery), (seconds 2, LoopStops Heartbeat)] 0 = seconds 5"
proof -
  let ?es = "[ClockStarts True, JoinStarts True, StopSent]"
  obtain s where s: "life_run lifecycle_init ?es = Some s" by (simp add: lifecycle_init_def joined_def)
  moreover have "\<forall>t \<in> fst ` set [(seconds 1, LoopStops Delivery), (seconds 2, LoopStops Heartbeat)]. 0 \<le> t"
    by (simp add: seconds_def)
  ultimately show ?thesis using stop_duration_bounds [OF s, of 0 "[(seconds 1, LoopStops Delivery), (seconds 2, LoopStops Heartbeat)]"]
    by (auto simp: seconds_def)
qed

end
