(* ===== verification/Service.thy ===== *)
theory Service
  imports Cli Lifecycle "HOL-Library.Sublist"
begin

text \<open>
  \<^verbatim>\<open>agent/src/service_win.rs\<close>: the agent as a Windows service. The service control manager is a parameter, a record of the
  calls the code makes, over a state of its own; \<open>scm_laws\<close> states what Microsoft documents of it and the installer relies on. The control handler
  and the stop flags are in \<open>Cli\<close>.
\<close>

section \<open>Running as a service\<close>

definition SERVICE_NAME :: string where "SERVICE_NAME = ''TimeLordAgent''"
definition SERVICE_DISPLAY_NAME :: string where "SERVICE_DISPLAY_NAME = ''TimeLord Agent''"
definition SERVICE_DESCRIPTION :: string where "SERVICE_DESCRIPTION = ''Tracks and reports TimeLord device usage.''"

datatype service_state =
    SvcStopped | SvcStartPending | SvcStopPending | SvcRunning | SvcContinuePending | SvcPausePending | SvcPaused

record service_status =
  ss_current_state :: service_state
  ss_accepts_stop :: bool
  ss_accepts_shutdown :: bool
  ss_exit_code :: u32
  ss_checkpoint :: u32
  ss_wait_hint :: nanos

definition set_status :: "service_state \<Rightarrow> bool \<Rightarrow> service_status" where
  "set_status st accepts =
     \<lparr> ss_current_state = st, ss_accepts_stop = accepts, ss_accepts_shutdown = accepts, ss_exit_code = 0,
       ss_checkpoint = 0, ss_wait_hint = 0 \<rparr>"

text \<open>
  What happens while the service runs: whether the handler can be registered, whether the manager takes the n-th report, the data directory, and how the
  run of the agent ends. The result is the reports that were taken and how \<^verbatim>\<open>run_service\<close> returns.
\<close>

record service_run =
  sv_register :: "string option"
  sv_report :: "nat \<Rightarrow> string option"
  sv_data_dir :: "string + path"
  sv_run_blocking :: "path \<Rightarrow> string + unit"

definition run_as_service :: "service_run \<Rightarrow> service_status list \<times> (string + unit)" where
  "run_as_service v =
     (case sv_register v of
        Some e \<Rightarrow> ([], Inl e)
      | None \<Rightarrow>
     (case sv_report v 0 of
        Some e \<Rightarrow> ([], Inl e)
      | None \<Rightarrow>
     (case sv_report v 1 of
        Some e \<Rightarrow> ([set_status SvcStartPending False], Inl e)
      | None \<Rightarrow>
     (let up = [set_status SvcStartPending False, set_status SvcRunning True] in
      case sv_data_dir v of
        Inl e \<Rightarrow> (up, Inl e)
      | Inr dir \<Rightarrow>
          (let result = sv_run_blocking v dir in
           case sv_report v 2 of
             Some e \<Rightarrow> (up, Inl e)
           | None \<Rightarrow> (up @ [set_status SvcStopped False], result))))))"

section \<open>Installing and removing\<close>

datatype scm_error = Winapi int | ScmOther string

datatype account = LocalSystem | Account string string

record service_info =
  si_name :: string
  si_display_name :: string
  si_auto_start :: bool
  si_executable_path :: path
  si_launch_arguments :: "string list"
  si_account :: account

record 's scm =
  scm_connect :: "'s \<Rightarrow> scm_error option"
  scm_open_service :: "string \<Rightarrow> 's \<Rightarrow> scm_error option"
  scm_query_status :: "'s \<Rightarrow> scm_error + service_state"
  scm_stop :: "'s \<Rightarrow> 's \<times> scm_error option"
  scm_sleep :: "nanos \<Rightarrow> 's \<Rightarrow> 's"
  scm_delete :: "'s \<Rightarrow> 's \<times> scm_error option"
  scm_current_exe :: "scm_error + path"
  scm_create_service :: "service_info \<Rightarrow> 's \<Rightarrow> 's \<times> scm_error option"
  scm_set_description :: "string \<Rightarrow> 's \<Rightarrow> 's \<times> scm_error option"
  scm_start :: "'s \<Rightarrow> 's \<times> scm_error option"

definition ERROR_SERVICE_DOES_NOT_EXIST :: int where "ERROR_SERVICE_DOES_NOT_EXIST = 1060"

definition is_installed :: "'s scm \<Rightarrow> 's \<Rightarrow> scm_error + bool" where
  "is_installed M s =
     (case scm_connect M s of
        Some e \<Rightarrow> Inl e
      | None \<Rightarrow>
          (case scm_open_service M SERVICE_NAME s of
             None \<Rightarrow> Inr True
           | Some e \<Rightarrow> if e = Winapi ERROR_SERVICE_DOES_NOT_EXIST then Inr False else Inl e))"

text \<open>\<^verbatim>\<open>{:?}\<close>\<close>

fun state_debug :: "service_state \<Rightarrow> string" where
  "state_debug SvcStopped = ''Stopped''"
| "state_debug SvcStartPending = ''StartPending''"
| "state_debug SvcStopPending = ''StopPending''"
| "state_debug SvcRunning = ''Running''"
| "state_debug SvcContinuePending = ''ContinuePending''"
| "state_debug SvcPausePending = ''PausePending''"
| "state_debug SvcPaused = ''Paused''"

definition query_status :: "'s scm \<Rightarrow> 's \<Rightarrow> scm_error + string" where
  "query_status M s =
     (case scm_connect M s of
        Some e \<Rightarrow> Inl e
      | None \<Rightarrow>
          (case scm_open_service M SERVICE_NAME s of
             Some e \<Rightarrow> if e = Winapi ERROR_SERVICE_DOES_NOT_EXIST then Inr ''not installed'' else Inl e
           | None \<Rightarrow> (case scm_query_status M s of Inl e \<Rightarrow> Inl e | Inr st \<Rightarrow> Inr (state_debug st))))"

definition uninstall :: "'s scm \<Rightarrow> 's \<Rightarrow> 's \<times> (scm_error + unit)" where
  "uninstall M s =
     (case scm_connect M s of Some e \<Rightarrow> (s, Inl e) | None \<Rightarrow>
     (case scm_open_service M SERVICE_NAME s of Some e \<Rightarrow> (s, Inl e) | None \<Rightarrow>
     (case scm_query_status M s of
        Inl e \<Rightarrow> (s, Inl e)
      | Inr st \<Rightarrow>
          (case (if st = SvcStopped then (s, None) else scm_stop M s) of
             (s1, Some e) \<Rightarrow> (s1, Inl e)
           | (s1, None) \<Rightarrow>
               (let s2 = (if st = SvcStopped then s1 else scm_sleep M (millis 500) s1) in
                case scm_delete M s2 of (s3, Some e) \<Rightarrow> (s3, Inl e) | (s3, None) \<Rightarrow> (s3, Inr ()))))))"

definition service_info_for :: "path \<Rightarrow> service_info" where
  "service_info_for exe =
     \<lparr> si_name = SERVICE_NAME, si_display_name = SERVICE_DISPLAY_NAME, si_auto_start = True,
       si_executable_path = exe, si_launch_arguments = [], si_account = LocalSystem \<rparr>"

definition create_and_start :: "'s scm \<Rightarrow> 's \<Rightarrow> 's \<times> (scm_error + unit)" where
  "create_and_start M s =
     (case scm_connect M s of Some e \<Rightarrow> (s, Inl e) | None \<Rightarrow>
     (case scm_current_exe M of
        Inl e \<Rightarrow> (s, Inl e)
      | Inr exe \<Rightarrow>
     (case scm_create_service M (service_info_for exe) s of
        (s1, Some e) \<Rightarrow> (s1, Inl e)
      | (s1, None) \<Rightarrow>
     (case scm_set_description M SERVICE_DESCRIPTION s1 of
        (s2, Some e) \<Rightarrow> (s2, Inl e)
      | (s2, None) \<Rightarrow>
     (case scm_start M s2 of (s3, Some e) \<Rightarrow> (s3, Inl e) | (s3, None) \<Rightarrow> (s3, Inr ()))))))"

definition install :: "'s scm \<Rightarrow> 's \<Rightarrow> 's \<times> (scm_error + unit)" where
  "install M s =
     (case is_installed M s of
        Inl e \<Rightarrow> (s, Inl e)
      | Inr True \<Rightarrow> (case uninstall M s of (s1, Inl e) \<Rightarrow> (s1, Inl e) | (s1, Inr _) \<Rightarrow> create_and_start M s1)
      | Inr False \<Rightarrow> create_and_start M s)"

section \<open>What is documented of the service control manager\<close>

text \<open>
  An entry of the manager's database: the state the service reported last, after a stop control how long the service still takes to report that it
  has stopped (it reports nothing in between), and whether the entry is marked for deletion. A service that is deleted while it runs is only marked, and goes when it has stopped; until then its name cannot be used for
  a new one (error 1072).
\<close>

record scm_entry =
  se_state :: service_state
  se_left :: "nanos option"
  se_marked :: bool

definition after_sleep :: "nanos \<Rightarrow> scm_entry \<Rightarrow> scm_entry option" where
  "after_sleep d x =
     (case se_left x of
        None \<Rightarrow> Some x
      | Some t \<Rightarrow>
          if d < t then Some (x\<lparr>se_left := Some (t - d)\<rparr>)
          else if se_marked x then None else Some (x\<lparr>se_state := SvcStopped, se_left := None\<rparr>))"

definition scm_laws :: "'s scm \<Rightarrow> ('s \<Rightarrow> scm_entry option) \<Rightarrow> nanos \<Rightarrow> bool" where
  "scm_laws M entry stop_time \<longleftrightarrow>
     (\<forall>s. scm_connect M s = None) \<and> (\<exists>exe. scm_current_exe M = Inr exe) \<and>
     (\<forall>s. scm_open_service M SERVICE_NAME s = (case entry s of None \<Rightarrow> Some (Winapi ERROR_SERVICE_DOES_NOT_EXIST) | Some _ \<Rightarrow> None)) \<and>
     (\<forall>s x. entry s = Some x \<longrightarrow> scm_query_status M s = Inr (se_state x)) \<and>
     (\<forall>s x. entry s = Some x \<and> se_state x = SvcRunning \<and> se_left x = None \<longrightarrow> snd (scm_stop M s) = None \<and>
        entry (fst (scm_stop M s)) = Some (x\<lparr>se_left := Some stop_time\<rparr>)) \<and>
     (\<forall>s x d. entry s = Some x \<longrightarrow> entry (scm_sleep M d s) = after_sleep d x) \<and>
     (\<forall>s x. entry s = Some x \<longrightarrow> snd (scm_delete M s) = None \<and>
        entry (fst (scm_delete M s)) = (if se_state x = SvcStopped then None else Some (x\<lparr>se_marked := True\<rparr>))) \<and>
     (\<forall>s info. entry s = None \<longrightarrow> snd (scm_create_service M info s) = None \<and>
        entry (fst (scm_create_service M info s)) = Some \<lparr> se_state = SvcStopped, se_left = None, se_marked = False \<rparr>) \<and>
     (\<forall>s x info. entry s = Some x \<and> se_marked x \<longrightarrow> scm_create_service M info s = (s, Some (Winapi 1072))) \<and>
     (\<forall>s d. snd (scm_set_description M d s) = None \<and> entry (fst (scm_set_description M d s)) = entry s) \<and>
     (\<forall>s x. entry s = Some x \<and> se_state x = SvcStopped \<longrightarrow> snd (scm_start M s) = None \<and>
        (\<exists>st \<in> {SvcStartPending, SvcRunning}. entry (fst (scm_start M s)) = Some (x\<lparr>se_state := st\<rparr>)))"

abbreviation "service_up x \<equiv> se_state x \<in> {SvcStartPending, SvcRunning} \<and> se_left x = None \<and> \<not> se_marked x"

lemma scm_lawsD:
  assumes "scm_laws M entry stop_time"
  shows "scm_connect M s = None" "\<exists>exe. scm_current_exe M = Inr exe"
    "entry s = None \<Longrightarrow> scm_open_service M SERVICE_NAME s = Some (Winapi ERROR_SERVICE_DOES_NOT_EXIST)"
    "entry s = Some x \<Longrightarrow> scm_open_service M SERVICE_NAME s = None"
    "entry s = Some x \<Longrightarrow> scm_query_status M s = Inr (se_state x)"
    "entry s = Some x \<Longrightarrow> se_state x = SvcRunning \<Longrightarrow> se_left x = None \<Longrightarrow> snd (scm_stop M s) = None"
    "entry s = Some x \<Longrightarrow> se_state x = SvcRunning \<Longrightarrow> se_left x = None \<Longrightarrow>
       entry (fst (scm_stop M s)) = Some (x\<lparr>se_left := Some stop_time\<rparr>)"
    "entry s = Some x \<Longrightarrow> entry (scm_sleep M d s) = after_sleep d x"
    "entry s = Some x \<Longrightarrow> snd (scm_delete M s) = None"
    "entry s = Some x \<Longrightarrow> entry (fst (scm_delete M s)) = (if se_state x = SvcStopped then None else Some (x\<lparr>se_marked := True\<rparr>))"
    "entry s = None \<Longrightarrow> snd (scm_create_service M info s) = None"
    "entry s = None \<Longrightarrow> entry (fst (scm_create_service M info s)) = Some \<lparr> se_state = SvcStopped, se_left = None, se_marked = False \<rparr>"
    "entry s = Some x \<Longrightarrow> se_marked x \<Longrightarrow> scm_create_service M info s = (s, Some (Winapi 1072))"
    "snd (scm_set_description M t s) = None" "entry (fst (scm_set_description M t s)) = entry s"
    "entry s = Some x \<Longrightarrow> se_state x = SvcStopped \<Longrightarrow> snd (scm_start M s) = None"
    "entry s = Some x \<Longrightarrow> se_state x = SvcStopped \<Longrightarrow>
       \<exists>st \<in> {SvcStartPending, SvcRunning}. entry (fst (scm_start M s)) = Some (x\<lparr>se_state := st\<rparr>)"
  using assms unfolding scm_laws_def by (simp_all only: option.case)

lemma create_absent:
  assumes "scm_laws M entry stop_time" "entry s = None"
  shows "\<exists>s' x. create_and_start M s = (s', Inr ()) \<and> entry s' = Some x \<and> service_up x"
proof -
  note law = scm_lawsD [OF assms(1)]
  obtain exe where exe: "scm_current_exe M = Inr exe" using law(2) by blast
  obtain s1 where c: "scm_create_service M (service_info_for exe) s = (s1, None)"
    using law(11) [OF assms(2)] by (metis prod.collapse)
  with law(12) [OF assms(2)] have 1: "entry s1 = Some \<lparr> se_state = SvcStopped, se_left = None, se_marked = False \<rparr>" by (metis fst_conv)
  obtain s2 where d: "scm_set_description M SERVICE_DESCRIPTION s1 = (s2, None)" using law(14) by (metis prod.collapse)
  with law(15) 1 have 2: "entry s2 = Some \<lparr> se_state = SvcStopped, se_left = None, se_marked = False \<rparr>" by (metis fst_conv)
  obtain s3 where st: "scm_start M s2 = (s3, None)" using law(16) [OF 2] by (simp add: prod_eq_iff)
  from law(17) [OF 2] st obtain x where "entry s3 = Some x" "service_up x" by auto
  moreover have "create_and_start M s = (s3, Inr ())" by (simp add: create_and_start_def law(1) exe c d st)
  ultimately show ?thesis by blast
qed

text \<open>What \<open>uninstall\<close> leaves: \<open>z\<close> is the entry when \<open>delete\<close> is called.\<close>

lemma uninstall_entry:
  assumes "scm_laws M entry stop_time" "entry s = Some x" "se_state x \<in> {SvcStopped, SvcRunning}" "se_left x = None"
    "(if se_state x = SvcStopped then Some x
      else after_sleep (millis 500) (x\<lparr>se_left := Some stop_time\<rparr>)) = Some z"
  shows "\<exists>s'. uninstall M s = (s', Inr ()) \<and> entry s' = (if se_state z = SvcStopped then None else Some (z\<lparr>se_marked := True\<rparr>))"
proof -
  note law = scm_lawsD [OF assms(1)]
  define s1 where "s1 = (if se_state x = SvcStopped then s else fst (scm_stop M s))"
  define s2 where "s2 = (if se_state x = SvcStopped then s1 else scm_sleep M (millis 500) s1)"
  have stop: "(if se_state x = SvcStopped then (s, None) else scm_stop M s) = (s1, None)"
    using assms(3,4) law(6) [OF assms(2)] by (auto simp: s1_def prod_eq_iff)
  have s2: "entry s2 = Some z"
    using assms(2-5) law(8) [OF law(7) [OF assms(2)]] by (auto simp: s1_def s2_def)
  have "uninstall M s = (fst (scm_delete M s2), Inr ())"
    using law(9) [OF s2]
    by (cases "scm_delete M s2") (simp add: uninstall_def law(1) law(4,5) [OF assms(2)] stop s2_def [symmetric] Let_def)
  with law(10) [OF s2] show ?thesis by auto
qed

text \<open>Installing over what is there.\<close>

lemma install_entry:
  assumes "scm_laws M entry stop_time" "install M s = (s', res)"
    "entry s = None \<or> (\<exists>x. entry s = Some x \<and> se_state x \<in> {SvcStopped, SvcRunning} \<and> se_left x = None \<and> \<not> se_marked x)"
  shows "if (\<exists>x. entry s = Some x \<and> se_state x = SvcRunning) \<and> millis 500 < stop_time
    then res = Inl (Winapi 1072) \<and> entry (scm_sleep M stop_time s') = None
    else res = Inr () \<and> (\<exists>x. entry s' = Some x \<and> service_up x)"
proof -
  note law = scm_lawsD [OF assms(1)]
  have installed: "is_installed M s = Inr (entry s \<noteq> None)"
    using law(3,4) [of s] by (cases "entry s") (simp_all add: is_installed_def law(1))
  have fresh: "res = Inr () \<and> (\<exists>x. entry s' = Some x \<and> service_up x)"
    if "create_and_start M s0 = (s', res)" "entry s0 = None" for s0
    using create_absent [OF assms(1) that(2)] that(1) by auto
  show ?thesis
  proof (cases "entry s")
    case None
    then have "create_and_start M s = (s', res)" using assms(2) installed by (simp add: install_def)
    from fresh [OF this None] None show ?thesis by simp
  next
    case (Some x)
    with assms(3) have x: "se_state x \<in> {SvcStopped, SvcRunning}" "se_left x = None" "\<not> se_marked x" by auto
    have ins: "install M s = create_and_start M s1" if "uninstall M s = (s1, Inr ())" for s1
      using that installed Some by (simp add: install_def)
    show ?thesis
    proof (cases "se_state x = SvcRunning \<and> millis 500 < stop_time")
      case True
      let ?z = "x\<lparr>se_left := Some (stop_time - millis 500)\<rparr>"
      have "(if se_state x = SvcStopped then Some x
          else after_sleep (millis 500) (x\<lparr>se_left := Some stop_time\<rparr>)) = Some ?z"
        using True by (simp add: after_sleep_def)
      from uninstall_entry [OF assms(1) Some x(1,2) this] obtain s1
        where s1: "uninstall M s = (s1, Inr ())" "entry s1 = Some (?z\<lparr>se_marked := True\<rparr>)" using True by auto
      obtain exe where "scm_current_exe M = Inr exe" using law(2) by blast
      with assms(2) ins [OF s1(1)] law(13) [OF s1(2)] have "s' = s1" "res = Inl (Winapi 1072)"
        by (simp_all add: create_and_start_def law(1))
      moreover have "after_sleep stop_time (?z\<lparr>se_marked := True\<rparr>) = None"
        by (simp add: after_sleep_def millis_def)
      ultimately show ?thesis using True Some law(8) [OF s1(2), of stop_time] by simp
    next
      case False
      let ?z = "if se_state x = SvcStopped then x else x\<lparr>se_state := SvcStopped, se_left := None\<rparr>"
      have "(if se_state x = SvcStopped then Some x
          else after_sleep (millis 500) (x\<lparr>se_left := Some stop_time\<rparr>)) = Some ?z"
        using False x by (auto simp: after_sleep_def)
      from uninstall_entry [OF assms(1) Some x(1,2) this] obtain s1
        where s1: "uninstall M s = (s1, Inr ())" "entry s1 = None" by auto
      from fresh [OF _ s1(2)] assms(2) ins [OF s1(1)] have "res = Inr () \<and> (\<exists>x. entry s' = Some x \<and> service_up x)" by simp
      with False Some show ?thesis by auto
    qed
  qed
qed

section \<open>Properties\<close>

text \<open>
  Property C27. Installing. If the service is not there, or is there and stopped, \<open>install\<close> ends with a new service that is started and not marked for deletion. If the
  service is running, that is so exactly when it stops within half a second; otherwise \<open>install\<close> fails with error 1072, and once the old service
  has stopped no service is left at all. And an agent whose pipe server is up takes at least five seconds to stop: the upgrade path fails on it.
\<close>

theorem install_outcome:
  assumes "scm_laws M entry stop_time" "install M s = (s', res)"
    "entry s = None \<or> (\<exists>x. entry s = Some x \<and> se_state x \<in> {SvcStopped, SvcRunning} \<and> se_left x = None \<and> \<not> se_marked x)"
  shows "(if (\<exists>x. entry s = Some x \<and> se_state x = SvcRunning) \<and> millis 500 < stop_time
     then res = Inl (Winapi 1072) \<and> entry (scm_sleep M stop_time s') = None
     else res = Inr () \<and> (\<exists>x. entry s' = Some x \<and> service_up x)) \<and>
    (\<forall>x es l after blocking. entry s = Some x \<and> se_state x = SvcRunning \<and> life_run lifecycle_init es = Some l \<and>
       JoinStarts True \<in> set es \<and> PipeFails \<notin> set es \<union> snd ` set after \<and> 0 \<le> blocking \<and>
       stop_duration l after blocking \<le> stop_time \<longrightarrow>
       res = Inl (Winapi 1072) \<and> entry (scm_sleep M stop_time s') = None)"
proof -
  note out = install_entry [OF assms]
  have slow: "millis 500 < stop_time"
    if "life_run lifecycle_init es = Some l" "JoinStarts True \<in> set es" "PipeFails \<notin> set es \<union> snd ` set after"
      "0 \<le> blocking" "stop_duration l after blocking \<le> stop_time" for es l after blocking
    using pipe_up_stop_duration(1) [OF that(1-3)] that(4,5) by (simp add: seconds_def millis_def)
  show ?thesis
  proof (intro conjI allI impI, rule out)
    fix x es l after blocking
    assume a: "entry s = Some x \<and> se_state x = SvcRunning \<and> life_run lifecycle_init es = Some l \<and>
       JoinStarts True \<in> set es \<and> PipeFails \<notin> set es \<union> snd ` set after \<and> 0 \<le> blocking \<and>
       stop_duration l after blocking \<le> stop_time"
    then have "millis 500 < stop_time" using slow by blast
    with out a show "res = Inl (Winapi 1072)" "entry (scm_sleep M stop_time s') = None" by simp_all
  qed
qed

text \<open>A service control manager that does what is documented.\<close>

definition sample_scm :: "nanos \<Rightarrow> scm_entry option scm" where
  "sample_scm stop_time =
     \<lparr> scm_connect = (\<lambda>_. None),
       scm_open_service = (\<lambda>_ s. case s of None \<Rightarrow> Some (Winapi ERROR_SERVICE_DOES_NOT_EXIST) | Some _ \<Rightarrow> None),
       scm_query_status = (\<lambda>s. case s of None \<Rightarrow> Inl (Winapi 1060) | Some x \<Rightarrow> Inr (se_state x)),
       scm_stop = (\<lambda>s. (map_option (\<lambda>x. x\<lparr>se_left := Some stop_time\<rparr>) s, None)),
       scm_sleep = (\<lambda>d s. Option.bind s (after_sleep d)),
       scm_delete = (\<lambda>s. (Option.bind s (\<lambda>x. if se_state x = SvcStopped then None else Some (x\<lparr>se_marked := True\<rparr>)), None)),
       scm_current_exe = Inr [''timelord-agent.exe''],
       scm_create_service = (\<lambda>_ s. case s of
          None \<Rightarrow> (Some \<lparr> se_state = SvcStopped, se_left = None, se_marked = False \<rparr>, None)
        | Some x \<Rightarrow> (s, Some (Winapi (if se_marked x then 1072 else 1073)))),
       scm_set_description = (\<lambda>_ s. (s, None)),
       scm_start = (\<lambda>s. (map_option (\<lambda>x. x\<lparr>se_state := SvcRunning\<rparr>) s, None)) \<rparr>"

lemma sample_scm_laws: "scm_laws (sample_scm stop_time) (\<lambda>s. s) stop_time"
  by (simp add: scm_laws_def sample_scm_def)

theorem install_outcome_witness:
  "snd (install (sample_scm (seconds 5)) (Some \<lparr> se_state = SvcRunning, se_left = None, se_marked = False \<rparr>)) = Inl (Winapi 1072) \<and>
   (\<exists>x. fst (install (sample_scm (seconds 5)) None) = Some x \<and> service_up x)"
proof -
  let ?M = "sample_scm (seconds 5)" and ?x = "\<lparr> se_state = SvcRunning, se_left = None, se_marked = False \<rparr>"
  obtain s1 r1 s2 r2 where runs: "install ?M (Some ?x) = (s1, r1)" "install ?M None = (s2, r2)" by (metis prod.exhaust)
  from install_outcome [OF sample_scm_laws runs(1)] install_outcome [OF sample_scm_laws runs(2)]
  show ?thesis by (simp add: runs) (simp add: seconds_def millis_def)
qed

text \<open>
  What the manager is told. Stop and shutdown are accepted exactly while \<^verbatim>\<open>Running\<close> is the last report. \<^verbatim>\<open>Stopped\<close> is reported after every run of the agent, always with exit code 0, whether the
  run failed or not; and it is not reported at all when the data directory cannot be found.
\<close>

theorem service_reports:
  assumes "run_as_service v = (reports, res)"
  shows "list_all (\<lambda>r. (ss_accepts_stop r \<longleftrightarrow> ss_current_state r = SvcRunning) \<and> ss_accepts_shutdown r = ss_accepts_stop r \<and>
      ss_exit_code r = 0) reports \<and>
    prefix (map ss_current_state reports) [SvcStartPending, SvcRunning, SvcStopped] \<and>
    (SvcStopped \<in> ss_current_state ` set reports \<longrightarrow> (\<exists>dir. sv_data_dir v = Inr dir \<and> res = sv_run_blocking v dir)) \<and>
    (\<forall>e. sv_data_dir v = Inl e \<longrightarrow> SvcStopped \<notin> ss_current_state ` set reports)"
  using assms
  by (auto simp: run_as_service_def set_status_def Let_def split: option.splits sum.splits)

end
