(* ===== verification/Conformance.thy ===== *)
theory Conformance
  imports Queue Clock Messages Discovery Notifier_Text
begin

text \<open>
  The repository's own unit tests, replayed on the definitions: each lemma is a test of the module named in its section, with the test's
  name, inputs and expected results. They check the translation, not the program. Tests that need a database, a network, a clock or serde's JSON have
  no counterpart here. Instants are relative to the tests' reference time.
\<close>

section \<open>\<^verbatim>\<open>schedule.rs\<close>\<close>

definition test_schedule :: schedule where
  "test_schedule = \<lparr> revision = ''r1'', action = Sleep, timezone = ''Europe/Dublin'',
     windows = [\<lparr> off_at = seconds (22 * 3600 + 30 * 60), on_at = seconds (23 * 3600 + 59 * 60) \<rparr>] \<rparr>"

lemma window_is_half_open:
  "active_window test_schedule (seconds (22 * 3600 + 29 * 60)) = None"
  "active_window test_schedule (seconds (22 * 3600 + 30 * 60)) \<noteq> None"
  "active_window test_schedule (seconds (23 * 3600 + 59 * 60)) = None"
  by code_simp+

lemma next_off_at_ignores_past_and_current:
  "next_off_at test_schedule (seconds (12 * 3600)) = Some (seconds (22 * 3600 + 30 * 60))"
  "next_off_at test_schedule (seconds (22 * 3600 + 30 * 60)) = None"
  by code_simp+

lemma enforcement_waits_for_a_sync_then_falls_back_to_the_cache:
  "\<not> enforcement_ready False (seconds 5) (seconds 90)" "\<not> enforcement_ready False (seconds 89) (seconds 90)"
  "enforcement_ready False (seconds 90) (seconds 90)" "enforcement_ready True 0 (seconds 90)"
  by code_simp+

section \<open>\<^verbatim>\<open>tracker.rs\<close>\<close>

abbreviation "tracked \<equiv> transitions apply_event tracker_new"
abbreviation "tracker_after \<equiv> final_state apply_event tracker_new"
abbreviation "ended start stop reason \<equiv> Ended \<lparr> rec_start = start, rec_end = stop, rec_end_reason = reason \<rparr>"

lemma logon_starts_a_usage_session:
  "tracked [(Logon 1, 0)] = [Started 0]" "is_active (tracker_after [(Logon 1, 0)])"
  by code_simp+

lemma lock_ends_the_usage_session:
  "tracked [(Logon 1, 0), (Lock 1, 100)] = [Started 0, ended 0 100 EndLock]" "\<not> is_active (tracker_after [(Logon 1, 0), (Lock 1, 100)])"
  by code_simp+

lemma unlock_after_lock_starts_a_new_session_not_resuming_the_old_one:
  "last (tracked [(Logon 1, 0), (Lock 1, 100), (Unlock 1, 500)]) = Started 500"
  by code_simp

lemma logoff_ends_session_with_logoff_reason:
  "last (tracked [(Logon 1, 0), (Logoff 1, 50)]) = ended 0 50 EndLogoff"
  by code_simp

lemma suspend_ends_session_and_resume_restarts_it_if_session_still_visible:
  "tracked [(Logon 1, 0), (Suspend, 60), (Resume, 3600)] = [Started 0, ended 0 60 EndSuspend, Started 3600]"
  by code_simp

lemma resume_stays_inactive_if_session_had_locked_before_suspend:
  "last (tracked [(Logon 1, 0), (Lock 1, 10), (Suspend, 20), (Resume, 3600)]) = NoChange"
  "\<not> is_active (tracker_after [(Logon 1, 0), (Lock 1, 10), (Suspend, 20), (Resume, 3600)])"
  by code_simp+

lemma second_session_keeps_device_active_when_first_locks:
  "last (tracked [(Logon 1, 0), (Logon 2, 1), (Lock 1, 10)]) = NoChange"
  "is_active (tracker_after [(Logon 1, 0), (Logon 2, 1), (Lock 1, 10)])"
  by code_simp+

lemma remote_disconnect_pauses_and_remote_connect_resumes:
  "tracked [(Logon 1, 0), (RemoteDisconnect 1, 30), (RemoteConnect 1, 90)] = [Started 0, ended 0 30 EndRemoteDisconnect, Started 90]"
  by code_simp

lemma redundant_events_do_not_double_start_or_double_end:
  "tracked [(Logon 1, 0), (Unlock 1, 1), (Lock 1, 2), (Lock 1, 3)] = [Started 0, NoChange, ended 0 2 EndLock, NoChange]"
  by code_simp

lemma agent_restart_recovers_dangling_open_session_and_can_close_it:
  "is_active (resume_open_session 0)"
  "snd (close_session 5 EndAgentRestart (resume_open_session 0)) = Some \<lparr> rec_start = 0, rec_end = 5, rec_end_reason = EndAgentRestart \<rparr>"
  "\<not> is_active (fst (close_session 5 EndAgentRestart (resume_open_session 0)))"
  by code_simp+

section \<open>\<^verbatim>\<open>clock.rs\<close>\<close>

lemma ntp_timestamps_round_trip_through_unix_milliseconds:
  "list_all (\<lambda>ms. \<bar>from_ntp (to_ntp ms) - ms\<bar> \<le> 1) [0, 1000, 1792700000123, 1792700000999]"
  by code_simp

lemma a_known_ntp_timestamp_is_the_expected_unix_time:
  "uint (from_be_bytes (take 4 (to_ntp 1792695600000))) = 1792695600 + NTP_UNIX_DELTA"
  by code_simp

lemma offset_is_zero_for_a_matching_clock_and_signed_otherwise:
  "offset_ms 1000 1010 1010 1020 = 0" "offset_ms 1000 3601010 3601010 1020 = 3600000"
  "offset_ms 3601000 1010 1010 3601020 = - 3600000" "delay_ms 1000 1010 1015 1025 = 20"
  by code_simp+

definition test_reply :: "u8 list \<Rightarrow> int \<Rightarrow> int \<Rightarrow> u8 list" where
  "test_reply request t2 t3 = [0x24, 2] @ replicate 22 0 @ slice 40 48 request @ to_ntp t2 @ to_ntp t3"

fun refused :: "'a + 'b \<Rightarrow> bool" where
  "refused (Inl _) = True"
| "refused (Inr _) = False"

lemma a_valid_reply_is_accepted_and_bad_ones_are_refused:
  "case parse_reply (test_reply (request_packet 1792695600000) 1792695600010 1792695600011) (request_packet 1792695600000) of
     Inr (t2, t3) \<Rightarrow> \<bar>t2 - 1792695600010\<bar> \<le> 1 \<and> \<bar>t3 - 1792695600011\<bar> \<le> 1 | Inl _ \<Rightarrow> False"
  "let request = request_packet 1792695600000; good = test_reply request 1792695600010 1792695600011 in
     list_all (\<lambda>bad. refused (parse_reply bad request)) [good[0 := 0x23], good[0 := 0xE4], good[1 := 0], take 20 good] \<and>
     refused (parse_reply good (request_packet 1792695700000))"
  by code_simp+

lemma the_median_ignores_one_wrong_server:
  "median [5, 3600000, 7] = Some 7" "median [10, 20] = Some 15" "median [] = None"
  by code_simp+

lemma the_trusted_clock_applies_the_offset_and_reports_readiness:
  "\<not> is_ready (clock_new True)" "is_ready (set_offset_ms 3600000 (clock_new True))" "is_ready (clock_new False)"
  "trusted_now (set_offset_ms 3600000 (clock_new True)) 0 = seconds 3600"
  by code_simp+

section \<open>\<^verbatim>\<open>messages.rs\<close>\<close>

definition test_message :: "int \<Rightarrow> int \<Rightarrow> agent_message" where
  "test_message seq minutes = \<lparr> am_seq = seq, am_id = word_of_int seq, am_title = None, am_body = ''m'', am_created_at = 0,
     am_expires_at = seconds (60 * minutes) \<rparr>"

lemma apply_advances_cursor_and_dedupes:
  "let (s, changed) = store_apply default_message_store [test_message 3 60, test_message 5 60] 0; (s', again) = store_apply s [test_message 5 60] 0
   in changed \<and> last_seq s = 5 \<and> \<not> again \<and> length (messages s') = 2"
  by code_simp

lemma expired_messages_are_dropped_but_the_cursor_keeps_its_place:
  "let s = fst (store_apply default_message_store [test_message 7 10] 0); later = seconds (60 * 30); (s', changed) = store_apply s [] later
   in live s later = [] \<and> changed \<and> messages s' = [] \<and> last_seq s' = 7"
  by code_simp

lemma already_expired_messages_still_advance_the_cursor:
  "let s = fst (store_apply default_message_store [test_message 9 (- 5)] 0) in last_seq s = 9 \<and> messages s = []"
  by code_simp

section \<open>\<^verbatim>\<open>engine.rs\<close>\<close>

definition test_action :: "nat \<Rightarrow> int \<Rightarrow> pending_action" where
  "test_action n in_secs = \<lparr> pa_id = of_nat n, pa_action = ActSleep, pa_at_utc = seconds in_secs, pa_reason = ReasonSchedule \<rparr>"

definition test_ticks :: "(pending_action list \<times> int) list \<Rightarrow> tick list" where
  "test_ticks polls = engine_run default_engine (map (\<lambda>(actions, at). (actions, seconds at)) polls)"

abbreviation "thresholds tick \<equiv> map td_threshold (tk_toasts tick)"

lemma nothing_fires_before_the_widest_threshold:
  "map thresholds (test_ticks [([test_action 1 1200], 0)]) = [[]]"
  "map tk_next_poll (test_ticks [([test_action 1 1200], 0)]) = [Some SLOW_POLL]"
  by code_simp+

lemma each_threshold_fires_once_as_time_passes:
  "concat (map thresholds (test_ticks (map (\<lambda>elapsed. ([test_action 1 1000], elapsed)) [0, 100, 101, 400, 700, 800, 950, 951, 970, 999])))
     = [900, 300, 60, 30]"
  by code_simp

lemma repeat_polls_in_the_same_band_do_not_retoast:
  "map thresholds (test_ticks [([test_action 1 800], 0), ([test_action 1 800], 2), ([test_action 1 800], 4)]) = [[900], [], []]"
  by code_simp

lemma starting_late_fires_only_the_tightest_crossed_threshold:
  "map thresholds (test_ticks [([test_action 1 180], 0)]) = [[300]]"
  by code_simp

lemma a_missed_poll_skips_straight_to_the_current_band:
  "map thresholds (test_ticks [([test_action 1 1000], 150), ([test_action 1 1000], 960)]) = [[900], [60]]"
  by code_simp

lemma disappearing_action_is_reported_cancelled_and_forgotten:
  "map (\<lambda>tick. (thresholds tick, tk_cancelled tick))
     (test_ticks [([test_action 1 800], 0), ([], 10), ([], 20), ([test_action 1 800], 30)]) = [([900], []), ([], [1]), ([], []), ([900], [])]"
  by code_simp

lemma extension_is_a_cancel_plus_a_new_action:
  "map (\<lambda>tick. (thresholds tick, tk_cancelled tick)) (test_ticks [([test_action 1 250], 0), ([test_action 2 280], 10)]) = [([300], []), ([300], [1])]"
  by code_simp

lemma countdown_and_fast_polling_start_inside_the_last_minute_and_a_half:
  "map (\<lambda>tick. (tk_next_poll tick, tk_countdown tick))
     (test_ticks [([test_action 1 100], 0), ([test_action 1 100], 15), ([test_action 1 100], 45)]) =
   [(Some SLOW_POLL, []), (Some FAST_POLL, []), (Some FAST_POLL, [1])]"
  by code_simp

lemma independent_actions_track_separately:
  "map (\<lambda>d. (pa_id (td_action d), td_threshold d)) (tk_toasts (hd (test_ticks [([test_action 1 250, test_action 2 800], 0)]))) = [(1, 300), (2, 900)]"
  by code_simp

lemma idle_with_nothing_pending_polls_slowly:
  "test_ticks [([], 0)] = [\<lparr> tk_toasts = [], tk_cancelled = [], tk_countdown = [], tk_next_poll = Some SLOW_POLL \<rparr>]"
  by code_simp

definition test_notice :: "nat \<Rightarrow> int \<Rightarrow> int \<Rightarrow> message" where
  "test_notice n sent expires = \<lparr> msg_id = of_nat n, msg_title = None, msg_body = ''m'', msg_sent_utc = seconds (60 * sent),
     msg_expires_utc = seconds (60 * expires) \<rparr>"

abbreviation "shown_in ids polls \<equiv> map (map msg_id) (tracker_run (with_shown ids) polls)"

lemma a_message_is_shown_once_even_if_reported_every_poll:
  "shown_in [] [([test_notice 1 0 60], 0), ([test_notice 1 0 60], seconds 10)] = [[1], []]"
  by code_simp

lemma new_messages_come_oldest_first_and_expired_ones_are_skipped:
  "shown_in [] [([test_notice 2 5 60, test_notice 1 1 60, test_notice 3 0 (- 1)], 0)] = [[1, 2]]"
  by code_simp

lemma restored_ids_are_not_shown_again:
  "shown_in [1] [([test_notice 1 0 60, test_notice 2 1 60], 0)] = [[2]]"
  "shown_ids (fst (take_new (with_shown [1]) [test_notice 1 0 60, test_notice 2 1 60] 0)) = [1, 2]"
  by code_simp+

lemma later_messages_are_still_picked_up:
  "shown_in [] [([test_notice 1 0 60], 0), ([test_notice 1 0 60, test_notice 2 3 60], seconds 240)] = [[1], [2]]"
  by code_simp

section \<open>\<^verbatim>\<open>text.rs\<close>\<close>

definition test_due :: "notice_action \<Rightarrow> int \<Rightarrow> int \<Rightarrow> toast_due" where
  "test_due act threshold remaining = \<lparr> td_action = \<lparr> pa_id = 0, pa_action = act, pa_at_utc = 0, pa_reason = ReasonSchedule \<rparr>,
     td_threshold = threshold, td_remaining = remaining \<rparr>"

lemma wording_follows_action_and_remaining_time:
  "tt_title (warning_text (test_due ActSleep 900 897) ''22:30'') = ''This computer will go to sleep in 15 minutes''"
  "tt_body (warning_text (test_due ActSleep 900 897) ''22:30'') = ''Scheduled: go to sleep at 22:30. Save your work.''"
  "tt_title (warning_text (test_due ActShutdown 60 75) ''22:30'') = ''This computer will shut down in 1 minute''"
  "tt_title (warning_text (test_due ActShutdown 30 28) ''22:30'') = ''This computer will shut down in 28 seconds''"
  by code_simp+

lemma only_the_last_two_warnings_are_urgent:
  "map (\<lambda>th. tt_urgent (warning_text (test_due ActSleep th th) ''22:30'')) [900, 300, 60, 30] = [False, False, True, True]"
  by code_simp

lemma overdue_remaining_never_reads_negative:
  "tt_title (warning_text (test_due ActSleep 30 (- 3)) ''22:30'') = ''This computer will go to sleep in 1 second''"
  by code_simp

lemma message_defaults_its_title:
  "tt_title (message_text None ''Dinner'') = ''TimeLord''" "tt_title (message_text (Some ''Mum'') ''Dinner'') = ''Mum''"
  by code_simp+

section \<open>\<^verbatim>\<open>discovery.rs\<close>\<close>

lemma slash_30_yields_two_hosts: "hosts_in_subnet 0xC0A80105 0xFFFFFFFC = [0xC0A80105, 0xC0A80106]"
  by (simp add: hosts_in_subnet_def upt_rec)

lemma slash_31_and_slash_32_have_no_usable_host_range:
  "hosts_in_subnet 0xC0A80105 0xFFFFFFFE = []" "hosts_in_subnet 0xC0A80105 0xFFFFFFFF = []"
  by (simp_all add: hosts_in_subnet_def)

definition test_response :: controller_available_message where
  "test_response = \<lparr> ca_protocol = ''timelord-discovery'', ca_protocol_version = 1, ca_message_type = ''CONTROLLER_AVAILABLE'', ca_request_id = 5,
     ca_controller_id = 9, ca_controller_name = ''Home TimeLord'', ca_controller_url = ''http://192.168.1.20:8080'', ca_priority = 100 \<rparr>"

abbreviation "validated m rid \<equiv> validate_response (\<lambda>_. m) [] rid (millis 5)"

lemma valid_response_is_accepted:
  "map_option (\<lambda>c. (dc_controller_name c, dc_priority c)) (validated (Some test_response) 5) = Some (''Home TimeLord'', 100)"
  by code_simp

lemma invalid_responses_are_rejected:
  "validated (Some test_response) 6 = None" "validated (Some (test_response\<lparr>ca_protocol := ''some-other-protocol''\<rparr>)) 5 = None"
  "validated (Some (test_response\<lparr>ca_protocol_version := 999\<rparr>)) 5 = None"
  "validated (Some (test_response\<lparr>ca_message_type := ''CONTROLLER_ANNOUNCEMENT''\<rparr>)) 5 = None"
  "validated (Some (test_response\<lparr>ca_controller_url := ''not-a-url''\<rparr>)) 5 = None" "validated None 5 = None"
  by code_simp+

section \<open>\<^verbatim>\<open>queue.rs\<close>\<close>

lemma backoff_follows_documented_schedule:
  "map backoff_delay [1, 2, 3, 4, 5, 6, 20] = map seconds [10, 30, 60, 300, 900, 1800, 1800]"
  by code_simp

end
