(* ===== verification/Spec2Isabelle.thy ===== *)
theory Spec2Isabelle
  imports Startup Delivery Notices Notifier_Ui Platform Service Conformance
begin

text \<open>
  Verification of the Rust half of TimeLord: the agent that runs on a child's device (\<^verbatim>\<open>agent/\<close>), the notifier that
  warns the logged-on user (\<^verbatim>\<open>notifier/\<close>) and the protocol between them (\<^verbatim>\<open>ipc/\<close>).

  \<^bold>\<open>The program.\<close> The agent watches session and power notifications, keeps usage sessions in a database, reports events to a
  controller over HTTP through a persistent queue, receives a schedule of off windows and puts the device to
  sleep or shuts it down inside them. Time is taken from a clock corrected by SNTP, so that changing the
  system clock does not help. The notifier polls the agent over a named pipe, warns before an off window and
  shows the administrator's messages. Two threads of control matter in the agent: the platform pump with the usage
  recorder, and the asynchronous tasks that share one \<^verbatim>\<open>Agent\<close>.

  \<^bold>\<open>The theories,\<close> each with the source it models:

  \<^item> \<open>Timelord_Prelude\<close>, \<open>Codecs\<close>, \<open>Filesystem\<close>: the vocabulary (instants, words, text), the serialisation parameters and
    the part of \<^verbatim>\<open>std::fs\<close> in use, with every state a crash can leave; the locale \<open>cached_file\<close> is the contract of a cache file and is
    interpreted by the schedule, message and notifier caches. \<open>Database\<close>: opening a database file (directory, connection, schema); the locale
    \<open>database_open\<close> is interpreted by the queue and by the usage store.
  \<^item> \<open>Schedule\<close> (\<^verbatim>\<open>schedule.rs\<close>): off windows, the next change, the cache file.
  \<^item> \<open>Tracker\<close> (\<^verbatim>\<open>tracker.rs\<close>): the state machine from notifications to usage intervals. Its locale \<open>interval_source\<close> gives
    accounting and disjointness for any machine that reports its transitions consistently.
  \<^item> \<open>Protocol\<close>, \<open>Events\<close> (\<^verbatim>\<open>protocol.rs\<close>, \<^verbatim>\<open>events.rs\<close>): the bodies of requests and the event constructors.
  \<^item> \<open>Queue\<close> (\<^verbatim>\<open>queue.rs\<close>): the event queue as a table of text columns with failing statements, refined to a list of entries
    (\<open>queue_rep\<close>); the locale \<open>event_store\<close> is what its clients use.
  \<^item> \<open>Store\<close> (\<^verbatim>\<open>store.rs\<close>) and \<open>Recorder\<close> (\<^verbatim>\<open>lib.rs\<close>): the session table, and the recorder that ties tracker, store and queue
    together. \<open>mirrors\<close> says that the table is what the tracker has recorded.
  \<^item> \<open>Messages\<close>, \<open>Clock\<close>, \<open>Config\<close>, \<open>Discovery\<close>, \<open>Client\<close> (\<^verbatim>\<open>messages.rs\<close>, \<^verbatim>\<open>clock.rs\<close>, \<^verbatim>\<open>config.rs\<close>, \<^verbatim>\<open>discovery.rs\<close>,
    \<^verbatim>\<open>controller_client.rs\<close>): administrator messages, the trusted clock with its SNTP packets, the resolution of the configuration, finding a
    controller on the local network, the HTTP client.
  \<^item> \<open>Host\<close> (\<^verbatim>\<open>agent.rs\<close>): what is reported about the host. \<open>Agent\<close> (\<^verbatim>\<open>agent.rs\<close>): the shared state, every operation on it and one definition per turn of each loop. \<open>System\<close>
    (\<^verbatim>\<open>run_blocking\<close>): the step relation over all interleavings of the loops and the pump, with its safety properties. \<open>Agent_Laws\<close>: what
    single turns guarantee (enforcement, delivery, clock). \<open>Delivery\<close>: the turns of the delivery loop in sequence. \<open>Persistence\<close>: what the files
    hold when the disk works, \<open>Disk_Faults\<close>: what they can hold when it does not. \<open>Soundness\<close>: that every reachable state
    is well formed. \<open>Startup\<close> (the first half of \<^verbatim>\<open>run_blocking\<close>): opening the databases, closing the session left behind, and lives of the
    agent one after the other. \<open>Lifecycle\<close>: which task is alive when, the stop signal, and how long a stop takes.
  \<^item> \<open>Ipc\<close>, \<open>Notify_Pipe\<close> (\<^verbatim>\<open>ipc/src/lib.rs\<close>, \<^verbatim>\<open>notify_pipe.rs\<close>): the pipe's messages and the agent's end of it, with its server.
    \<open>Notifier_Engine\<close>, \<open>Notifier_Text\<close>, \<open>Notifier\<close> (\<^verbatim>\<open>engine.rs\<close>, \<^verbatim>\<open>text.rs\<close> and \<^verbatim>\<open>ui.rs\<close>, \<^verbatim>\<open>state.rs\<close>, \<^verbatim>\<open>logfile.rs\<close>,
    \<^verbatim>\<open>transport.rs\<close> and \<^verbatim>\<open>main.rs\<close>): decisions, wording and main loop of the notifier. \<open>Notifier_Ui\<close> (\<^verbatim>\<open>ui.rs\<close>): its start and the calls
    that show and remove toasts. \<open>Notifier_Link\<close>: the two ends of the pipe joined. \<open>Notices\<close>: what the agent announces is what it does, and the
    notifier warns of it first.
  \<^item> \<open>Platform\<close> (\<^verbatim>\<open>platform/windows.rs\<close>, \<^verbatim>\<open>platform/dev.rs\<close>): how window messages or typed commands reach the recorder; both
    backends interpret the locale \<open>session_backend\<close>, which gives the clean stop. \<open>Cli\<close> (\<^verbatim>\<open>main.rs\<close>, the control handler of
    \<^verbatim>\<open>service_win.rs\<close>): the commands with what they print, and the stop requests of the service manager. \<open>Service\<close> (\<^verbatim>\<open>service_win.rs\<close>): the status reports,
    installing and removing.
  \<^item> \<open>Conformance\<close>: the repository's unit tests on pure functions, evaluated on the definitions.

  \<^bold>\<open>What is shown.\<close>

  \<^item> Enforcement: in every interleaving a power action lies inside an off window of the schedule confirmed last or
    cached, at the trusted time; a turn acts exactly when it has to; the loop never sleeps past a moment to act; shutdown requests are five
    minutes apart; what is announced to the user is what happens, after four warnings, except at the end of a grace period, which can enforce a window that was never announced (\<open>grace_ends_unannounced\<close>).
  \<^item> Well-formedness: in every reachable state of the agent the queue can be read back, so no stored event blocks the others.
  \<^item> Restarts: over any number of lives of the agent, each cut off between two turns or inside one (also half-way through replacing a cache file), the device keeps
    its identity, and schedule, messages, sessions and event queue are those before or after the turn that was cut. This needs a disk that works, and that \<^verbatim>\<open>agent.toml\<close> is not torn,
    which loses the identity (\<open>torn_configuration_forgets_identity\<close>); with a disk that fails, the cached schedule is still one the controller sent.
  \<^item> Stopping: a stop ends within seven seconds, but takes five whenever the pipe server is up, which is longer than the installer waits when it
    replaces a running service.
  \<^item> Accounting: the recorded sessions add up to the time in use, do not overlap and are what the database holds, over
    restarts, failed writes and clean stops.
  \<^item> Delivery: an event is stored once, returned when due and oldest first, retried on the backoff schedule, and leaves
    the queue as the controller answered; when the controller accepts what it is sent, a backlog is delivered in order in as many
    turns as it has batches; no run of operations with failing statements damages the table.
  \<^item> Time: the measured offset is within 1500 milliseconds when most of the servers that answer are right; forged replies are
    refused; a jump of the system clock is corrected by the next measurement.
  \<^item> Identity and discovery: the device identifier is stable; discovery returns the valid answers in time and
    chooses the minimum of the documented order; the subnet enumeration is exact, on 32-bit words.
  \<^item> Warnings and messages: every threshold is warned of once and in order, every message is shown once, across restarts of the
    notifier, and the toast document shows the texts as they are; a poll over the pipe returns exactly what the agent would
    answer at that moment, and there is at most one toast for an action.

  \<^bold>\<open>Conventions.\<close> Everything outside the repository is a parameter: text renderings (\<open>text_env\<close>), JSON and TOML (\<open>codec\<close>), SQLite's scan
  order and failures (\<open>queue_env\<close>, \<open>store_env\<close>), files, sockets, HTTP, the Windows API. What the code relies on is a named law
  (\<open>codec_ok\<close>, \<open>queue_lawful\<close>, \<open>store_lawful\<close>, \<open>first_value_ok\<close>, \<open>pipe_codecs_ok\<close>, \<open>scm_laws\<close>), and the \<open>sample\<close> instances show that the laws can hold. A failing call is a
  value of a sum type, and a panic is too. All definitions terminate without fuel: a loop that waits for the world takes the list of what the
  world answers, one element a turn, and a run is a sequence of steps of any length; the only fuel is that of the reference decoder
  \<open>unescape\<close>, where the length of the text is enough. Machine integers keep their width where it matters (attempt counters, addresses, NTP
  timestamps); instants are unbounded integers in nanoseconds, which chrono represents for hundreds of thousands of years around the epoch.

  \<^bold>\<open>Interleaving.\<close> A step of \<open>sys_step\<close> is what a task does between two points at which it waits for somebody else, with all its reads of shared state at one moment; turns stay possible after a stop, so
  its invariants hold for more runs than the code has. Which task is still alive is the subject of \<open>Lifecycle\<close>, which leaves out their data. Which statements
  on the queue's database fail is a choice of each turn (\<open>faults\<close> of its moment), the same for all statements of one kind in that turn; for a notification that reaches
  the recorder, the failures of queue and store are chosen anew (\<open>recorder_at\<close>), and the step \<open>disk\<close> changes how the file system behaves from then on.
  \<open>Queue\<close> treats failures that change from call to call.

  \<^bold>\<open>Not modelled:\<close> the controller and its web interface (other languages; the HTTP API is a parameter); what Windows does with the
  calls (window, pipe instance, toast, service entry), of which only the answers are used; the parsing of arguments (clap's) and the log
  lines (tracing's), of which only the settings are modelled; the JSON bytes of the discovery probes.
\<close>

end
